(* ===== verification/Prelude.thy ===== *)
theory Prelude
  imports Complex_Main "HOL-Library.Word" "HOL-Library.Multiset"
begin

text \<open>
  Shared vocabulary of the object-counter development: the types of frames and pixels,
  the maximum of a list of pixels (the kernel of morphological dilation), rectangular
  images, and the generic list and word lemmas the component theories use.
  \<open>model_defs\<close> collects the definitions that witnesses unfold to evaluate the model
  on concrete frames.
\<close>

named_theorems model_defs "definitions unfolded to evaluate the model on concrete inputs"

subsection \<open>Frames and pixels\<close>

text \<open>
  A frame is a numpy array of rows; a row is a list of pixels. A grayscale pixel is a
  \<open>uint8\<close>, so an \<open>8 word\<close>; a BGR pixel is a triple of them, in OpenCV's channel order.
  Python's \<open>/\<close> (true division) yields a float; pixel coordinates are small integers,
  so every such float is an exact half-integer and is modelled as a \<open>rat\<close>.
\<close>

type_synonym pixel = "8 word"
type_synonym bgr = "pixel \<times> pixel \<times> pixel"
type_synonym 'a image = "'a list list"
type_synonym gray_image = "pixel image"
type_synonym bgr_image = "bgr image"
type_synonym coord = rat

text \<open>\<open>np.size(Frame, 1)\<close>: the length of a row (0 for a frame without rows).\<close>

definition row_width :: "'a image \<Rightarrow> nat" where
  "row_width img = (case img of [] \<Rightarrow> 0 | r # _ \<Rightarrow> length r)"

text \<open>Every numpy frame is rectangular: \<open>h\<close> rows of \<open>w\<close> pixels each.\<close>

definition wf_image :: "nat \<Rightarrow> nat \<Rightarrow> 'a image \<Rightarrow> bool" where
  "wf_image h w img \<longleftrightarrow> length img = h \<and> list_all (\<lambda>r. length r = w) img"

declare row_width_def [model_defs] wf_image_def [model_defs]

text \<open>
  The exceptions the program can raise on the paths modelled: \<open>IndexError\<close> from
  \<open>np.size\<close> on a missing frame, \<open>CvError\<close> from an OpenCV call whose arguments
  do not fit (\<open>cv2.error\<close>), and \<open>TypeError\<close> and \<open>OverflowError\<close> from the
  conversion of a Python number to a C \<open>int\<close> argument of an OpenCV call.
\<close>

datatype py_error = IndexError | CvError | TypeError | OverflowError

text \<open>The pixels of an image, row after row.\<close>

abbreviation pixels :: "'a image \<Rightarrow> 'a set" where
  "pixels img \<equiv> set (concat img)"

subsection \<open>Maximum of a list of pixels\<close>

text \<open>
  The maximum of a list of words, 0 for the empty list; 0 is the least word, so it never
  changes a non-empty maximum.
\<close>

definition max_list :: "'a::len word list \<Rightarrow> 'a word" where
  "max_list xs = foldr max xs 0"

declare max_list_def [model_defs]

subsection \<open>Lemmas on images and maxima\<close>

lemma wf_image_map_map [intro]: "wf_image h w img \<Longrightarrow> wf_image h w (map (map f) img)"
  by (simp add: wf_image_def list_all_iff)

lemma wf_image_map2 [intro]:
  "wf_image h w A \<Longrightarrow> wf_image h w B \<Longrightarrow> wf_image h w (map2 (map2 f) A B)"
proof (induction A arbitrary: h B)
  case Nil
  then show ?case by (simp add: wf_image_def)
next
  case (Cons r A)
  then obtain s B' where "B = s # B'" by (cases B) (auto simp: wf_image_def)
  with Cons show ?case by (cases h) (auto simp: wf_image_def)
qed

lemma wf_image_row_width:
  "wf_image h w img \<Longrightarrow> 0 < h \<Longrightarrow> row_width img = w"
  by (cases img) (auto simp: wf_image_def row_width_def)

lemma wf_image_nth [simp]:
  "wf_image h w img \<Longrightarrow> i < h \<Longrightarrow> length (img ! i) = w"
  by (auto simp: wf_image_def list_all_length)

lemma wf_image_tabulate [intro]:
  "wf_image h w (map (\<lambda>i. map (f i) [0..<w]) [0..<h])"
  by (simp add: wf_image_def list_all_iff)

lemma max_list_le_iff: "max_list xs \<le> m \<longleftrightarrow> (\<forall>x\<in>set xs. x \<le> m)"
  by (induction xs) (auto simp: max_list_def)

lemma max_list_ge: "x \<in> set xs \<Longrightarrow> x \<le> max_list xs"
  by (induction xs) (auto simp: max_list_def max_def)

lemma max_list_mem: "max_list xs \<in> insert 0 (set xs)"
  by (induction xs) (auto simp: max_list_def max_def)

subsection \<open>Orbits of an injective map on a finite set\<close>

lemma funpow_in: "f ` S \<subseteq> S \<Longrightarrow> a \<in> S \<Longrightarrow> (f ^^ n) a \<in> S"
  by (induction n) auto

lemma funpow_inj_cancel:
  assumes "inj_on f S" "f ` S \<subseteq> S"
  shows "a \<in> S \<Longrightarrow> b \<in> S \<Longrightarrow> (f ^^ n) a = (f ^^ n) b \<Longrightarrow> a = b"
proof (induction n arbitrary: a b)
  case 0
  then show ?case by simp
next
  case (Suc n)
  have "(f ^^ n) (f a) = (f ^^ n) (f b)"
    using Suc.prems(3) by (metis comp_apply funpow_Suc_right)
  then have "f a = f b" using Suc.IH [of "f a" "f b"] Suc.prems(1,2) assms(2) by blast
  then show ?case using assms(1) Suc.prems(1,2) by (simp add: inj_on_eq_iff)
qed

lemma inj_on_cycle:
  assumes "inj_on f S" "finite S" "f ` S \<subseteq> S" "x \<in> S"
  shows "\<exists>n>0. (f ^^ n) x = x"
proof -
  have cyc: "\<exists>n>0. (f ^^ n) x = x" if "i < j" "(f ^^ i) x = (f ^^ j) x" for i j
  proof -
    have "(f ^^ i) ((f ^^ (j - i)) x) = (f ^^ (i + (j - i))) x"
      by (simp add: funpow_add)
    also have "\<dots> = (f ^^ i) x" using that by simp
    finally have "(f ^^ i) ((f ^^ (j - i)) x) = (f ^^ i) x" .
    then have "(f ^^ (j - i)) x = x"
      using funpow_inj_cancel [OF assms(1,3)] funpow_in [OF assms(3,4)] assms(4) by blast
    with that(1) show ?thesis by (intro exI [of _ "j - i"]) simp
  qed
  have "\<not> inj_on (\<lambda>i. (f ^^ i) x) {0..card S}"
  proof
    assume "inj_on (\<lambda>i. (f ^^ i) x) {0..card S}"
    moreover have "(\<lambda>i. (f ^^ i) x) ` {0..card S} \<subseteq> S"
      using funpow_in [OF assms(3,4)] by blast
    ultimately have "card {0..card S} \<le> card S"
      using card_inj_on_le assms(2) by blast
    then show False by simp
  qed
  then obtain i j where "i \<noteq> j" "(f ^^ i) x = (f ^^ j) x"
    by (auto simp: inj_on_def)
  then show ?thesis using cyc by (metis linorder_neqE_nat)
qed

subsection \<open>Words\<close>

lemma word8_le_255 [simp]: "unat (x :: 8 word) \<le> 255"
  using unsigned_less [of x, where ?'a = nat] by simp

end
