(* ===== verification/Globals.thy ===== *)
theory Globals
  imports Prelude
begin

text \<open>
  The module-level configuration and the two process-wide counters of
  \<^verbatim>\<open>src/converted.py\<close> (lines 6--13). The thresholds are fixed for the run; the counters
  are Python integers, so \<open>int\<close>, and they are the only state shared between frames
  apart from the background frame (theory \<open>Driver\<close>).
\<close>

definition MinimumContourArea :: int where
  "MinimumContourArea = 3000"

definition BinarizationThreshold :: nat where
  "BinarizationThreshold = 70"

definition ReferenceLinesOffset :: int where
  "ReferenceLinesOffset = 150"

declare MinimumContourArea_def [model_defs] BinarizationThreshold_def [model_defs]
  ReferenceLinesOffset_def [model_defs]

text \<open>
  \<open>EntryCounter\<close> and \<open>ExitCounter\<close> (lines 9--10). Operations that update them are
  stated over \<open>'a counters_scheme\<close>, so that they apply to every state record that
  extends this one, as a Python function writing the globals does.
\<close>

record counters =
  EntryCounter :: int
  ExitCounter :: int

text \<open>Counters only grow: the order the monotonicity theorems are stated in.\<close>

definition counters_le :: "'a counters_scheme \<Rightarrow> 'b counters_scheme \<Rightarrow> bool" where
  "counters_le s t \<longleftrightarrow> EntryCounter s \<le> EntryCounter t \<and> ExitCounter s \<le> ExitCounter t"

lemma counters_le_refl [simp]: "counters_le s s"
  by (simp add: counters_le_def)

lemma counters_le_trans [trans]: "counters_le s t \<Longrightarrow> counters_le t u \<Longrightarrow> counters_le s u"
  by (auto simp: counters_le_def)

end
