(* ===== verification/LineCrossing.thy ===== *)
theory LineCrossing
  imports Globals
begin

text \<open>
  The line-crossing tests of \<^verbatim>\<open>src/converted.py\<close>: \<open>TestEntryIntersection\<close> (lines 16--22),
  \<open>TestExitIntersection\<close> (lines 25--31) and the two reference lines computed from the
  frame height (lines 79--80). The tests return the Python integers 1 and 0, which the
  caller reads as truth values. All coordinates are results of Python's true division,
  modelled as \<open>rat\<close> (theory \<open>Prelude\<close>).
\<close>

definition TestEntryIntersection :: "coord \<Rightarrow> coord \<Rightarrow> coord \<Rightarrow> int" where
  "TestEntryIntersection y EntryLineYCoord ExitLineYCoord =
     (let AbsoluteDifference = \<bar>y - EntryLineYCoord\<bar>
      in if AbsoluteDifference \<le> 2 \<and> y < ExitLineYCoord then 1 else 0)"

definition TestExitIntersection :: "coord \<Rightarrow> coord \<Rightarrow> coord \<Rightarrow> int" where
  "TestExitIntersection y EntryLineYCoord ExitLineYCoord =
     (let AbsoluteDifference = \<bar>y - ExitLineYCoord\<bar>
      in if AbsoluteDifference \<le> 2 \<and> y > EntryLineYCoord then 1 else 0)"

text \<open>\<open>(height / 2) - ReferenceLinesOffset\<close> and \<open>(height / 2) + ReferenceLinesOffset\<close>.\<close>

definition EntryLineYCoord :: "nat \<Rightarrow> int \<Rightarrow> coord" where
  "EntryLineYCoord height offset = of_nat height / 2 - of_int offset"

definition ExitLineYCoord :: "nat \<Rightarrow> int \<Rightarrow> coord" where
  "ExitLineYCoord height offset = of_nat height / 2 + of_int offset"

declare TestEntryIntersection_def [model_defs] TestExitIntersection_def [model_defs]
  EntryLineYCoord_def [model_defs] ExitLineYCoord_def [model_defs]

subsection \<open>The tests as intervals\<close>

text \<open>
  A test is truthy exactly when the centroid lies in the closed band of half-width 2
  around its line and on the inner side of the other line.
\<close>

lemma entry_hit_iff:
  "TestEntryIntersection y E X \<noteq> 0 \<longleftrightarrow> E - 2 \<le> y \<and> y \<le> E + 2 \<and> y < X"
  by (auto simp: TestEntryIntersection_def abs_le_iff)

lemma exit_hit_iff:
  "TestExitIntersection y E X \<noteq> 0 \<longleftrightarrow> X - 2 \<le> y \<and> y \<le> X + 2 \<and> E < y"
  by (auto simp: TestExitIntersection_def abs_le_iff)

lemmas hit_iffs = entry_hit_iff exit_hit_iff

text \<open>A centre passing both tests lies strictly between two lines at most 4 apart.\<close>

lemma both_hits_close:
  assumes "TestEntryIntersection y E X \<noteq> 0" and "TestExitIntersection y E X \<noteq> 0"
  shows "E < y \<and> y < X \<and> X - E \<le> 4"
  using assms by (simp add: hit_iffs)

lemma lines_distance: "ExitLineYCoord h off - EntryLineYCoord h off = 2 * of_int off"
  by (simp add: EntryLineYCoord_def ExitLineYCoord_def)

subsection \<open>Properties of the tests\<close>

text \<open>
  C17: a centre exactly on the entry line, with the exit line below it, passes the entry
  test and fails the exit test.
\<close>

theorem entry_at_entry_line:
  assumes "E < X"
  shows "TestEntryIntersection E E X = 1 \<and> TestExitIntersection E E X = 0"
  using assms by (simp add: TestEntryIntersection_def TestExitIntersection_def)

theorem entry_at_entry_line_witness:
  "(90::coord) < 390 \<and> TestEntryIntersection 90 90 390 = 1 \<and> TestExitIntersection 90 90 390 = 0"
  using entry_at_entry_line [of 90 390] by simp

text \<open>
  C18: a centre exactly on the exit line, with the entry line above it, passes the exit
  test and fails the entry test.
\<close>

theorem exit_at_exit_line:
  assumes "E < X"
  shows "TestExitIntersection X E X = 1 \<and> TestEntryIntersection X E X = 0"
  using assms by (simp add: TestEntryIntersection_def TestExitIntersection_def)

theorem exit_at_exit_line_witness:
  "(90::coord) < 390 \<and> TestExitIntersection 390 90 390 = 1 \<and> TestEntryIntersection 390 90 390 = 0"
  using exit_at_exit_line [of 90 390] by simp

text \<open>
  C19: the tolerance is two pixels: a centre three pixels above or below a line fails that
  line's test, whatever the other line is.
\<close>

theorem outside_tolerance:
  "TestEntryIntersection (E + 3) E X = 0 \<and> TestEntryIntersection (E - 3) E X = 0 \<and>
   TestExitIntersection (X + 3) E X = 0 \<and> TestExitIntersection (X - 3) E X = 0"
  by (simp add: TestEntryIntersection_def TestExitIntersection_def)

text \<open>
  C20: for a positive offset and a frame taller than twice the offset, both reference
  lines lie inside the frame and the entry line is above the exit line.
\<close>

theorem lines_inside_frame:
  assumes "0 < offset" and "2 * offset < int height"
  shows "0 < EntryLineYCoord height offset \<and> EntryLineYCoord height offset < ExitLineYCoord height offset
         \<and> ExitLineYCoord height offset < of_nat height"
proof -
  have "2 * (of_int offset :: rat) < of_nat height"
    using assms(2) by (metis of_int_less_iff of_int_mult of_int_numeral of_int_of_nat_eq)
  moreover have "(0::rat) < of_int offset"
    using assms(1) by simp
  ultimately show ?thesis
    by (simp add: EntryLineYCoord_def ExitLineYCoord_def field_simps)
qed

theorem lines_inside_frame_witness:
  "(0::int) < 150 \<and> 2 * 150 < int 480 \<and>
   0 < EntryLineYCoord 480 150 \<and> EntryLineYCoord 480 150 < ExitLineYCoord 480 150
   \<and> ExitLineYCoord 480 150 < of_nat 480"
  using lines_inside_frame [of 150 480] by simp

text \<open>
  C21: with the program's configuration (\<open>ReferenceLinesOffset = 150\<close>) no centre passes
  both tests, whatever the frame height: the lines are 300 pixels apart, far more than
  the 4 pixels a double count needs.
\<close>

theorem no_double_hit:
  "\<not> (TestEntryIntersection y (EntryLineYCoord h ReferenceLinesOffset) (ExitLineYCoord h ReferenceLinesOffset) \<noteq> 0
      \<and> TestExitIntersection y (EntryLineYCoord h ReferenceLinesOffset) (ExitLineYCoord h ReferenceLinesOffset) \<noteq> 0)"
  using both_hits_close lines_distance [of h ReferenceLinesOffset]
  by (fastforce simp: ReferenceLinesOffset_def)

end
