(* ===== verification/Contours.thy ===== *)
theory Contours
  imports Prelude
begin

text \<open>
  The geometry the contour loop of \<^verbatim>\<open>src/converted.py\<close> applies to each contour:
  \<open>cv2.contourArea\<close> (line 87), \<open>cv2.boundingRect\<close> (line 95) and the centre of the
  bounding rectangle (lines 101--102). The two OpenCV functions are library code, modelled
  from OpenCV's documented algorithm: the shoelace sum over the closed polygon, starting
  from the last point, and the min/max scan starting from the first point that returns
  \<open>(xmin, ymin, xmax - xmin + 1, ymax - ymin + 1)\<close>. A contour is the point list that
  \<open>cv2.findContours\<close> returns; points are \<open>(x, y)\<close> with integer coordinates.
\<close>

type_synonym point = "int \<times> int"
type_synonym contour = "point list"
type_synonym rect = "int \<times> int \<times> int \<times> int"

subsection \<open>\<open>cv2.contourArea\<close>\<close>

text \<open>
  \<open>a00 += prev.x * p.y - prev.y * p.x; prev = p\<close> for each point \<open>p\<close>, with \<open>prev\<close>
  starting at the last point; then \<open>|a00| / 2\<close>, and 0 for an empty contour.
\<close>

fun shoelace :: "point \<Rightarrow> point list \<Rightarrow> int" where
  "shoelace prev [] = 0"
| "shoelace prev (p # ps) = (fst prev * snd p - snd prev * fst p) + shoelace p ps"

definition contourArea :: "contour \<Rightarrow> rat" where
  "contourArea pts = (if pts = [] then 0 else \<bar>of_int (shoelace (last pts) pts)\<bar> / 2)"

subsection \<open>\<open>cv2.boundingRect\<close>\<close>

text \<open>The scan keeps \<open>(xmin, xmax, ymin, ymax)\<close>, initialised from the first point.\<close>

fun bbox_scan :: "int \<times> int \<times> int \<times> int \<Rightarrow> point list \<Rightarrow> int \<times> int \<times> int \<times> int" where
  "bbox_scan b [] = b"
| "bbox_scan (xmin, xmax, ymin, ymax) (p # ps) =
     bbox_scan (min xmin (fst p), max xmax (fst p), min ymin (snd p), max ymax (snd p)) ps"

definition boundingRect :: "contour \<Rightarrow> rect" where
  "boundingRect pts =
     (case pts of
        [] \<Rightarrow> (0, 0, 0, 0)
      | p # ps \<Rightarrow>
          (case bbox_scan (fst p, fst p, snd p, snd p) ps of
             (xmin, xmax, ymin, ymax) \<Rightarrow> (xmin, ymin, xmax - xmin + 1, ymax - ymin + 1)))"

subsection \<open>The centre of the rectangle\<close>

text \<open>
  \<open>CenterXCoord = (x + x + w) / 2\<close>, \<open>CenterYCoord = (y + y + h) / 2\<close>: Python's true
  division, so a half-integer when the width or height is odd.
\<close>

definition ContourCenter :: "rect \<Rightarrow> coord \<times> coord" where
  "ContourCenter r =
     (case r of (x, y, w, h) \<Rightarrow> (of_int (x + x + w) / 2, of_int (y + y + h) / 2))"

declare contourArea_def [model_defs] boundingRect_def [model_defs]
  ContourCenter_def [model_defs]

subsection \<open>The shoelace sum\<close>

text \<open>The sum along consecutive points, without the closing edge.\<close>

fun open_sum :: "point list \<Rightarrow> int" where
  "open_sum [] = 0"
| "open_sum [p] = 0"
| "open_sum (p # q # ps) = (fst p * snd q - snd p * fst q) + open_sum (q # ps)"

abbreviation cross :: "point \<Rightarrow> point \<Rightarrow> int" where
  "cross p q \<equiv> fst p * snd q - snd p * fst q"

lemma open_sum_Cons:
  "ps \<noteq> [] \<Longrightarrow> open_sum (p # ps) = cross p (hd ps) + open_sum ps"
  by (cases ps) auto

lemma shoelace_eq:
  "shoelace prev ps = (if ps = [] then 0 else cross prev (hd ps) + open_sum ps)"
  by (induction ps arbitrary: prev) (auto simp: open_sum_Cons)

declare shoelace.simps [simp del]

lemma open_sum_snoc:
  "ps \<noteq> [] \<Longrightarrow> open_sum (ps @ [q]) = open_sum ps + cross (last ps) q"
  by (induction ps rule: open_sum.induct) auto

lemma open_sum_rev: "open_sum (rev ps) = - open_sum ps"
proof (induction ps rule: open_sum.induct)
  case (3 p q ps)
  have "open_sum (rev (p # q # ps)) = open_sum (rev (q # ps) @ [p])"
    by simp
  also have "\<dots> = open_sum (rev (q # ps)) + cross q p"
    using open_sum_snoc [of "rev (q # ps)" p] by (simp add: last_rev)
  also have "\<dots> = - open_sum (p # q # ps)"
    using "3.IH" by (simp add: algebra_simps)
  finally show ?case .
qed simp_all

lemma shoelace_rotate1:
  "shoelace (last (rotate1 ps)) (rotate1 ps) = shoelace (last ps) ps"
proof (cases "length ps < 2")
  case True
  then show ?thesis by (cases ps) (auto simp: shoelace_eq)
next
  case False
  then obtain p qs where ps: "ps = p # qs" and qs: "qs \<noteq> []"
    by (cases ps) auto
  have "shoelace (last (rotate1 ps)) (rotate1 ps) = cross p (hd qs) + open_sum (qs @ [p])"
    using qs by (simp add: ps shoelace_eq)
  also have "\<dots> = cross (last qs) p + open_sum (p # qs)"
    using qs by (simp add: open_sum_snoc open_sum_Cons)
  also have "\<dots> = shoelace (last ps) ps"
    using qs by (simp add: ps shoelace_eq)
  finally show ?thesis .
qed

lemma shoelace_rev:
  "shoelace (last (rev ps)) (rev ps) = - shoelace (last ps) ps"
proof (cases "ps = []")
  case True
  then show ?thesis by (simp add: shoelace_eq)
next
  case False
  then have "shoelace (last (rev ps)) (rev ps) = cross (hd ps) (last ps) - open_sum ps"
    by (simp add: shoelace_eq hd_rev last_rev open_sum_rev)
  also have "\<dots> = - shoelace (last ps) ps"
    using False by (simp add: shoelace_eq algebra_simps)
  finally show ?thesis .
qed

subsection \<open>The bounding-box scan\<close>

lemma Min_insert_min:
  "finite A \<Longrightarrow> Min (insert (min a b) A) = min a (Min (insert b A))"
  by (cases "A = {}") (simp_all add: min.assoc)

lemma Max_insert_max:
  "finite A \<Longrightarrow> Max (insert (max a b) A) = max a (Max (insert b A))"
  by (cases "A = {}") (simp_all add: max.assoc)

lemma bbox_scan_eq:
  "bbox_scan (a, b, c, d) ps =
     (Min (insert a (fst ` set ps)), Max (insert b (fst ` set ps)),
      Min (insert c (snd ` set ps)), Max (insert d (snd ` set ps)))"
  by (induction ps arbitrary: a b c d) (simp_all add: Min_insert_min Max_insert_max)

lemma boundingRect_Cons:
  "boundingRect (p # ps) =
     (let xmin = Min (fst ` set (p # ps)); xmax = Max (fst ` set (p # ps));
          ymin = Min (snd ` set (p # ps)); ymax = Max (snd ` set (p # ps))
      in (xmin, ymin, xmax - xmin + 1, ymax - ymin + 1))"
  by (simp add: boundingRect_def bbox_scan_eq)

subsection \<open>The area does not depend on where or which way the border is traced\<close>

lemma contourArea_rotate1: "contourArea (rotate1 c) = contourArea c"
  by (cases "c = []") (simp_all add: contourArea_def shoelace_rotate1)

lemma contourArea_rev: "contourArea (rev c) = contourArea c"
  by (cases "c = []") (simp_all add: contourArea_def shoelace_rev)

end
