(* ===== verification/Counting.thy ===== *)
theory Counting
  imports LineCrossing Contours
begin

text \<open>
  The per-frame contour loop of \<^verbatim>\<open>src/converted.py\<close> (lines 76 and 85--112): for each
  contour, skip it when its area is below \<open>MinimumContourArea\<close>; otherwise count it in
  \<open>ContourCount\<close>, take its bounding rectangle and centre, and increment
  \<open>EntryCounter\<close> and \<open>ExitCounter\<close> by the two line tests, in that order. The loop
  writes module-level variables, so it is stated over every state record that extends
  \<open>loop_vars\<close>; the driver passes its whole state. \<open>contour_step\<close> and
  \<open>count_contours\<close> are the state updates of the loop only: they leave out
  \<open>cv2.rectangle\<close> (line 98) and \<open>cv2.circle\<close> (line 104), and under Python 3 the
  circle call raises \<open>TypeError\<close> on every contour that passes the area filter. The loop
  as run, with its drawing, is \<open>draw_count\<close> (theory \<open>Rendering\<close>), which raises at
  line 104 on the first retained contour and otherwise equals \<open>count_contours\<close>. The
  properties proved here are about which contours are retained, their centres and the
  order of the contours, and carry over to \<open>draw_count\<close> through that equation.
\<close>

record loop_vars = counters +
  ContourCount :: nat

text \<open>The area guard of line 87 (a float compared with the integer threshold).\<close>

definition retained :: "contour \<Rightarrow> bool" where
  "retained contour \<longleftrightarrow> \<not> contourArea contour < of_int MinimumContourArea"

text \<open>\<open>CenterYCoord\<close> of a contour (lines 95 and 102).\<close>

definition CenterYCoord :: "contour \<Rightarrow> coord" where
  "CenterYCoord contour = snd (ContourCenter (boundingRect contour))"

definition contour_step :: "coord \<Rightarrow> coord \<Rightarrow> 'a loop_vars_scheme \<Rightarrow> contour \<Rightarrow> 'a loop_vars_scheme" where
  "contour_step EntryLineY ExitLineY s contour =
     (if contourArea contour < of_int MinimumContourArea then s
      else
        let s1 = s\<lparr>ContourCount := Suc (ContourCount s)\<rparr>;
            (x, y, w, h) = boundingRect contour;
            (CenterX, CenterY) = ContourCenter (x, y, w, h);
            s2 = (if TestEntryIntersection CenterY EntryLineY ExitLineY \<noteq> 0
                  then s1\<lparr>EntryCounter := EntryCounter s1 + 1\<rparr> else s1)
        in if TestExitIntersection CenterY EntryLineY ExitLineY \<noteq> 0
           then s2\<lparr>ExitCounter := ExitCounter s2 + 1\<rparr> else s2)"

text \<open>\<open>for contour in contours:\<close>, in the order \<open>cv2.findContours\<close> returned them.\<close>

fun count_contours :: "coord \<Rightarrow> coord \<Rightarrow> 'a loop_vars_scheme \<Rightarrow> contour list \<Rightarrow> 'a loop_vars_scheme" where
  "count_contours E X s [] = s"
| "count_contours E X s (c # cs) = count_contours E X (contour_step E X s c) cs"

declare retained_def [model_defs] CenterYCoord_def [model_defs] contour_step_def [model_defs]

subsection \<open>The abstract contract\<close>

text \<open>
  The spec's \<open>Evaluate(blob, entryLineY, exitLineY)\<close>: a blob is an entry (exit) hit when
  it survives the area filter and its centre passes the entry (exit) test.
\<close>

definition entry_hit :: "coord \<Rightarrow> coord \<Rightarrow> contour \<Rightarrow> bool" where
  "entry_hit E X c \<longleftrightarrow> retained c \<and> TestEntryIntersection (CenterYCoord c) E X \<noteq> 0"

definition exit_hit :: "coord \<Rightarrow> coord \<Rightarrow> contour \<Rightarrow> bool" where
  "exit_hit E X c \<longleftrightarrow> retained c \<and> TestExitIntersection (CenterYCoord c) E X \<noteq> 0"

text \<open>
  What a frame's loop promises: each counter grows by its number of hits, the contour
  count by the number of retained contours, and nothing else in the state changes.
\<close>

definition frame_effect :: "coord \<Rightarrow> coord \<Rightarrow> contour list \<Rightarrow> 'a loop_vars_scheme \<Rightarrow> 'a loop_vars_scheme" where
  "frame_effect E X cs s =
     s\<lparr>EntryCounter := EntryCounter s + int (length (filter (entry_hit E X) cs)),
       ExitCounter := ExitCounter s + int (length (filter (exit_hit E X) cs)),
       ContourCount := ContourCount s + length (filter retained cs)\<rparr>"

subsection \<open>One contour\<close>

lemma contour_step_eq:
  "contour_step E X s c =
     (if retained c then
        s\<lparr>EntryCounter := EntryCounter s + (if entry_hit E X c then 1 else 0),
          ExitCounter := ExitCounter s + (if exit_hit E X c then 1 else 0),
          ContourCount := Suc (ContourCount s)\<rparr>
      else s)"
  by (simp add: contour_step_def entry_hit_def exit_hit_def retained_def CenterYCoord_def
      Let_def split: prod.split)

lemma hit_retained: "entry_hit E X c \<Longrightarrow> retained c" "exit_hit E X c \<Longrightarrow> retained c"
  by (simp_all add: entry_hit_def exit_hit_def)

lemma frame_effect_Cons:
  "frame_effect E X (c # cs) s = frame_effect E X cs (contour_step E X s c)"
  by (auto simp: frame_effect_def contour_step_eq dest: hit_retained)

lemma length_filter_mset: "length (filter P xs) = size (filter_mset P (mset xs))"
  by (metis mset_filter size_mset)

subsection \<open>The loop\<close>

lemma count_contours_eq: "count_contours E X s cs = frame_effect E X cs s"
  by (induction cs arbitrary: s) (simp add: frame_effect_def, simp add: frame_effect_Cons)

text \<open>
  C22: the counting is independent of the order in which \<open>cv2.findContours\<close> reports
  the contours: two contour lists that are permutations of each other (equal multisets)
  leave the same state.
\<close>

theorem count_contours_order_independent:
  assumes "mset cs = mset cs'"
  shows "count_contours E X s cs = count_contours E X s cs'"
proof -
  have "length (filter P cs) = length (filter P cs')" for P
    using assms by (simp add: length_filter_mset)
  then show ?thesis
    by (simp add: count_contours_eq frame_effect_def)
qed

theorem count_contours_order_independent_witness:
  "mset [[(100, 60), (100, 119), (160, 119), (160, 60)], [(0, 0), (0, 5), (5, 5)]]
     = mset [[(0, 0), (0, 5), (5, 5)], [(100, 60), (100, 119), (160, 119), (160, 60)]]
   \<and> count_contours 90 390 \<lparr>EntryCounter = 0, ExitCounter = 0, ContourCount = 0\<rparr>
        [[(100, 60), (100, 119), (160, 119), (160, 60)], [(0, 0), (0, 5), (5, 5)]]
     = count_contours 90 390 \<lparr>EntryCounter = 0, ExitCounter = 0, ContourCount = 0\<rparr>
        [[(0, 0), (0, 5), (5, 5)], [(100, 60), (100, 119), (160, 119), (160, 60)]]"
  using count_contours_order_independent
    [of "[[(100, 60), (100, 119), (160, 119), (160, 60)], [(0, 0), (0, 5), (5, 5)]]"
        "[[(0, 0), (0, 5), (5, 5)], [(100, 60), (100, 119), (160, 119), (160, 60)]]"
        90 390 "\<lparr>EntryCounter = 0, ExitCounter = 0, ContourCount = 0\<rparr>"]
  by simp

text \<open>
  C23: whether a contour passes the area filter of line 87 does not depend on the point
  at which \<open>cv2.findContours\<close> starts tracing the border, nor on the direction of the
  trace.
\<close>

theorem retained_trace_independent:
  "retained (rotate1 c) = retained c \<and> retained (rev c) = retained c"
  by (simp add: retained_def contourArea_rotate1 contourArea_rev)

text \<open>
  C24: the centre the line tests use (lines 95 and 102) lies half a pixel below the
  midpoint of the topmost and bottommost contour points: \<open>cv2.boundingRect\<close> counts
  the height in pixels, \<open>ymax - ymin + 1\<close>.
\<close>

theorem CenterYCoord_eq:
  assumes "c \<noteq> []"
  shows "CenterYCoord c = (of_int (Min (snd ` set c)) + of_int (Max (snd ` set c)) + 1) / 2"
proof -
  obtain p ps where "c = p # ps" using assms by (cases c) auto
  then show ?thesis
    by (simp add: CenterYCoord_def boundingRect_Cons ContourCenter_def Let_def)
qed

theorem CenterYCoord_eq_witness:
  "[(0, 0), (0, 59), (60, 59), (60, 0)] \<noteq> ([] :: contour) \<and>
   CenterYCoord [(0, 0), (0, 59), (60, 59), (60, 0)] =
     (of_int (Min (snd ` set [(0::int, 0::int), (0, 59), (60, 59), (60, 0)]))
      + of_int (Max (snd ` set [(0::int, 0::int), (0, 59), (60, 59), (60, 0)])) + 1) / 2"
  using CenterYCoord_eq [of "[(0, 0), (0, 59), (60, 59), (60, 0)]"] by simp

end
