(* ===== verification/ChangeDetect.thy ===== *)
theory ChangeDetect
  imports Globals
begin

text \<open>
  The change detector of \<^verbatim>\<open>src/converted.py\<close> (lines 67--73): the absolute difference
  between the background frame and the current grayscale frame (\<open>cv2.absdiff\<close>), its
  binarisation (\<open>cv2.threshold\<close> with \<open>THRESH_BINARY\<close>, threshold
  \<open>BinarizationThreshold\<close>, value 255) and the dilation of the binary frame
  (\<open>cv2.dilate\<close> with kernel \<open>None\<close> and 2 iterations). The three OpenCV functions are
  library code, modelled from OpenCV's algorithm on \<open>uint8\<close> images:
  \<^item> \<open>absdiff\<close> raises \<open>cv2.error\<close> unless both frames have the same shape;
  \<^item> \<open>threshold\<close> maps a pixel \<open>v\<close> to \<open>maxval\<close> if \<open>v > thresh\<close> and to 0 otherwise;
  \<^item> \<open>dilate\<close> with an empty kernel builds the \<open>(2k+1) \<times> (2k+1)\<close> rectangle for \<open>k\<close>
    iterations and runs once, taking the maximum over the pixels of that square that lie
    inside the image (the default border value never wins a maximum).
  The documented meaning of \<open>iterations = k\<close>, the \<open>3 \<times> 3\<close> dilation applied \<open>k\<close>
  times, is \<open>dilate_iter\<close>; theorem \<open>cv_dilate_iterations\<close> shows OpenCV's shortcut
  computes it. \<open>FrameThresh.copy()\<close> only protects the mask from \<open>cv2.findContours\<close>,
  which in OpenCV 3 writes to its input; images are values here, so the copy is the mask.
\<close>

subsection \<open>\<open>cv2.absdiff\<close>\<close>

definition absdiff_px :: "pixel \<Rightarrow> pixel \<Rightarrow> pixel" where
  "absdiff_px a b = (if a \<le> b then b - a else a - b)"

definition same_shape :: "'a image \<Rightarrow> 'b image \<Rightarrow> bool" where
  "same_shape A B \<longleftrightarrow> list_all2 (\<lambda>r s. length r = length s) A B"

definition absdiff :: "gray_image \<Rightarrow> gray_image \<Rightarrow> py_error + gray_image" where
  "absdiff A B = (if same_shape A B then Inr (map2 (map2 absdiff_px) A B) else Inl CvError)"

subsection \<open>\<open>cv2.threshold(..., THRESH_BINARY)[1]\<close>\<close>

definition thresh_px :: "nat \<Rightarrow> pixel \<Rightarrow> pixel \<Rightarrow> pixel" where
  "thresh_px thresh maxval v = (if thresh < unat v then maxval else 0)"

definition threshold_binary :: "nat \<Rightarrow> pixel \<Rightarrow> gray_image \<Rightarrow> gray_image" where
  "threshold_binary thresh maxval img = map (map (thresh_px thresh maxval)) img"

subsection \<open>\<open>cv2.dilate\<close> with the default kernel\<close>

text \<open>The indices within distance \<open>r\<close> of \<open>i\<close> that lie in \<open>[0, n)\<close>.\<close>

definition nbr :: "nat \<Rightarrow> nat \<Rightarrow> nat \<Rightarrow> nat list" where
  "nbr r n i = [i - r..<min n (Suc (i + r))]"

definition dilate_rect :: "nat \<Rightarrow> gray_image \<Rightarrow> gray_image" where
  "dilate_rect r img =
     (let h = length img; w = row_width img
      in map (\<lambda>i. map (\<lambda>j. max_list [img ! a ! b. a \<leftarrow> nbr r h i, b \<leftarrow> nbr r w j]) [0..<w]) [0..<h])"

text \<open>OpenCV's \<open>morphOp\<close>: no iteration copies the source; \<open>k\<close> iterations with the empty
  kernel are one pass with the square of radius \<open>k\<close>.\<close>

definition cv_dilate :: "gray_image \<Rightarrow> nat \<Rightarrow> gray_image" where
  "cv_dilate src iterations = (if iterations = 0 then src else dilate_rect iterations src)"

text \<open>The documented meaning: the \<open>3 \<times> 3\<close> dilation, \<open>iterations\<close> times.\<close>

definition dilate_iter :: "gray_image \<Rightarrow> nat \<Rightarrow> gray_image" where
  "dilate_iter src iterations = (dilate_rect 1 ^^ iterations) src"

subsection \<open>The detector, lines 67--73\<close>

definition detect :: "gray_image \<Rightarrow> gray_image \<Rightarrow> py_error + gray_image" where
  "detect FirstFrame FrameGray =
     (case absdiff FirstFrame FrameGray of
        Inl e \<Rightarrow> Inl e
      | Inr FrameDelta \<Rightarrow>
          let FrameThresh = threshold_binary BinarizationThreshold 255 FrameDelta
          in Inr (cv_dilate FrameThresh 2))"

text \<open>The binarised difference at one pixel: what the mask marks before dilation.\<close>

definition changed :: "gray_image \<Rightarrow> gray_image \<Rightarrow> nat \<Rightarrow> nat \<Rightarrow> bool" where
  "changed bg fr a b \<longleftrightarrow> BinarizationThreshold < unat (absdiff_px (bg ! a ! b) (fr ! a ! b))"

declare absdiff_px_def [model_defs] same_shape_def [model_defs] absdiff_def [model_defs]
  thresh_px_def [model_defs] threshold_binary_def [model_defs] nbr_def [model_defs]
  dilate_rect_def [model_defs] cv_dilate_def [model_defs] detect_def [model_defs]

subsection \<open>Pixels of the difference\<close>

lemma absdiff_px_self [simp]: "absdiff_px a a = 0"
  by (simp add: absdiff_px_def)

subsection \<open>Neighbourhoods\<close>

lemma mem_nbr [simp]: "c \<in> set (nbr r n i) \<longleftrightarrow> i - r \<le> c \<and> c \<le> i + r \<and> c < n"
  by (auto simp: nbr_def)

lemma nbr_0: "i < n \<Longrightarrow> nbr 0 n i = [i]"
  by (simp add: nbr_def)

text \<open>
  Growing a neighbourhood by one: the cells within \<open>r + 1\<close> of \<open>i\<close> are those within
  \<open>r\<close> of a cell within 1 of \<open>i\<close>. The witness cell steps from \<open>i\<close> towards \<open>c\<close>.
\<close>

lemma nbr_Suc_UN:
  assumes "i < n"
  shows "(\<exists>a \<in> set (nbr 1 n i). c \<in> set (nbr r n a)) \<longleftrightarrow> c \<in> set (nbr (Suc r) n i)"
proof
  assume "\<exists>a \<in> set (nbr 1 n i). c \<in> set (nbr r n a)"
  then show "c \<in> set (nbr (Suc r) n i)" by auto
next
  assume c: "c \<in> set (nbr (Suc r) n i)"
  define a where "a = (if c + r < i then i - 1 else if i + r < c then Suc i else i)"
  have "a \<in> set (nbr 1 n i)" and "c \<in> set (nbr r n a)"
    using c assms by (auto simp: a_def)
  then show "\<exists>a \<in> set (nbr 1 n i). c \<in> set (nbr r n a)" by blast
qed

subsection \<open>Dilation\<close>

lemma dilate_rect_Nil [simp]: "dilate_rect r [] = []"
  by (simp add: dilate_rect_def)

lemma length_dilate_rect [simp]: "length (dilate_rect r img) = length img"
  by (simp add: dilate_rect_def Let_def)

lemma wf_dilate_rect: "wf_image (length img) (row_width img) (dilate_rect r img)"
  by (simp add: dilate_rect_def Let_def wf_image_tabulate)

lemma dilate_rect_nth:
  "i < length img \<Longrightarrow> j < row_width img \<Longrightarrow>
   dilate_rect r img ! i ! j = max_list [img ! a ! b. a \<leftarrow> nbr r (length img) i, b \<leftarrow> nbr r (row_width img) j]"
  by (simp add: dilate_rect_def Let_def)

lemma row_width_dilate_rect [simp]: "row_width (dilate_rect r img) = row_width img"
proof (cases "img = []")
  case True
  then show ?thesis by (simp add: dilate_rect_def row_width_def)
next
  case False
  then show ?thesis using wf_dilate_rect [of img r] by (simp add: wf_image_row_width)
qed

lemma max_list_grid_le:
  "max_list [f a b. a \<leftarrow> as, b \<leftarrow> bs] \<le> m \<longleftrightarrow> (\<forall>a\<in>set as. \<forall>b\<in>set bs. f a b \<le> m)"
  by (auto simp: max_list_le_iff)

text \<open>One more \<open>3 \<times> 3\<close> pass widens the square by one on each side.\<close>

lemma dilate_rect_Suc:
  assumes wf: "wf_image h w img"
  shows "dilate_rect 1 (dilate_rect r img) = dilate_rect (Suc r) img"
proof (rule nth_equalityI)
  let ?D = "dilate_rect r img"
  show "length (dilate_rect 1 ?D) = length (dilate_rect (Suc r) img)" by simp
  fix i assume "i < length (dilate_rect 1 ?D)"
  then have i: "i < h" and h: "length img = h" using wf by (auto simp: wf_image_def)
  then have w: "row_width img = w" using wf by (simp add: wf_image_row_width)
  show "dilate_rect 1 ?D ! i = dilate_rect (Suc r) img ! i"
  proof (rule nth_equalityI)
    show "length (dilate_rect 1 ?D ! i) = length (dilate_rect (Suc r) img ! i)"
      using i h wf_dilate_rect [of ?D 1] wf_dilate_rect [of img "Suc r"] by simp
    fix j assume "j < length (dilate_rect 1 ?D ! i)"
    then have j: "j < w" using i h w wf_dilate_rect [of ?D 1] by simp
    have "dilate_rect 1 ?D ! i ! j \<le> m \<longleftrightarrow> dilate_rect (Suc r) img ! i ! j \<le> m" for m
    proof -
      have "dilate_rect 1 ?D ! i ! j \<le> m \<longleftrightarrow>
            (\<forall>a\<in>set (nbr 1 h i). \<forall>b\<in>set (nbr 1 w j). ?D ! a ! b \<le> m)"
        using i j h w by (simp add: dilate_rect_nth max_list_grid_le)
      also have "\<dots> \<longleftrightarrow> (\<forall>a\<in>set (nbr 1 h i). \<forall>b\<in>set (nbr 1 w j).
                         \<forall>c\<in>set (nbr r h a). \<forall>d\<in>set (nbr r w b). img ! c ! d \<le> m)"
        using h w by (simp add: dilate_rect_nth max_list_grid_le)
      also have "\<dots> \<longleftrightarrow> (\<forall>c\<in>set (nbr (Suc r) h i). \<forall>d\<in>set (nbr (Suc r) w j). img ! c ! d \<le> m)"
        using nbr_Suc_UN [OF i, of _ r] nbr_Suc_UN [OF j, of _ r] by blast
      also have "\<dots> \<longleftrightarrow> dilate_rect (Suc r) img ! i ! j \<le> m"
        using i j h w by (simp add: dilate_rect_nth max_list_grid_le)
      finally show ?thesis .
    qed
    then show "dilate_rect 1 ?D ! i ! j = dilate_rect (Suc r) img ! i ! j"
      by (metis order_antisym order_refl)
  qed
qed

lemma dilate_rect_0:
  assumes wf: "wf_image h w img"
  shows "dilate_rect 0 img = img"
proof (rule nth_equalityI)
  fix i assume "i < length (dilate_rect 0 img)"
  then have i: "i < h" and h: "length img = h" using wf by (auto simp: wf_image_def)
  then have w: "row_width img = w" using wf by (simp add: wf_image_row_width)
  show "dilate_rect 0 img ! i = img ! i"
    using i h w wf wf_dilate_rect [of img 0]
    by (intro nth_equalityI) (simp_all add: dilate_rect_nth nbr_0 max_list_def)
qed simp

lemma funpow_dilate_rect:
  assumes "wf_image h w img"
  shows "(dilate_rect 1 ^^ k) img = dilate_rect k img"
proof (induction k)
  case 0
  show ?case using dilate_rect_0 [OF assms] by simp
next
  case (Suc k)
  have "(dilate_rect 1 ^^ Suc k) img = dilate_rect 1 ((dilate_rect 1 ^^ k) img)"
    by (simp only: funpow.simps comp_def)
  also have "\<dots> = dilate_rect (Suc k) img"
    by (simp only: Suc.IH dilate_rect_Suc [OF assms])
  finally show ?case .
qed

subsection \<open>The binary mask\<close>

text \<open>The maximum of pixels that are all 0 or \<open>v\<close> is \<open>v\<close> exactly when one of them is.\<close>

lemma max_list_two_valued:
  assumes "set xs \<subseteq> {0, v}"
  shows "max_list xs = (if v \<in> set xs then v else 0)"
proof (cases "v \<in> set xs")
  case True
  then have "v \<le> max_list xs" by (rule max_list_ge)
  moreover have "max_list xs \<le> v" using assms by (auto simp: max_list_le_iff)
  ultimately show ?thesis using True by simp
next
  case False
  then show ?thesis using assms max_list_mem [of xs] by auto
qed

lemma wf_same_shape: "wf_image h w A \<Longrightarrow> wf_image h w B \<Longrightarrow> same_shape A B"
  unfolding wf_image_def same_shape_def list_all2_conv_all_nth list_all_length by simp

text \<open>The binarised difference, pixel by pixel.\<close>

lemma threshold_diff_nth:
  assumes "wf_image h w bg" "wf_image h w fr" "a < h" "b < w"
  shows "threshold_binary BinarizationThreshold 255 (map2 (map2 absdiff_px) bg fr) ! a ! b
         = (if changed bg fr a b then 255 else 0)"
proof -
  have "length (bg ! a) = w" "length (fr ! a) = w" "length bg = h" "length fr = h"
    using assms by (simp_all add: wf_image_def)
  then show ?thesis
    using assms(3,4) by (simp add: threshold_binary_def thresh_px_def changed_def)
qed

text \<open>
  The detector's closed form: for two frames of the same shape, the mask pixel at
  \<open>(i, j)\<close> is 255 exactly when some pixel of the \<open>5 \<times> 5\<close> square around it, clipped
  to the frame, differs from the background by more than the threshold.
\<close>

lemma detect_eq:
  assumes bg: "wf_image h w bg" and fr: "wf_image h w fr"
  shows "detect bg fr = Inr (map (\<lambda>i. map (\<lambda>j.
            if \<exists>a\<in>set (nbr 2 h i). \<exists>b\<in>set (nbr 2 w j). changed bg fr a b then 255 else 0)
            [0..<w]) [0..<h])"
proof -
  let ?T = "threshold_binary BinarizationThreshold 255 (map2 (map2 absdiff_px) bg fr)"
  have lenT: "length ?T = h" using bg fr by (simp add: wf_image_def threshold_binary_def)
  have rwT: "0 < h \<Longrightarrow> row_width ?T = w"
    using bg fr by (cases bg; cases fr) (auto simp: wf_image_def threshold_binary_def row_width_def)
  have pix: "dilate_rect 2 ?T ! i ! j =
          (if \<exists>a\<in>set (nbr 2 h i). \<exists>b\<in>set (nbr 2 w j). changed bg fr a b then 255 else 0)"
    if i: "i < h" and j: "j < w" for i j
  proof -
    have "dilate_rect 2 ?T ! i ! j = max_list [?T ! a ! b. a \<leftarrow> nbr 2 h i, b \<leftarrow> nbr 2 w j]"
      using i j lenT rwT by (simp add: dilate_rect_nth)
    also have "\<dots> = max_list [(if changed bg fr a b then 255 else 0). a \<leftarrow> nbr 2 h i, b \<leftarrow> nbr 2 w j]"
      by (intro arg_cong [where f = max_list] arg_cong [where f = concat] map_cong refl)
        (simp add: threshold_diff_nth [OF bg fr])
    also have "\<dots> = (if \<exists>a\<in>set (nbr 2 h i). \<exists>b\<in>set (nbr 2 w j). changed bg fr a b then 255 else 0)"
      by (subst max_list_two_valued [where v = 255]) auto
    finally show ?thesis .
  qed
  have wfM: "wf_image h w (dilate_rect 2 ?T)"
  proof (cases "h = 0")
    case True
    then show ?thesis using lenT by (simp add: wf_image_def)
  next
    case False
    then show ?thesis using wf_dilate_rect [of ?T 2] lenT rwT by simp
  qed
  have "dilate_rect 2 ?T = map (\<lambda>i. map (\<lambda>j.
            if \<exists>a\<in>set (nbr 2 h i). \<exists>b\<in>set (nbr 2 w j). changed bg fr a b then 255 else 0)
            [0..<w]) [0..<h]" (is "_ = ?M")
  proof (rule nth_equalityI)
    show "length (dilate_rect 2 ?T) = length ?M" using lenT by simp
    fix i assume "i < length (dilate_rect 2 ?T)"
    then have i: "i < h" using lenT by simp
    show "dilate_rect 2 ?T ! i = ?M ! i"
    proof (rule nth_equalityI)
      show "length (dilate_rect 2 ?T ! i) = length (?M ! i)" using wfM i by simp
      fix j assume "j < length (dilate_rect 2 ?T ! i)"
      then have j: "j < w" using wfM i by simp
      show "dilate_rect 2 ?T ! i ! j = ?M ! i ! j"
        using i j pix by simp
    qed
  qed
  then show ?thesis
    using wf_same_shape [OF bg fr] by (simp add: detect_def absdiff_def cv_dilate_def)
qed

subsection \<open>Properties of the detector\<close>

text \<open>
  A frame identical to the background yields an all-zero mask of the frame's size: no
  false positives on a static scene (the program-level consequence is in the root theory).
\<close>

lemma detect_static_scene:
  assumes "wf_image h w bg"
  shows "detect bg bg = Inr (replicate h (replicate w 0))"
proof -
  have "\<not> changed bg bg a b" for a b
    by (simp add: changed_def)
  then show ?thesis
    using detect_eq [OF assms assms] by (simp add: map_replicate_const)
qed

text \<open>
  C13: for two frames of the same shape the detector succeeds, its mask has the frames'
  shape, and a mask pixel is 255 exactly when some pixel at most two rows and two
  columns away differs from the background by more than \<open>BinarizationThreshold\<close>;
  every other mask pixel is 0.
\<close>

theorem detect_mask_pixels:
  assumes "wf_image h w bg" and "wf_image h w fr"
  shows "\<exists>M. detect bg fr = Inr M \<and> wf_image h w M \<and>
           (\<forall>i<h. \<forall>j<w. M ! i ! j =
              (if \<exists>a<h. \<exists>b<w. i \<le> a + 2 \<and> a \<le> i + 2 \<and> j \<le> b + 2 \<and> b \<le> j + 2
                                \<and> changed bg fr a b then 255 else 0))"
proof -
  have cond: "(\<exists>a\<in>set (nbr 2 h i). \<exists>b\<in>set (nbr 2 w j). changed bg fr a b) \<longleftrightarrow>
              (\<exists>a<h. \<exists>b<w. i \<le> a + 2 \<and> a \<le> i + 2 \<and> j \<le> b + 2 \<and> b \<le> j + 2 \<and> changed bg fr a b)"
    for i j by (simp only: Bex_def mem_nbr le_diff_conv) blast
  show ?thesis
    using detect_eq [OF assms] by (simp add: cond wf_image_tabulate)
qed

theorem detect_mask_pixels_witness:
  "wf_image 2 2 [[0, 0], [0, 0 :: pixel]] \<and> wf_image 2 2 [[0, 0], [0, 200 :: pixel]] \<and>
   (\<exists>M. detect [[0, 0], [0, 0]] [[0, 0], [0, 200]] = Inr M \<and> wf_image 2 2 M \<and>
      (\<forall>i<2. \<forall>j<2. M ! i ! j =
         (if \<exists>a<2. \<exists>b<2. i \<le> a + 2 \<and> a \<le> i + 2 \<and> j \<le> b + 2 \<and> b \<le> j + 2
               \<and> changed [[0, 0], [0, 0]] [[0, 0], [0, 200]] a b then 255 else 0)))"
  using detect_mask_pixels [of 2 2 "[[0, 0], [0, 0]]" "[[0, 0], [0, 200]]"]
  by (simp add: wf_image_def)

lemma cv_dilate_eq_iter:
  assumes "wf_image h w src"
  shows "cv_dilate src k = dilate_iter src k"
  unfolding cv_dilate_def dilate_iter_def funpow_dilate_rect [OF assms]
  by (simp add: dilate_rect_0 [OF assms])

lemma absdiff_px_exact:
  "unat (absdiff_px a b) = nat \<bar>int (unat a) - int (unat b)\<bar>"
proof (cases "a \<le> b")
  case True
  then have "unat a \<le> unat b" and "unat (absdiff_px a b) = unat b - unat a"
    by (simp_all add: word_le_nat_alt absdiff_px_def unat_sub)
  then show ?thesis by arith
next
  case False
  then have "unat b \<le> unat a" and "unat (absdiff_px a b) = unat a - unat b"
    by (simp_all add: word_le_nat_alt absdiff_px_def unat_sub)
  then show ?thesis by arith
qed

text \<open>
  C14: the dilation of line 73 is what \<open>iterations=2\<close> documents: on frames of the same
  rectangular shape the detector's mask is the binarised difference dilated twice by the
  \<open>3 \<times> 3\<close> square, although OpenCV computes it in one pass with the \<open>5 \<times> 5\<close> square.
\<close>

theorem detect_dilates_twice:
  assumes "wf_image h w bg" and "wf_image h w fr"
  shows "detect bg fr =
           Inr (dilate_iter (threshold_binary BinarizationThreshold 255 (map2 (map2 absdiff_px) bg fr)) 2)"
proof -
  have "wf_image h w (threshold_binary BinarizationThreshold 255 (map2 (map2 absdiff_px) bg fr))"
    unfolding threshold_binary_def using assms by blast
  then show ?thesis
    using wf_same_shape [OF assms] by (simp add: detect_def absdiff_def cv_dilate_eq_iter)
qed

theorem detect_dilates_twice_witness:
  "wf_image 2 3 [[0, 0, 90], [0, 0, 0 :: pixel]] \<and> wf_image 2 3 [[0, 0, 0], [0, 0, 0 :: pixel]] \<and>
   detect [[0, 0, 90], [0, 0, 0]] [[0, 0, 0], [0, 0, 0]] =
     Inr (dilate_iter (threshold_binary BinarizationThreshold 255
            (map2 (map2 absdiff_px) [[0, 0, 90], [0, 0, 0]] [[0, 0, 0], [0, 0, 0]])) 2)"
  using detect_dilates_twice [of 2 3 "[[0, 0, 90], [0, 0, 0]]" "[[0, 0, 0], [0, 0, 0]]"]
  by (simp add: wf_image_def)

text \<open>
  C15: the change test behind the mask never suffers from \<open>uint8\<close> wrap-around: a pixel
  is marked changed exactly when its background and current values, read as integers,
  differ by more than \<open>BinarizationThreshold\<close> in absolute value.
\<close>

theorem changed_exact:
  "changed bg fr a b \<longleftrightarrow>
     int BinarizationThreshold < \<bar>int (unat (bg ! a ! b)) - int (unat (fr ! a ! b))\<bar>"
  unfolding changed_def absdiff_px_exact by (rule zless_nat_eq_int_zless)

end
