(* ===== verification/Preprocess.thy ===== *)
theory Preprocess
  imports Prelude
begin

text \<open>
  The frame preprocessor of \<^verbatim>\<open>src/converted.py\<close> (lines 57--58): \<open>cv2.cvtColor\<close> with
  \<open>COLOR_BGR2GRAY\<close>, then \<open>cv2.GaussianBlur\<close> with a \<open>21 \<times> 21\<close> kernel and
  \<open>sigmaX = 0\<close>. The colour conversion is modelled from OpenCV's fixed-point \<open>uint8\<close>
  path: \<open>(B * 1868 + G * 9617 + R * 4899 + 2^13) >> 14\<close>, the coefficients of
  \<open>0.114, 0.587, 0.299\<close> scaled by \<open>2^14\<close>. The blur is a parameter: its fixed-point
  kernel differs between OpenCV releases, and no property of the counting depends on more
  than its being a function of the grayscale frame (theory \<open>Driver\<close> states the
  interface the driver needs of it).
\<close>

definition gray_px :: "bgr \<Rightarrow> pixel" where
  "gray_px p =
     (case p of (b, g, r) \<Rightarrow>
        of_nat ((unat b * 1868 + unat g * 9617 + unat r * 4899 + 8192) div 16384))"

definition cvtColor_BGR2GRAY :: "bgr_image \<Rightarrow> gray_image" where
  "cvtColor_BGR2GRAY Frame = map (map gray_px) Frame"

definition preprocess :: "(gray_image \<Rightarrow> gray_image) \<Rightarrow> bgr_image \<Rightarrow> gray_image" where
  "preprocess GaussianBlur Frame =
     (let FrameGray = cvtColor_BGR2GRAY Frame in GaussianBlur FrameGray)"

declare gray_px_def [model_defs] cvtColor_BGR2GRAY_def [model_defs] preprocess_def [model_defs]

text \<open>The weighted sum never leaves the \<open>uint8\<close> range: the weights add up to \<open>2^14\<close>.\<close>

lemma gray_px_exact:
  "unat (gray_px (b, g, r)) = (unat b * 1868 + unat g * 9617 + unat r * 4899 + 8192) div 16384"
proof -
  have "unat b * 1868 + unat g * 9617 + unat r * 4899 + 8192 \<le> 255 * 16384 + 8192"
    using word8_le_255 [of b] word8_le_255 [of g] word8_le_255 [of r] by linarith
  then have "(unat b * 1868 + unat g * 9617 + unat r * 4899 + 8192) div 16384 < 256"
    by linarith
  then show ?thesis by (simp add: gray_px_def unat_of_nat)
qed

lemma gray_px_grey [simp]: "gray_px (v, v, v) = v"
proof -
  have "(unat v * 1868 + unat v * 9617 + unat v * 4899 + 8192) div 16384 = unat v"
    by simp
  then have "unat (gray_px (v, v, v)) = unat v" by (simp only: gray_px_exact)
  then show ?thesis by (simp add: unsigned_word_eqI)
qed


end
