(* ===== verification/Driver.thy ===== *)
theory Driver
  imports Counting ChangeDetect Preprocess
begin

text \<open>
  The main program of \<^verbatim>\<open>src/converted.py\<close> (lines 39--122): the background frame
  \<open>FirstFrame\<close>, the 20 warm-up reads, and the \<open>while True\<close> loop that reads a frame,
  records its size, preprocesses it, takes the first processed frame as background and,
  for every later frame, detects changes, extracts contours and runs the contour loop.
  The camera is an input: the list of the results of \<open>camera.read()\<close>, \<open>None\<close> for a
  failed grab (OpenCV returns \<open>(False, None)\<close> then). The two OpenCV calls whose
  algorithms are modelled in their own theories, \<open>cv2.GaussianBlur\<close> (\<open>Blur\<close>) and
  \<open>cv2.findContours\<close> (\<open>FindContours\<close>), are fields of \<open>cv_lib\<close>: the driver is
  stated for any implementation of them, and a theorem that needs something of them
  says what (\<open>blur_keeps_shape\<close>).

  \<^bold>\<open>This is an abstraction, not the loop body as run.\<close> \<open>frame_step\<close> is lines 48--112
  without the calls that draw (\<open>cv2.line\<close> at lines 81--82, \<open>cv2.rectangle\<close> and
  \<open>cv2.circle\<close> at lines 98 and 104): the pipeline the spec describes. Under Python 3
  those calls raise \<open>TypeError\<close> (theory \<open>Rendering\<close>), so no pass of the real program
  that reaches line 81 continues. Theory \<open>Rendering\<close> models the whole body
  (\<open>loop_body\<close>) and proves that it refines \<open>frame_step\<close>: it raises what
  \<open>frame_step\<close> raises, agrees with it on the background frame, and raises where
  \<open>frame_step\<close> would count. The properties proved here are the ones that carry over
  to the real program through that refinement: errors, the background lifecycle and
  statements about every successful pass.
\<close>

record cv_lib =
  blur :: "gray_image \<Rightarrow> gray_image"
  find_contours :: "gray_image \<Rightarrow> contour list"

text \<open>
  The module-level state the loop carries from one frame to the next: the counters and
  \<open>ContourCount\<close> (theory \<open>Counting\<close>), \<open>FirstFrame\<close> (line 39) and the globals
  \<open>width\<close> and \<open>height\<close> (lines 7--8). \<open>ContourCount\<close> is unbound until line 76 first
  runs; it starts at 0 here, which nothing reads before line 76 sets it.
\<close>

record driver_state = loop_vars +
  FirstFrame :: "gray_image option"
  width :: nat
  height :: nat

definition init_state :: driver_state where
  "init_state =
     \<lparr>EntryCounter = 0, ExitCounter = 0, ContourCount = 0,
      FirstFrame = None, width = 0, height = 0\<rparr>"

text \<open>
  \<open>np.size(Frame, axis)\<close>: for \<open>Frame = None\<close>, numpy reads the shape \<open>()\<close> of a
  0-dimensional array and raises \<open>IndexError\<close>.
\<close>

definition np_size :: "bgr_image option \<Rightarrow> nat \<Rightarrow> py_error + nat" where
  "np_size Frame axis =
     (case Frame of
        None \<Rightarrow> Inl IndexError
      | Some F \<Rightarrow>
          if axis = 0 then Inr (length F)
          else if axis = 1 then Inr (row_width F)
          else if axis = 2 then Inr 3
          else Inl IndexError)"

text \<open>How one pass of the \<open>while\<close> body ends: \<open>continue\<close> or the end of the body, or \<open>break\<close>.\<close>

datatype loop_outcome = Continue driver_state | Break driver_state

text \<open>One pass of the loop body, lines 48--112.\<close>

definition frame_step :: "cv_lib \<Rightarrow> driver_state \<Rightarrow> bgr_image option \<Rightarrow> py_error + loop_outcome" where
  "frame_step lib s cam =
     (case np_size cam 0 of
        Inl e \<Rightarrow> Inl e
      | Inr h \<Rightarrow>
     (case np_size cam 1 of
        Inl e \<Rightarrow> Inl e
      | Inr w \<Rightarrow>
     (let s = s\<lparr>height := h, width := w\<rparr> in
      case cam of
        None \<Rightarrow> Inr (Break s)
      | Some Frame \<Rightarrow>
          (let FrameGray = preprocess (blur lib) Frame in
           case FirstFrame s of
             None \<Rightarrow> Inr (Continue (s\<lparr>FirstFrame := Some FrameGray\<rparr>))
           | Some bg \<Rightarrow>
               (case detect bg FrameGray of
                  Inl e \<Rightarrow> Inl e
                | Inr FrameThresh \<Rightarrow>
                    (let contours = find_contours lib FrameThresh;
                         s = s\<lparr>ContourCount := 0\<rparr>;
                         EntryLineY = EntryLineYCoord h ReferenceLinesOffset;
                         ExitLineY = ExitLineYCoord h ReferenceLinesOffset
                     in Inr (Continue (count_contours EntryLineY ExitLineY s contours))))))))"

text \<open>
  The \<open>while True\<close> loop over the frames the camera delivers. The camera never runs
  dry; a finite list of frames is a prefix of the run, and \<open>Continue\<close> at its end means
  the program is still running.
\<close>

fun run_loop :: "cv_lib \<Rightarrow> driver_state \<Rightarrow> bgr_image option list \<Rightarrow> py_error + loop_outcome" where
  "run_loop lib s [] = Inr (Continue s)"
| "run_loop lib s (cam # cams) =
     (case frame_step lib s cam of
        Inl e \<Rightarrow> Inl e
      | Inr (Break s') \<Rightarrow> Inr (Break s')
      | Inr (Continue s') \<Rightarrow> run_loop lib s' cams)"

text \<open>Lines 43--44 discard 20 reads before the loop; a failed grab there raises nothing.\<close>

definition warmup_reads :: nat where
  "warmup_reads = 20"

definition program :: "cv_lib \<Rightarrow> bgr_image option list \<Rightarrow> py_error + loop_outcome" where
  "program lib cams = run_loop lib init_state (drop warmup_reads cams)"

declare init_state_def [model_defs] np_size_def [model_defs] frame_step_def [model_defs]
  warmup_reads_def [model_defs] program_def [model_defs]

subsection \<open>The spec's lifecycle\<close>

text \<open>
  The spec's two phases of the background model: \<open>Uninitialized\<close> until the first
  frame is captured, then \<open>Ready\<close> with that frame for ever.
\<close>

datatype phase = Uninitialized | Ready gray_image

inductive phase_step :: "phase \<Rightarrow> phase \<Rightarrow> bool" where
  capture: "phase_step Uninitialized (Ready r)"
| stay: "phase_step (Ready r) (Ready r)"

definition abs_phase :: "driver_state \<Rightarrow> phase" where
  "abs_phase s = (case FirstFrame s of None \<Rightarrow> Uninitialized | Some r \<Rightarrow> Ready r)"

subsection \<open>The interface the driver needs of OpenCV\<close>

definition blur_keeps_shape :: "cv_lib \<Rightarrow> bool" where
  "blur_keeps_shape lib \<longleftrightarrow> (\<forall>h w img. wf_image h w img \<longrightarrow> wf_image h w (blur lib img))"

text \<open>
  A stand-in implementation of the interface for the witnesses: no blur, and no contour
  in any mask.
\<close>

definition null_lib :: cv_lib where
  "null_lib = \<lparr>blur = id, find_contours = (\<lambda>_. [])\<rparr>"

subsection \<open>One pass of the loop body\<close>

lemma frame_step_None: "frame_step lib s None = Inl IndexError"
  by (simp add: frame_step_def np_size_def)

lemma frame_step_init:
  "FirstFrame s = None \<Longrightarrow>
   frame_step lib s (Some F) =
     Inr (Continue (s\<lparr>height := length F, width := row_width F,
                       FirstFrame := Some (preprocess (blur lib) F)\<rparr>))"
  by (simp add: frame_step_def np_size_def)

lemma frame_step_ready:
  "FirstFrame s = Some bg \<Longrightarrow>
   frame_step lib s (Some F) =
     (case detect bg (preprocess (blur lib) F) of
        Inl e \<Rightarrow> Inl e
      | Inr M \<Rightarrow> Inr (Continue (count_contours
                  (EntryLineYCoord (length F) ReferenceLinesOffset)
                  (ExitLineYCoord (length F) ReferenceLinesOffset)
                  (s\<lparr>height := length F, width := row_width F, ContourCount := 0\<rparr>)
                  (find_contours lib M))))"
  by (simp add: frame_step_def np_size_def Let_def split: sum.split)

lemma frame_step_cases:
  assumes "frame_step lib s cam = Inr r"
  obtains F M bg where "cam = Some F" "FirstFrame s = None"
      "r = Continue (s\<lparr>height := length F, width := row_width F,
                       FirstFrame := Some (preprocess (blur lib) F)\<rparr>)"
  | F M bg where "cam = Some F" "FirstFrame s = Some bg"
      "detect bg (preprocess (blur lib) F) = Inr M"
      "r = Continue (count_contours
                  (EntryLineYCoord (length F) ReferenceLinesOffset)
                  (ExitLineYCoord (length F) ReferenceLinesOffset)
                  (s\<lparr>height := length F, width := row_width F, ContourCount := 0\<rparr>)
                  (find_contours lib M))"
proof (cases cam)
  case None
  with assms show ?thesis by (simp add: frame_step_None)
next
  case (Some F)
  show ?thesis
  proof (cases "FirstFrame s")
    case None
    with Some assms that(1) show ?thesis by (simp add: frame_step_init)
  next
    case (Some bg)
    with \<open>cam = Some F\<close> assms that(2) show ?thesis
      by (auto simp: frame_step_ready split: sum.splits)
  qed
qed

text \<open>What a successful pass keeps: the background once set, and the order of the counters.\<close>

lemma frame_step_Continue:
  assumes "frame_step lib s cam = Inr (Continue s')"
  shows "counters_le s s'"
    and "FirstFrame s = Some bg \<Longrightarrow> FirstFrame s' = Some bg"
    and "FirstFrame s' \<noteq> None"
    and "FirstFrame s = None \<Longrightarrow> EntryCounter s' = EntryCounter s \<and> ExitCounter s' = ExitCounter s"
  using assms
  by (cases rule: frame_step_cases; simp add: count_contours_eq frame_effect_def counters_le_def)+

lemma frame_step_no_Break: "frame_step lib s cam \<noteq> Inr (Break s')"
  by (metis frame_step_cases loop_outcome.distinct(1))

lemma wf_preprocess:
  "blur_keeps_shape lib \<Longrightarrow> wf_image h w F \<Longrightarrow> wf_image h w (preprocess (blur lib) F)"
  by (simp add: blur_keeps_shape_def preprocess_def cvtColor_BGR2GRAY_def wf_image_map_map)

lemma run_loop_Continue:
  assumes "run_loop lib s cams = Inr (Continue s')"
  shows "counters_le s s' \<and> (FirstFrame s = Some bg \<longrightarrow> FirstFrame s' = Some bg)"
  using assms
proof (induction cams arbitrary: s)
  case Nil
  then show ?case by simp
next
  case (Cons cam cams)
  then obtain s1 where step: "frame_step lib s cam = Inr (Continue s1)"
    and rest: "run_loop lib s1 cams = Inr (Continue s')"
    by (auto split: sum.splits loop_outcome.splits simp: frame_step_no_Break)
  from Cons.IH [OF rest] frame_step_Continue [OF step] show ?case
    by (blast intro: counters_le_trans)
qed


text \<open>A concrete first pass over one black \<open>1 \<times> 1\<close> frame.\<close>

lemma frame_step_example:
  "frame_step null_lib init_state (Some [[(0, 0, 0)]]) =
     Inr (Continue (init_state\<lparr>height := 1, width := 1, FirstFrame := Some [[0]]\<rparr>))"
  by (simp add: model_defs null_lib_def)

text \<open>A concrete pass, from the background \<open>[[0]]\<close>, over one black \<open>1 \<times> 1\<close> frame.\<close>

lemma run_loop_example:
  "run_loop null_lib (init_state\<lparr>FirstFrame := Some [[0]]\<rparr>) [Some [[(0, 0, 0)]]] =
   Inr (Continue (init_state\<lparr>FirstFrame := Some [[0]], height := 1, width := 1\<rparr>))"
  by (simp add: model_defs null_lib_def)

subsection \<open>Properties of the driver\<close>

text \<open>
  C8: the \<open>break\<close> of line 54 is unreachable. A failed grab makes
  \<open>np.size(Frame, 0)\<close> raise \<open>IndexError\<close> at line 49, before the \<open>grabbed\<close> test, so
  no run ends by \<open>break\<close>, and a failed first read after the warm-up ends the program
  with \<open>IndexError\<close>.
\<close>

theorem failed_grab_raises:
  "program lib cams \<noteq> Inr (Break s') \<and>
   (length ws = warmup_reads \<longrightarrow> program lib (ws @ None # rest) = Inl IndexError)"
proof -
  have "run_loop lib s cams \<noteq> Inr (Break s')" for s cams
    by (induction cams arbitrary: s)
      (auto simp: frame_step_no_Break split: sum.splits loop_outcome.splits)
  then show ?thesis by (simp add: program_def frame_step_None)
qed

theorem failed_grab_raises_witness:
  "length (replicate 20 None :: bgr_image option list) = warmup_reads \<and>
   program null_lib [] \<noteq> Inr (Break init_state) \<and>
   program null_lib (replicate 20 None @ None # []) = Inl IndexError"
  using failed_grab_raises [of null_lib "[]" init_state "replicate 20 None" "[]"]
  by (simp add: warmup_reads_def)

text \<open>
  C9: the driver refines the spec's lifecycle of the background model: every
  successful pass of the loop body is a step of the two-phase machine, from
  \<open>Uninitialized\<close> to \<open>Ready\<close> on the first frame and from \<open>Ready r\<close> to the same
  \<open>Ready r\<close> afterwards.
\<close>

theorem frame_step_refines_lifecycle:
  assumes "frame_step lib s cam = Inr (Continue s')"
  shows "phase_step (abs_phase s) (abs_phase s')"
proof (cases "FirstFrame s")
  case None
  then obtain r where "FirstFrame s' = Some r"
    using frame_step_Continue(3) [OF assms] by blast
  with None show ?thesis by (simp add: abs_phase_def phase_step.capture)
next
  case (Some r)
  then have "FirstFrame s' = Some r" by (rule frame_step_Continue(2) [OF assms])
  with Some show ?thesis by (simp add: abs_phase_def phase_step.stay)
qed

theorem frame_step_refines_lifecycle_witness:
  "frame_step null_lib init_state (Some [[(0, 0, 0)]]) =
     Inr (Continue (init_state\<lparr>height := 1, width := 1, FirstFrame := Some [[0]]\<rparr>)) \<and>
   phase_step (abs_phase init_state)
     (abs_phase (init_state\<lparr>height := 1, width := 1, FirstFrame := Some [[0]]\<rparr>))"
  using frame_step_example frame_step_refines_lifecycle [OF frame_step_example] by simp

text \<open>
  C10: the background frame is never reassigned: over any run of the loop that is still
  going, a background that was set at the start is the background at the end.
\<close>

theorem background_never_reassigned:
  assumes "run_loop lib s cams = Inr (Continue s')" and "FirstFrame s = Some bg"
  shows "FirstFrame s' = Some bg"
  using run_loop_Continue [OF assms(1)] assms(2) by blast

theorem background_never_reassigned_witness:
  "run_loop null_lib (init_state\<lparr>FirstFrame := Some [[0]]\<rparr>) [Some [[(0, 0, 0)]]] =
     Inr (Continue (init_state\<lparr>FirstFrame := Some [[0]], height := 1, width := 1\<rparr>)) \<and>
   FirstFrame (init_state\<lparr>FirstFrame := Some [[0]]\<rparr>) = Some [[0]] \<and>
   FirstFrame (init_state\<lparr>FirstFrame := Some [[0]], height := 1, width := 1\<rparr>) = Some [[0]]"
  using run_loop_example
    background_never_reassigned [OF run_loop_example, of "[[0]]"] by simp

text \<open>
  C11: the first frame read after the warm-up only initialises: it becomes the
  background (grayscale and blurred), the frame size is recorded, and no detection runs,
  so both counters are still 0.
\<close>

theorem first_frame_initialises:
  assumes "length ws = warmup_reads"
  shows "program lib (ws @ [Some F]) =
           Inr (Continue (init_state\<lparr>height := length F, width := row_width F,
                                     FirstFrame := Some (preprocess (blur lib) F)\<rparr>))"
  using assms by (simp add: program_def frame_step_init init_state_def)

theorem first_frame_initialises_witness:
  "length (replicate 20 None :: bgr_image option list) = warmup_reads \<and>
   program null_lib (replicate 20 None @ [Some [[(0, 0, 0)]]]) =
     Inr (Continue (init_state\<lparr>height := length [[(0::pixel, 0::pixel, 0::pixel)]],
        width := row_width [[(0::pixel, 0::pixel, 0::pixel)]],
        FirstFrame := Some (preprocess (blur null_lib) [[(0, 0, 0)]])\<rparr>))"
  using first_frame_initialises [of "replicate 20 None" null_lib "[[(0, 0, 0)]]"]
  by (simp add: warmup_reads_def)

text \<open>
  C12: across any sequence of frames the counters never decrease: a run of the loop that
  is still going ends with counters at least those it started with.
\<close>

theorem run_loop_monotone:
  assumes "run_loop lib s cams = Inr (Continue s')"
  shows "counters_le s s'"
  using run_loop_Continue [OF assms] by blast

theorem run_loop_monotone_witness:
  "run_loop null_lib (init_state\<lparr>FirstFrame := Some [[0]]\<rparr>) [Some [[(0, 0, 0)]]] =
     Inr (Continue (init_state\<lparr>FirstFrame := Some [[0]], height := 1, width := 1\<rparr>)) \<and>
   counters_le (init_state\<lparr>FirstFrame := Some [[0]]\<rparr>)
     (init_state\<lparr>FirstFrame := Some [[0]], height := 1, width := 1\<rparr>)"
  using run_loop_example run_loop_monotone [OF run_loop_example] by simp

end
