(* ===== verification/Rendering.thy ===== *)
theory Rendering
  imports Driver
begin

text \<open>
  The whole body of the \<open>while\<close> loop of \<^verbatim>\<open>src/converted.py\<close> (lines 46--122), with
  the calls that theory \<open>Driver\<close> leaves out: the reference lines drawn at lines 81--82,
  the rectangle and the centre drawn for every retained contour (lines 98 and 104), the
  \<open>print\<close> of line 114, the two \<open>cv2.putText\<close> of lines 117--120 and the
  \<open>cv2.imshow\<close> of line 121.
  \<^item> Python 3 numbers are \<open>pyval\<close>: an \<open>int\<close> stays an \<open>int\<close> under \<open>+\<close> and
    \<open>-\<close>, and \<open>/\<close> always gives a \<open>float\<close>; floats are exact here (theory
    \<open>Prelude\<close>), so a \<open>float\<close> is a \<open>rat\<close>.
  \<^item> OpenCV's Python bindings (releases 3.x) convert a point argument with
    \<open>PyArg_ParseTuple(obj, "ii", ...)\<close>: each coordinate must be a Python \<open>int\<close>, a
    \<open>float\<close> raises \<open>TypeError\<close> and an \<open>int\<close> outside the C \<open>int\<close> range raises
    \<open>OverflowError\<close>, the first coordinate first (\<open>cv_point\<close>). A drawing call whose
    arguments convert is recorded as a drawing command on the frame (\<open>cv_draw\<close>); the
    rasterisation of lines, circles and text is not modelled.
  \<^item> The program's output is a \<open>screen\<close>: the lines printed and, for every
    \<open>cv2.imshow\<close>, the frame with the commands drawn on it.
  The loop body is \<open>loop_body\<close>, the loop \<open>main_loop\<close> and the program \<open>main\<close>.
\<close>

subsection \<open>Python numbers\<close>

datatype pyval = PyInt int | PyFloat rat

definition py_num :: "pyval \<Rightarrow> rat" where
  "py_num v = (case v of PyInt i \<Rightarrow> of_int i | PyFloat r \<Rightarrow> r)"

definition py_add :: "pyval \<Rightarrow> pyval \<Rightarrow> pyval" where
  "py_add a b = (case (a, b) of (PyInt i, PyInt j) \<Rightarrow> PyInt (i + j) | _ \<Rightarrow> PyFloat (py_num a + py_num b))"

definition py_sub :: "pyval \<Rightarrow> pyval \<Rightarrow> pyval" where
  "py_sub a b = (case (a, b) of (PyInt i, PyInt j) \<Rightarrow> PyInt (i - j) | _ \<Rightarrow> PyFloat (py_num a - py_num b))"

text \<open>
  Python 3's true division; the program divides by the literal 2 only, so the
  \<open>ZeroDivisionError\<close> branch is never taken and is left out.
\<close>

definition py_truediv :: "pyval \<Rightarrow> pyval \<Rightarrow> pyval" where
  "py_truediv a b = PyFloat (py_num a / py_num b)"

text \<open>\<open>str(n)\<close> of a Python \<open>int\<close>: an optional minus sign and the decimal digits.\<close>

function py_str :: "int \<Rightarrow> string" where
  "py_str n =
     (if n < 0 then CHR ''-'' # py_str (- n)
      else if n < 10 then [char_of (48 + n)]
      else py_str (n div 10) @ [char_of (48 + n mod 10)])"
  by auto
termination
  by (relation "measure (\<lambda>n. nat (if n < 0 then 1 - n else n))") auto

declare py_str.simps [simp del]

subsection \<open>OpenCV's drawing calls\<close>

text \<open>The \<open>"i"\<close> conversion of \<open>PyArg_ParseTuple\<close>.\<close>

abbreviation c_int_range :: "int \<Rightarrow> bool" where
  "c_int_range i \<equiv> - (2 ^ 31) \<le> i \<and> i < 2 ^ 31"

definition c_int :: "pyval \<Rightarrow> py_error + int" where
  "c_int v =
     (case v of
        PyFloat _ \<Rightarrow> Inl TypeError
      | PyInt i \<Rightarrow> if c_int_range i then Inr i else Inl OverflowError)"

definition cv_point :: "pyval \<times> pyval \<Rightarrow> py_error + point" where
  "cv_point p =
     (case c_int (fst p) of
        Inl e \<Rightarrow> Inl e
      | Inr x \<Rightarrow> (case c_int (snd p) of Inl e \<Rightarrow> Inl e | Inr y \<Rightarrow> Inr (x, y)))"

type_synonym color = "int \<times> int \<times> int"

text \<open>
  The drawing calls, over the point type: \<open>cv2.line\<close>, \<open>cv2.rectangle\<close>,
  \<open>cv2.circle\<close> (centre, radius) and \<open>cv2.putText\<close> (text, origin, font, scale); each
  with its colour and thickness.
\<close>

datatype 'p draw =
    Line 'p 'p color int
  | Rectangle 'p 'p color int
  | Circle 'p int color int
  | PutText string 'p int rat color int

text \<open>A drawing call: its points converted in argument order, or the exception raised.\<close>

fun cv_draw :: "(pyval \<times> pyval) draw \<Rightarrow> py_error + point draw" where
  "cv_draw (Line p1 p2 c t) =
     (case cv_point p1 of Inl e \<Rightarrow> Inl e
      | Inr a \<Rightarrow> (case cv_point p2 of Inl e \<Rightarrow> Inl e | Inr b \<Rightarrow> Inr (Line a b c t)))"
| "cv_draw (Rectangle p1 p2 c t) =
     (case cv_point p1 of Inl e \<Rightarrow> Inl e
      | Inr a \<Rightarrow> (case cv_point p2 of Inl e \<Rightarrow> Inl e | Inr b \<Rightarrow> Inr (Rectangle a b c t)))"
| "cv_draw (Circle p r c t) =
     (case cv_point p of Inl e \<Rightarrow> Inl e | Inr a \<Rightarrow> Inr (Circle a r c t))"
| "cv_draw (PutText txt p f sc c t) =
     (case cv_point p of Inl e \<Rightarrow> Inl e | Inr a \<Rightarrow> Inr (PutText txt a f sc c t))"

subsection \<open>The reference lines, lines 79--82\<close>

definition EntryLineY_py :: "nat \<Rightarrow> pyval" where
  "EntryLineY_py h = py_sub (py_truediv (PyInt (int h)) (PyInt 2)) (PyInt ReferenceLinesOffset)"

definition ExitLineY_py :: "nat \<Rightarrow> pyval" where
  "ExitLineY_py h = py_add (py_truediv (PyInt (int h)) (PyInt 2)) (PyInt ReferenceLinesOffset)"

definition draw_reference_lines :: "nat \<Rightarrow> pyval \<Rightarrow> pyval \<Rightarrow> py_error + point draw list" where
  "draw_reference_lines w EntryLineY ExitLineY =
     (case cv_draw (Line (PyInt 0, EntryLineY) (PyInt (int w), EntryLineY) (255, 0, 0) 2) of
        Inl e \<Rightarrow> Inl e
      | Inr d1 \<Rightarrow>
     (case cv_draw (Line (PyInt 0, ExitLineY) (PyInt (int w), ExitLineY) (0, 0, 255) 2) of
        Inl e \<Rightarrow> Inl e
      | Inr d2 \<Rightarrow> Inr [d1, d2]))"

subsection \<open>The contour loop with its drawing, lines 85--112\<close>

text \<open>\<open>CenterXCoord\<close> and \<open>CenterYCoord\<close> of lines 101--102, as Python computes them.\<close>

definition ContourCenter_py :: "rect \<Rightarrow> pyval \<times> pyval" where
  "ContourCenter_py r =
     (case r of (x, y, w, h) \<Rightarrow>
        (py_truediv (py_add (py_add (PyInt x) (PyInt x)) (PyInt w)) (PyInt 2),
         py_truediv (py_add (py_add (PyInt y) (PyInt y)) (PyInt h)) (PyInt 2)))"

definition draw_contour ::
  "pyval \<Rightarrow> pyval \<Rightarrow> 'a loop_vars_scheme \<times> point draw list \<Rightarrow> contour \<Rightarrow>
   py_error + 'a loop_vars_scheme \<times> point draw list" where
  "draw_contour EntryLineY ExitLineY sd contour =
     (case sd of (s, ds) \<Rightarrow>
      if contourArea contour < of_int MinimumContourArea then Inr (s, ds)
      else
        let s = s\<lparr>ContourCount := Suc (ContourCount s)\<rparr>;
            (x, y, w, h) = boundingRect contour
        in case cv_draw (Rectangle (PyInt x, PyInt y) (py_add (PyInt x) (PyInt w), py_add (PyInt y) (PyInt h))
                           (0, 255, 0) 2) of
             Inl e \<Rightarrow> Inl e
           | Inr d1 \<Rightarrow>
             (let (CenterX, CenterY) = ContourCenter_py (x, y, w, h)
              in case cv_draw (Circle (CenterX, CenterY) 1 (0, 0, 0) 5) of
                   Inl e \<Rightarrow> Inl e
                 | Inr d2 \<Rightarrow>
                   (let s = (if TestEntryIntersection (py_num CenterY) (py_num EntryLineY) (py_num ExitLineY) \<noteq> 0
                             then s\<lparr>EntryCounter := EntryCounter s + 1\<rparr> else s)
                    in Inr (if TestExitIntersection (py_num CenterY) (py_num EntryLineY) (py_num ExitLineY) \<noteq> 0
                            then s\<lparr>ExitCounter := ExitCounter s + 1\<rparr> else s,
                            ds @ [d1, d2]))))"

fun draw_count ::
  "pyval \<Rightarrow> pyval \<Rightarrow> 'a loop_vars_scheme \<times> point draw list \<Rightarrow> contour list \<Rightarrow>
   py_error + 'a loop_vars_scheme \<times> point draw list" where
  "draw_count E X sd [] = Inr sd"
| "draw_count E X sd (c # cs) =
     (case draw_contour E X sd c of Inl e \<Rightarrow> Inl e | Inr sd' \<Rightarrow> draw_count E X sd' cs)"

subsection \<open>The overlay and the display, lines 114--122\<close>

record screen =
  stdout :: "string list"
  shown :: "(bgr_image \<times> point draw list) list"

text \<open>
  \<open>"Entries: {}".format(str(EntryCounter))\<close> is the literal with \<open>str(EntryCounter)\<close>
  in place of its one \<open>{}\<close>; \<open>cv2.FONT_HERSHEY_SIMPLEX\<close> is 0; \<open>cv2.waitKey(1)\<close>
  returns a key code the program drops.
\<close>

definition overlay ::
  "'a loop_vars_scheme \<Rightarrow> bgr_image \<Rightarrow> point draw list \<Rightarrow> screen \<Rightarrow> py_error + screen" where
  "overlay s Frame ds out =
     (let out = out\<lparr>stdout := stdout out @ [''Detected contours: '' @ py_str (int (ContourCount s))]\<rparr>
      in case cv_draw (PutText (''Entries: '' @ py_str (EntryCounter s)) (PyInt 10, PyInt 50) 0 (1 / 2)
                         (250, 0, 1) 2) of
           Inl e \<Rightarrow> Inl e
         | Inr d1 \<Rightarrow>
         (case cv_draw (PutText (''Exits: '' @ py_str (ExitCounter s)) (PyInt 10, PyInt 70) 0 (1 / 2)
                          (0, 0, 255) 2) of
            Inl e \<Rightarrow> Inl e
          | Inr d2 \<Rightarrow> Inr (out\<lparr>shown := shown out @ [(Frame, ds @ [d1, d2])]\<rparr>)))"

subsection \<open>The loop body, the loop and the program\<close>

definition loop_body ::
  "cv_lib \<Rightarrow> driver_state \<times> screen \<Rightarrow> bgr_image option \<Rightarrow> py_error + loop_outcome \<times> screen" where
  "loop_body lib so cam =
     (case so of (s, out) \<Rightarrow>
     case np_size cam 0 of
        Inl e \<Rightarrow> Inl e
      | Inr h \<Rightarrow>
     (case np_size cam 1 of
        Inl e \<Rightarrow> Inl e
      | Inr w \<Rightarrow>
     (let s = s\<lparr>height := h, width := w\<rparr> in
      case cam of
        None \<Rightarrow> Inr (Break s, out)
      | Some Frame \<Rightarrow>
          (let FrameGray = preprocess (blur lib) Frame in
           case FirstFrame s of
             None \<Rightarrow> Inr (Continue (s\<lparr>FirstFrame := Some FrameGray\<rparr>), out)
           | Some bg \<Rightarrow>
               (case detect bg FrameGray of
                  Inl e \<Rightarrow> Inl e
                | Inr FrameThresh \<Rightarrow>
                    (let contours = find_contours lib FrameThresh;
                         s = s\<lparr>ContourCount := 0\<rparr>;
                         EntryLineY = EntryLineY_py h;
                         ExitLineY = ExitLineY_py h
                     in case draw_reference_lines w EntryLineY ExitLineY of
                          Inl e \<Rightarrow> Inl e
                        | Inr ds \<Rightarrow>
                        (case draw_count EntryLineY ExitLineY (s, ds) contours of
                           Inl e \<Rightarrow> Inl e
                         | Inr (s, ds) \<Rightarrow>
                           (case overlay s Frame ds out of
                              Inl e \<Rightarrow> Inl e
                            | Inr out \<Rightarrow> Inr (Continue s, out)))))))))"

fun main_loop ::
  "cv_lib \<Rightarrow> driver_state \<times> screen \<Rightarrow> bgr_image option list \<Rightarrow> py_error + loop_outcome \<times> screen" where
  "main_loop lib (s, out) [] = Inr (Continue s, out)"
| "main_loop lib so (cam # cams) =
     (case loop_body lib so cam of
        Inl e \<Rightarrow> Inl e
      | Inr (Break s', out') \<Rightarrow> Inr (Break s', out')
      | Inr (Continue s', out') \<Rightarrow> main_loop lib (s', out') cams)"

definition main :: "cv_lib \<Rightarrow> bgr_image option list \<Rightarrow> py_error + loop_outcome \<times> screen" where
  "main lib cams = main_loop lib (init_state, \<lparr>stdout = [], shown = []\<rparr>) (drop warmup_reads cams)"

subsection \<open>Reading a printed number back\<close>

text \<open>
  Python's \<open>int(text)\<close> on a minus sign and decimal digits: the reading under which the
  overlay's text is the counter.
\<close>

definition is_digit :: "char \<Rightarrow> bool" where
  "is_digit c \<longleftrightarrow> 48 \<le> (of_char c :: int) \<and> (of_char c :: int) \<le> 57"

definition digit_val :: "char \<Rightarrow> int" where
  "digit_val c = of_char c - 48"

fun digits_val :: "int \<Rightarrow> string \<Rightarrow> int" where
  "digits_val acc [] = acc"
| "digits_val acc (c # cs) = digits_val (10 * acc + digit_val c) cs"

definition parse_int :: "string \<Rightarrow> int option" where
  "parse_int str =
     (if str \<noteq> [] \<and> hd str = CHR ''-'' then
        (if tl str \<noteq> [] \<and> list_all is_digit (tl str) then Some (- digits_val 0 (tl str)) else None)
      else if str \<noteq> [] \<and> list_all is_digit str then Some (digits_val 0 str) else None)"

subsection \<open>Printing and reading numbers\<close>


lemma digits_val_snoc: "digits_val acc (xs @ [c]) = 10 * digits_val acc xs + digit_val c"
  by (induction xs arbitrary: acc) simp_all

lemma digit_char: "0 \<le> d \<Longrightarrow> d < 10 \<Longrightarrow> digit_val (char_of (48 + d)) = d \<and> is_digit (char_of (48 + d))"
  by (simp add: digit_val_def is_digit_def)

lemma py_str_digits:
  "0 \<le> n \<Longrightarrow> py_str n \<noteq> [] \<and> list_all is_digit (py_str n) \<and> digits_val 0 (py_str n) = n"
proof (induction n rule: py_str.induct)
  case (1 n)
  show ?case
  proof (cases "n < 10")
    case True
    with "1.prems" show ?thesis by (simp add: py_str.simps digit_char)
  next
    case False
    then have "0 \<le> n div 10" "0 \<le> n mod 10" "n mod 10 < 10" by simp_all
    with False "1.IH"(2) "1.prems" show ?thesis
      by (simp add: py_str.simps [of n] digits_val_snoc digit_char)
  qed
qed

lemma py_str_neg: "n < 0 \<Longrightarrow> py_str n = CHR ''-'' # py_str (- n)"
  by (simp add: py_str.simps [of n])

lemma hd_py_str_nonneg: "0 \<le> n \<Longrightarrow> hd (py_str n) \<noteq> CHR ''-''"
  using py_str_digits [of n]
  by (cases "py_str n") (auto simp: is_digit_def)

lemma parse_py_str: "parse_int (py_str n) = Some n"
proof (cases "n < 0")
  case True
  then show ?thesis using py_str_digits [of "- n"] by (simp add: py_str_neg parse_int_def)
next
  case False
  then show ?thesis using py_str_digits [of n] hd_py_str_nonneg [of n] by (simp add: parse_int_def)
qed



subsection \<open>Python numbers and OpenCV points\<close>

lemma py_truediv_int: "py_truediv (PyInt a) (PyInt b) = PyFloat (of_int a / of_int b)"
  by (simp add: py_truediv_def py_num_def)

lemma lines_py: "EntryLineY_py h = PyFloat (EntryLineYCoord h ReferenceLinesOffset) \<and>
    ExitLineY_py h = PyFloat (ExitLineYCoord h ReferenceLinesOffset)"
  by (simp add: EntryLineY_py_def ExitLineY_py_def EntryLineYCoord_def ExitLineYCoord_def
      py_truediv_int py_add_def py_sub_def py_num_def)

lemma ContourCenter_py_eq:
  "ContourCenter_py r = (PyFloat (fst (ContourCenter r)), PyFloat (snd (ContourCenter r)))"
  by (simp add: ContourCenter_py_def ContourCenter_def py_add_def py_truediv_int split: prod.split)


lemma cv_point_iff:
  "cv_point (a, b) = Inr p \<longleftrightarrow>
     a = PyInt (fst p) \<and> b = PyInt (snd p) \<and> c_int_range (fst p) \<and> c_int_range (snd p)"
  by (cases a; cases b; cases p) (auto simp: cv_point_def c_int_def)

lemma cv_point_float:
  "cv_point (PyFloat r, b) = Inl TypeError"
  "c_int_range a \<Longrightarrow> cv_point (PyInt a, PyFloat r) = Inl TypeError"
  by (simp_all add: cv_point_def c_int_def)

lemma cv_point_int: "c_int_range a \<Longrightarrow> c_int_range b \<Longrightarrow> cv_point (PyInt a, PyInt b) = Inr (a, b)"
  by (simp add: cv_point_iff)

lemma draw_reference_lines_float: "draw_reference_lines w (PyFloat e) X = Inl TypeError"
  by (simp add: draw_reference_lines_def cv_point_float)

subsection \<open>The loop body against the drawing-free pass\<close>

lemma loop_body_eq:
  "loop_body lib (s, out) cam =
     (case frame_step lib s cam of
        Inl e \<Rightarrow> Inl e
      | Inr (Break s') \<Rightarrow> Inr (Break s', out)
      | Inr (Continue s') \<Rightarrow> if FirstFrame s = None then Inr (Continue s', out) else Inl TypeError)"
proof (cases cam)
  case None
  then show ?thesis by (simp add: loop_body_def frame_step_None np_size_def)
next
  case (Some F)
  show ?thesis
  proof (cases "FirstFrame s")
    case None
    with Some show ?thesis by (simp add: loop_body_def frame_step_init np_size_def)
  next
    case (Some bg)
    with \<open>cam = Some F\<close> show ?thesis
      by (simp add: loop_body_def frame_step_ready np_size_def lines_py draw_reference_lines_float
          split: sum.split)
  qed
qed


lemma loop_body_ready:
  "FirstFrame s \<noteq> None \<Longrightarrow> \<exists>e. loop_body lib (s, out) cam = Inl e"
  by (auto simp: loop_body_eq frame_step_no_Break split: sum.split loop_outcome.split)

lemma main_loop_Inr:
  assumes "main_loop lib (s, out) cams = Inr (r, out')"
  shows "\<exists>s'. r = Continue s' \<and> out' = out \<and> EntryCounter s' = EntryCounter s \<and>
           ExitCounter s' = ExitCounter s \<and> length cams \<le> (if FirstFrame s = None then 1 else 0)"
  using assms
proof (induction cams arbitrary: s)
  case Nil
  then show ?case by auto
next
  case (Cons cam cams)
  have "FirstFrame s = None"
  proof (rule ccontr)
    assume "FirstFrame s \<noteq> None"
    then obtain e where "loop_body lib (s, out) cam = Inl e" using loop_body_ready by blast
    with Cons.prems show False by simp
  qed
  then obtain s1 where step: "frame_step lib s cam = Inr (Continue s1)"
    and rest: "main_loop lib (s1, out) cams = Inr (r, out')"
    using Cons.prems
    by (auto simp: loop_body_eq frame_step_no_Break split: sum.splits loop_outcome.splits)
  have "FirstFrame s1 \<noteq> None" "EntryCounter s1 = EntryCounter s \<and> ExitCounter s1 = ExitCounter s"
    using frame_step_Continue(3,4) [OF step] \<open>FirstFrame s = None\<close> by simp_all
  with Cons.IH [OF rest] \<open>FirstFrame s = None\<close> show ?case by auto
qed



subsection \<open>Whole runs\<close>

lemma wf_same_shape_preprocess: assumes "blur_keeps_shape lib" "wf_image h w F1" "wf_image h w F2"
  shows "same_shape (preprocess (blur lib) F1) (preprocess (blur lib) F2)"
  by (rule wf_same_shape [OF wf_preprocess [OF assms(1,2)] wf_preprocess [OF assms(1,3)]])

lemma frame_step_first: "frame_step lib init_state (Some F1) = Inr (Continue (init_state\<lparr>height := length F1, width := row_width F1,
                          FirstFrame := Some (preprocess (blur lib) F1)\<rparr>))"
  by (rule frame_step_init) (simp add: init_state_def)

lemma main_drop_warmup: "length pre = warmup_reads \<Longrightarrow> main lib (pre @ cams) = main_loop lib (init_state, \<lparr>stdout = [], shown = []\<rparr>) cams"
  by (simp add: main_def)


lemma detect_Inl: "detect bg fr = Inl e \<longleftrightarrow> e = CvError \<and> \<not> same_shape bg fr"
  by (auto simp: detect_def absdiff_def)

lemma detect_Inr_same_shape: "detect bg fr = Inr M \<Longrightarrow> same_shape bg fr"
  by (auto simp: detect_def absdiff_def split: if_splits)

lemma main_second_frame_errors:
  assumes "length pre = warmup_reads"
  shows "main lib (pre @ Some F1 # Some F2 # rest) =
           Inl (if same_shape (preprocess (blur lib) F1) (preprocess (blur lib) F2) then TypeError else CvError)"
proof -
  let ?s1 = "init_state\<lparr>height := length F1, width := row_width F1,
                          FirstFrame := Some (preprocess (blur lib) F1)\<rparr>"
  have "main lib (pre @ Some F1 # Some F2 # rest) =
          main_loop lib (?s1, \<lparr>stdout = [], shown = []\<rparr>) (Some F2 # rest)"
    using main_drop_warmup [OF assms] frame_step_first by (simp add: loop_body_eq init_state_def)
  moreover have "FirstFrame ?s1 \<noteq> None" by simp
  ultimately show ?thesis
    by (cases "detect (preprocess (blur lib) F1) (preprocess (blur lib) F2)")
       (auto simp: loop_body_eq frame_step_ready detect_Inl dest: detect_Inr_same_shape)
qed

lemma main_second_frame:
  assumes "blur_keeps_shape lib" "wf_image h w F1" "wf_image h w F2" "length pre = warmup_reads"
  shows "main lib (pre @ Some F1 # Some F2 # rest) = Inl TypeError"
  using main_second_frame_errors [OF assms(4)] wf_same_shape_preprocess [OF assms(1-3)] by simp



subsection \<open>The contour loop with its drawing\<close>

lemma retained_nonempty: "retained c \<Longrightarrow> c \<noteq> []"
  by (auto simp: retained_def contourArea_def MinimumContourArea_def)

lemma py_add_int [simp]: "py_add (PyInt a) (PyInt b) = PyInt (a + b)"
  by (simp add: py_add_def)

lemma boundingRect_range:
  assumes "c \<noteq> []" "\<forall>p\<in>set c. 0 \<le> fst p \<and> fst p < 2 ^ 30 \<and> 0 \<le> snd p \<and> snd p < 2 ^ 30"
    and "boundingRect c = (x, y, w, h)"
  shows "c_int_range x \<and> c_int_range y \<and> c_int_range (x + w) \<and> c_int_range (y + h)"
proof -
  obtain p ps where c: "c = p # ps" using assms(1) by (cases c) auto
  have "x = Min (fst ` set c)" "x + w = Max (fst ` set c) + 1"
    "y = Min (snd ` set c)" "y + h = Max (snd ` set c) + 1"
    using assms(3) by (simp_all add: c boundingRect_Cons Let_def)
  moreover have "0 \<le> Min (fst ` set c)" "Max (fst ` set c) < 2 ^ 30"
    "0 \<le> Min (snd ` set c)" "Max (snd ` set c) < 2 ^ 30"
    using assms(2) by (simp_all add: c)
  moreover have "Min (fst ` set c) \<le> fst p" "fst p \<le> Max (fst ` set c)"
    "Min (snd ` set c) \<le> snd p" "snd p \<le> Max (snd ` set c)"
    by (simp_all add: c)
  ultimately show ?thesis by (simp add:)
qed

lemma draw_contour_retained:
  assumes "retained c" "\<forall>p\<in>set c. 0 \<le> fst p \<and> fst p < 2 ^ 30 \<and> 0 \<le> snd p \<and> snd p < 2 ^ 30"
  shows "draw_contour E X (s, ds) c = Inl TypeError"
proof -
  obtain x y w h where r: "boundingRect c = (x, y, w, h)" by (cases "boundingRect c") auto
  have "c_int_range x \<and> c_int_range y \<and> c_int_range (x + w) \<and> c_int_range (y + h)"
    using boundingRect_range [OF retained_nonempty [OF assms(1)] assms(2) r] .
  then show ?thesis
    using assms(1) by (simp add: draw_contour_def r retained_def cv_point_int ContourCenter_py_eq
        cv_point_float)
qed

lemma draw_contour_dropped:
  "\<not> retained c \<Longrightarrow> draw_contour E X (s, ds) c = Inr (s, ds) \<and> contour_step E' X' s c = s"
  by (simp add: draw_contour_def contour_step_def retained_def)

lemma draw_count_eq:
  assumes "\<forall>c\<in>set cs. \<forall>p\<in>set c. 0 \<le> fst p \<and> fst p < 2 ^ 30 \<and> 0 \<le> snd p \<and> snd p < 2 ^ 30"
  shows "draw_count E X (s, ds) cs =
           (if \<exists>c\<in>set cs. retained c then Inl TypeError
            else Inr (count_contours (py_num E) (py_num X) s cs, ds))"
  using assms
proof (induction cs arbitrary: s)
  case Nil
  then show ?case by simp
next
  case (Cons c cs)
  show ?case
  proof (cases "retained c")
    case True
    with Cons.prems show ?thesis by (simp add: draw_contour_retained)
  next
    case False
    with Cons show ?thesis by (simp add: draw_contour_dropped)
  qed
qed


subsection \<open>Properties of the whole loop body\<close>

text \<open>
  C1: the loop body with its drawing calls refines the drawing-free pass of theory
  \<open>Driver\<close>: it raises what the pass raises and agrees with it on the frame that becomes
  the background, and on every later frame that the pass turns into new counters it
  raises \<open>TypeError\<close> instead, at line 81.
\<close>

theorem loop_body_refines:
  "loop_body lib (s, out) cam =
     (case frame_step lib s cam of
        Inl e \<Rightarrow> Inl e
      | Inr (Break s') \<Rightarrow> Inr (Break s', out)
      | Inr (Continue s') \<Rightarrow> if FirstFrame s = None then Inr (Continue s', out) else Inl TypeError)"
  by (rule loop_body_eq)

text \<open>
  C5: line 81 raises \<open>TypeError\<close> for every frame size: \<open>cv2.line\<close> gets the point
  \<open>(0, EntryLineYCoord)\<close> whose second coordinate is a float.
\<close>

theorem reference_lines_raise:
  "draw_reference_lines w (EntryLineY_py h) (ExitLineY_py h) = Inl TypeError"
  by (simp add: lines_py draw_reference_lines_float)

text \<open>
  C3: the program stops at the second frame after the warm-up: when the blur keeps a
  frame's shape and the first two frames read after the 20 warm-up reads are grabbed
  and have the same shape, the first becomes the background and the second raises
  \<open>TypeError\<close> at line 81, whatever the camera delivers afterwards.
\<close>

theorem second_frame_raises:
  assumes "blur_keeps_shape lib" "wf_image h w F1" "wf_image h w F2" "length pre = warmup_reads"
  shows "main lib (pre @ Some F1 # Some F2 # rest) = Inl TypeError"
  by (rule main_second_frame [OF assms])

theorem second_frame_raises_witness:
  "main null_lib (replicate 20 None @ [Some [[(0, 0, 0)]], Some [[(0, 0, 0)]]]) = Inl TypeError"
  using second_frame_raises [of null_lib 1 1 "[[(0, 0, 0)]]" "[[(0, 0, 0)]]" "replicate 20 None" "[]"]
  by (simp add: blur_keeps_shape_def null_lib_def wf_image_def warmup_reads_def row_width_def)

text \<open>
  C2: no run counts anything or draws anything: a run that has not raised has read at
  most one frame after the warm-up, printed nothing, shown nothing, and both counters
  are still 0.
\<close>

theorem main_counts_nothing:
  assumes "main lib cams = Inr (r, out)"
  shows "\<exists>s. r = Continue s \<and> EntryCounter s = 0 \<and> ExitCounter s = 0 \<and>
           stdout out = [] \<and> shown out = [] \<and> length cams \<le> Suc warmup_reads"
proof -
  have "main_loop lib (init_state, \<lparr>stdout = [], shown = []\<rparr>) (drop warmup_reads cams) = Inr (r, out)"
    using assms by (simp add: main_def)
  from main_loop_Inr [OF this] show ?thesis by (auto simp: init_state_def)
qed

theorem main_counts_nothing_witness:
  "main null_lib (replicate 20 None @ [Some [[(0, 0, 0)]]]) =
     Inr (Continue (init_state\<lparr>height := 1, width := 1, FirstFrame := Some [[0]]\<rparr>), \<lparr>stdout = [], shown = []\<rparr>) \<and>
   EntryCounter (init_state\<lparr>height := 1, width := 1, FirstFrame := Some [[0]]\<rparr>) = 0 \<and>
   length (replicate 20 None @ [Some [[(0::pixel, 0::pixel, 0::pixel)]]]) \<le> Suc warmup_reads"
proof -
  have e: "main null_lib (replicate 20 None @ [Some [[(0, 0, 0)]]]) =
     Inr (Continue (init_state\<lparr>height := 1, width := 1, FirstFrame := Some [[0]]\<rparr>), \<lparr>stdout = [], shown = []\<rparr>)"
    using frame_step_example by (simp add: main_def warmup_reads_def loop_body_eq init_state_def)
  show ?thesis using main_counts_nothing [OF e] e by auto
qed

text \<open>
  C6: the contour loop with its drawing (lines 85--112) on contours whose points have
  coordinates below \<open>2\<^sup>3\<^sup>0\<close>: it raises \<open>TypeError\<close> at line 104, where
  \<open>cv2.circle\<close> gets the float centre, as soon as a contour passes the area filter; when
  none does, it is the drawing-free loop \<open>count_contours\<close> and draws nothing.
\<close>

theorem draw_count_refines:
  assumes "\<forall>c\<in>set cs. \<forall>p\<in>set c. 0 \<le> fst p \<and> fst p < 2 ^ 30 \<and> 0 \<le> snd p \<and> snd p < 2 ^ 30"
  shows "draw_count E X (s, ds) cs =
           (if \<exists>c\<in>set cs. retained c then Inl TypeError
            else Inr (count_contours (py_num E) (py_num X) s cs, ds))"
  by (rule draw_count_eq [OF assms])

theorem draw_count_refines_witness:
  "draw_count (PyFloat 90) (PyFloat 390) (init_state, []) [[(0, 0), (0, 100), (100, 100), (100, 0)]] =
     Inl TypeError"
proof -
  let ?c = "[(0, 0), (0, 100), (100, 100), (100, 0)] :: contour"
  have "draw_count (PyFloat 90) (PyFloat 390) (init_state, []) [?c] =
          (if \<exists>c\<in>set [?c]. retained c then Inl TypeError
           else Inr (count_contours (py_num (PyFloat 90)) (py_num (PyFloat 390)) init_state [?c], []))"
    by (rule draw_count_refines) simp
  also have "\<dots> = Inl TypeError"
    by (simp add: retained_def contourArea_def MinimumContourArea_def shoelace.simps)
  finally show ?thesis .
qed

text \<open>
  C30: the overlay of lines 114--121 never raises, and what it prints and writes reads
  back as the program's counts: the printed line ends in \<open>str(ContourCount)\<close>, and the
  two texts drawn at \<open>(10, 50)\<close> and \<open>(10, 70)\<close> end in \<open>str(EntryCounter)\<close> and
  \<open>str(ExitCounter)\<close>, which Python's \<open>int()\<close> reads back as the counters.
\<close>

theorem overlay_reads_back:
  "\<exists>out' t1 t2 t3. overlay s Frame ds out = Inr out' \<and>
     stdout out' = stdout out @ [''Detected contours: '' @ t1] \<and>
     shown out' = shown out @ [(Frame, ds @ [PutText (''Entries: '' @ t2) (10, 50) 0 (1 / 2) (250, 0, 1) 2,
                                             PutText (''Exits: '' @ t3) (10, 70) 0 (1 / 2) (0, 0, 255) 2])] \<and>
     parse_int t1 = Some (int (ContourCount s)) \<and> parse_int t2 = Some (EntryCounter s) \<and>
     parse_int t3 = Some (ExitCounter s)"
  by (simp add: overlay_def cv_point_int parse_py_str)

end
