(* ===== verification/FindContours.thy ===== *)
theory FindContours
  imports Contours ChangeDetect
begin

unbundle bit_operations_syntax

text \<open>
  \<open>cv2.findContours(FrameThresh.copy(), cv2.RETR_EXTERNAL, cv2.CHAIN_APPROX_SIMPLE)\<close>
  (line 74), modelled from OpenCV 3's implementation of Suzuki and Abe's border following
  (\<^verbatim>\<open>modules/imgproc/src/contours.cpp\<close>, releases 3.2 to 3.4, the releases whose
  three-value return line 74 unpacks):
  \<^item> \<open>findContours\<close> pads the mask with a one-pixel border of zeros
    (\<open>copyMakeBorder\<close>) and \<open>cvStartFindContours\<close> binarises the copy to 0 and 1
    (\<open>threshold(0, 1, THRESH_BINARY)\<close>); the copy is a signed-char image in which the
    tracer writes its marks;
  \<^item> \<open>icvFindNextContour\<close> scans the rows \<open>1 .. height - 2\<close> and columns
    \<open>1 .. width - 2\<close> of the padded image, keeping the value \<open>prev\<close> of the last pixel
    and the last marked pixel \<open>lnbd\<close> of the row; a pixel 1 after a 0 starts an outer
    border, which \<open>RETR_EXTERNAL\<close> traces unless \<open>lnbd\<close> holds a positive mark (the
    border then lies inside an object already traced); holes are never traced;
  \<^item> \<open>icvFetchContour\<close> follows the border: a clockwise search from the pixel at the
    upper left for the first neighbour \<open>i1\<close>, then, from each border pixel \<open>i3\<close>, a
    counter-clockwise search for the next one \<open>i4\<close>, until it moves from \<open>i1\<close> back
    to the start \<open>i0\<close>; it marks each border pixel \<open>nbd = 2\<close>, or \<open>nbd | -128\<close> when
    the search passed its right neighbour, and with \<open>CHAIN_APPROX_SIMPLE\<close> writes a point
    only where the direction changes;
  \<^item> the points are shifted back by the offset \<open>(-1, -1)\<close> of the padding, and
    \<open>cvTreeToNodeSeq\<close> returns the outer contours in the reverse of the order found
    (\<open>cvInsertNodeIntoTree\<close> puts each new contour first).
  The border-following loop runs until it meets its start again, which needs a proof
  (theory \<open>ContourTracing\<close>), so it is a \<open>partial_function\<close> in the option monad; the
  raster scan, whose progress is plain, is a \<open>function\<close> with a measure.
  Coordinates are \<open>(x, y)\<close> pairs of \<open>int\<close>, as OpenCV's \<open>CvPoint\<close>; the
  signed-char working image is an image of \<open>8 word\<close> read with \<open>sint\<close>.
\<close>

subsection \<open>The working image\<close>

text \<open>\<open>copyMakeBorder(image, 1, 1, 1, 1, BORDER_CONSTANT, 0)\<close>.\<close>

definition copyMakeBorder :: "gray_image \<Rightarrow> gray_image" where
  "copyMakeBorder img =
     (let z = replicate (row_width img + 2) 0 in z # map (\<lambda>r. 0 # r @ [0]) img @ [z])"

text \<open>The pixel at \<open>(x, y)\<close>; the tracer never reads outside the image, where 0 stands.\<close>

definition lab :: "pixel image \<Rightarrow> point \<Rightarrow> pixel" where
  "lab img p =
     (case p of (x, y) \<Rightarrow>
        if 0 \<le> y \<and> y < int (length img) \<and> 0 \<le> x \<and> x < int (length (img ! nat y))
        then img ! nat y ! nat x else 0)"

definition set_lab :: "pixel image \<Rightarrow> point \<Rightarrow> pixel \<Rightarrow> pixel image" where
  "set_lab img p v = (case p of (x, y) \<Rightarrow> img[nat y := (img ! nat y)[nat x := v]])"

text \<open>
  \<open>icvCodeDeltas\<close>: direction 0 is right, and the directions turn counter-clockwise on
  the screen (\<open>y\<close> grows downwards). The pointer table \<open>deltas\<close> holds them twice, so
  index \<open>s\<close> and \<open>s mod 8\<close> are the same move.
\<close>

definition code_delta :: "nat \<Rightarrow> int \<times> int" where
  "code_delta s = [(1, 0), (1, -1), (0, -1), (-1, -1), (-1, 0), (-1, 1), (0, 1), (1, 1)] ! (s mod 8)"

definition mv :: "point \<Rightarrow> nat \<Rightarrow> point" where
  "mv p s = (fst p + fst (code_delta s), snd p + snd (code_delta s))"

text \<open>\<open>const schar nbd = 2\<close> of \<open>icvFetchContour\<close>.\<close>

definition nbd :: int where
  "nbd = 2"

subsection \<open>\<open>icvFetchContour\<close>\<close>

text \<open>
  A search loop over the neighbours of \<open>p\<close>: \<open>s\<close> runs through \<open>ss\<close> and stops at the
  first direction with a non-zero pixel, or at the last one; \<open>d\<close> is the value of
  \<open>s\<close> when the loop body never runs.
\<close>

fun scan_dirs :: "pixel image \<Rightarrow> point \<Rightarrow> nat \<Rightarrow> nat list \<Rightarrow> nat" where
  "scan_dirs img p d [] = d"
| "scan_dirs img p d (s # ss) =
     (if lab img (mv p s) \<noteq> 0 \<or> ss = [] then s else scan_dirs img p d ss)"

text \<open>
  One turn of the border-following loop, from the border pixel \<open>i3\<close> entered with the
  direction \<open>s\<close> of the previous border pixel:
  \<^verbatim>\<open>s_end = s; s = min(s, 15); while (s < 15) { i4 = i3 + deltas[++s]; if (*i4) break; }\<close>
  then \<open>s &= 7\<close>, the mark of \<open>i3\<close> (\<open>nbd | -128\<close> when the search passed direction
  0, that is when \<open>(unsigned)(s - 1) < (unsigned) s_end\<close>), the point \<open>pt\<close> written
  when the direction changed, and the move of \<open>pt\<close>; the loop ends after the step from
  \<open>i1\<close> to \<open>i0\<close>.
\<close>

partial_function (option) follow_border ::
  "point \<Rightarrow> point \<Rightarrow> pixel image \<Rightarrow> point \<Rightarrow> nat \<Rightarrow> int \<Rightarrow> point \<Rightarrow> contour \<Rightarrow>
   (pixel image \<times> contour) option" where
  "follow_border i0 i1 img i3 s prev_s pt pts =
     (let s_end = s;
          s = scan_dirs img i3 (min s 15) [Suc (min s 15)..<16];
          i4 = mv i3 s;
          s = s mod 8;
          img = (if s \<noteq> 0 \<and> s - 1 < s_end then set_lab img i3 (word_of_int (nbd OR -128))
                 else if sint (lab img i3) = 1 then set_lab img i3 (word_of_int nbd)
                 else img);
          (pts, prev_s) = (if int s \<noteq> prev_s then (pts @ [pt], int s) else (pts, prev_s));
          pt = mv pt s
      in if i4 = i0 \<and> i3 = i1 then Some (img, pts)
         else follow_border i0 i1 img i4 ((s + 4) mod 8) prev_s pt pts)"

declare follow_border.simps [code]

text \<open>
  The start: the clockwise search \<open>s = (s - 1) & 7\<close> from \<open>s = 4\<close> visits the
  directions \<open>3, 2, 1, 0, 7, 6, 5, 4\<close>; when it comes back to 4 the pixel is isolated and
  is the whole contour, marked \<open>nbd | -128\<close>.
\<close>

definition fetch_contour :: "pixel image \<Rightarrow> point \<Rightarrow> point \<Rightarrow> (pixel image \<times> contour) option" where
  "fetch_contour img i0 pt =
     (let s = scan_dirs img i0 4 [3, 2, 1, 0, 7, 6, 5, 4] in
      if s = 4 then Some (set_lab img i0 (word_of_int (nbd OR -128)), [pt])
      else follow_border i0 (mv i0 s) img i0 s (int (s XOR 4)) pt [])"

subsection \<open>\<open>icvFindNextContour\<close> in \<open>RETR_EXTERNAL\<close> mode\<close>

text \<open>
  The raster scan: \<open>x\<close> and \<open>y\<close> run up to \<open>width - 1\<close> and \<open>height - 1\<close> of the padded
  image (\<open>W\<close> and \<open>H\<close>); \<open>prev\<close> and \<open>lnbd\<close> as in OpenCV. At the end of a row
  \<open>lnbd = (0, y + 1)\<close>, \<open>x = 1\<close>, \<open>prev = 0\<close>. A pixel equal to \<open>prev\<close> is skipped;
  otherwise: a start of an outer border (\<open>prev == 0 && p == 1\<close>) is traced when the
  pixel at \<open>lnbd\<close> is not positive; a start of a hole (\<open>p == 0 && prev >= 1\<close>) moves
  \<open>lnbd\<close> to \<open>x - 1\<close> when \<open>prev & -2\<close>, and is skipped; at \<open>resume_scan\<close>,
  \<open>prev = p\<close> and \<open>lnbd.x = x\<close> when \<open>p & -2\<close>. After a contour, the scan resumes at
  \<open>x + 1\<close> with \<open>prev\<close> the pixel as the tracer left it.
\<close>

function scan_contours ::
  "int \<Rightarrow> int \<Rightarrow> pixel image \<Rightarrow> int \<Rightarrow> int \<Rightarrow> int \<Rightarrow> point \<Rightarrow> contour list \<Rightarrow>
   contour list option" where
  "scan_contours W H img x y prev lnbd cs =
     (if H \<le> y then Some cs
      else if W \<le> x then scan_contours W H img 1 (y + 1) 0 (0, y + 1) cs
      else
        let p = sint (lab img (x, y));
            resume = (\<lambda>l. scan_contours W H img (x + 1) y p
                             (if p AND -2 \<noteq> 0 then (x, snd l) else l) cs)
        in if p = prev then scan_contours W H img (x + 1) y prev lnbd cs
           else if \<not> (prev = 0 \<and> p = 1) then
             (if p \<noteq> 0 \<or> prev < 1 then resume lnbd
              else resume (if prev AND -2 \<noteq> 0 then (x - 1, snd lnbd) else lnbd))
           else if 0 < sint (lab img lnbd) then resume lnbd
           else
             (case fetch_contour img (x, y) (x - 1, y - 1) of
                None \<Rightarrow> None
              | Some (img', c) \<Rightarrow>
                  scan_contours W H img' (x + 1) y (sint (lab img' (x, y))) lnbd (cs @ [c])))"
  by pat_completeness auto
termination
  by (relation "measures [\<lambda>(W, H, img, x, y, prev, lnbd, cs). nat (H - y),
                          \<lambda>(W, H, img, x, y, prev, lnbd, cs). nat (W - x)]") auto

declare scan_contours.simps [simp del]

text \<open>
  \<open>cv2.findContours\<close> with \<open>RETR_EXTERNAL\<close> and \<open>CHAIN_APPROX_SIMPLE\<close> on a mask: the
  contours in the order OpenCV returns them, or \<open>None\<close> if a border were followed for
  ever (theory \<open>ContourTracing\<close> shows it never is).
\<close>

definition findContours :: "gray_image \<Rightarrow> contour list option" where
  "findContours src =
     (let img = threshold_binary 0 1 (copyMakeBorder src);
          W = int (row_width img) - 1; H = int (length img) - 1
      in map_option rev (scan_contours W H img 1 1 0 (0, 1) []))"

text \<open>The contour list line 74 unpacks; \<open>None\<close> never happens.\<close>

definition cv_findContours :: "gray_image \<Rightarrow> contour list" where
  "cv_findContours FrameThresh = (case findContours FrameThresh of Some cs \<Rightarrow> cs | None \<Rightarrow> [])"

declare copyMakeBorder_def [model_defs] lab_def [model_defs] set_lab_def [model_defs]
  code_delta_def [model_defs] mv_def [model_defs] nbd_def [model_defs]
  fetch_contour_def [model_defs] findContours_def [model_defs] cv_findContours_def [model_defs]

subsection \<open>Two evaluations\<close>

text \<open>
  A single foreground pixel is a one-point contour; a filled \<open>2 \<times> 2\<close> square gives its
  four corners, from the top-left corner down the left side, as OpenCV reports them.
\<close>

lemma findContours_example: "findContours [[0, 255]] = Some [[(1, 0)]]"
  by code_simp

lemma findContours_square:
  "findContours [[255, 255], [255, 255]] = Some [[(0, 0), (0, 1), (1, 1), (1, 0)]]"
  by code_simp

end
