(* ===== verification/ContourTracing.thy ===== *)
theory ContourTracing
  imports FindContours
begin

text \<open>
  The properties of the \<open>cv2.findContours\<close> model (theory \<open>FindContours\<close>): the
  border-following loop always returns, so the call never fails; every point of every
  contour is a foreground pixel of the mask; a mask without foreground has no contour and a
  mask with foreground has at least one; the bounding rectangle of every contour lies inside
  the frame. The termination argument: the tracer's position and direction evolve by a
  step \<open>gstep\<close> that depends only on which pixels are non-zero (its marks never turn a pixel
  to 0 or back), that step is injective on the finitely many states at foreground pixels,
  so its orbit from the start state is a cycle, and the state before the start on that
  cycle is the move from \<open>i1\<close> to \<open>i0\<close> that ends the loop.
\<close>

subsection \<open>The tracer as a step on positions and directions\<close>

text \<open>The foreground pixels of an image, as the tracer sees them.\<close>

definition supp :: "pixel image \<Rightarrow> point set" where
  "supp img = {q. lab img q \<noteq> 0}"

text \<open>The counter-clockwise search of one turn of \<open>follow_border\<close>, from direction \<open>b\<close>.\<close>

definition ccw_search :: "pixel image \<Rightarrow> point \<Rightarrow> nat \<Rightarrow> nat" where
  "ccw_search img p b = scan_dirs img p (min b 15) [Suc (min b 15)..<16]"

text \<open>
  One turn of the loop on the pair (border pixel, direction of the previous border pixel):
  the next border pixel \<open>i4\<close> and the direction back from it.
\<close>

definition gstep :: "pixel image \<Rightarrow> point \<times> nat \<Rightarrow> point \<times> nat" where
  "gstep img st = (case st of (p, b) \<Rightarrow>
     (let r = ccw_search img p b in (mv p r, (r mod 8 + 4) mod 8)))"

text \<open>The states the tracer can be in: at a foreground pixel, looking at a foreground neighbour.\<close>

definition tstates :: "pixel image \<Rightarrow> (point \<times> nat) set" where
  "tstates img = {(p, b). p \<in> supp img \<and> b < 8 \<and> mv p b \<in> supp img}"

text \<open>The state from which the loop ends: the move from \<open>i1\<close> to \<open>i0\<close>.\<close>

definition stops :: "point \<Rightarrow> point \<Rightarrow> pixel image \<Rightarrow> point \<times> nat \<Rightarrow> bool" where
  "stops i0 i1 img st \<longleftrightarrow> fst st = i1 \<and> fst (gstep img st) = i0"

subsection \<open>Directions and pixels\<close>

lemma code_delta_mod: "code_delta (s mod 8) = code_delta s"
  by (simp add: code_delta_def)

lemma mv_mod [simp]: "mv p (s mod 8) = mv p s"
  by (simp add: mv_def code_delta_mod)

lemma mv_add8 [simp]: "mv p (s + 8) = mv p s"
  by (metis mod_add_self2 mv_mod)

lemma lt8_cases: "(k::nat) < 8 \<Longrightarrow> k = 0 \<or> k = 1 \<or> k = 2 \<or> k = 3 \<or> k = 4 \<or> k = 5 \<or> k = 6 \<or> k = 7"
  by arith

lemma code_delta_back: "k < 8 \<Longrightarrow> code_delta ((k + 4) mod 8) = (- fst (code_delta k), - snd (code_delta k))"
  by (auto simp: code_delta_def dest!: lt8_cases)

lemma mv_back [simp]: "mv (mv p s) (s + 4) = p"
proof -
  have "code_delta (s + 4) = code_delta ((s mod 8 + 4) mod 8)"
    by (metis code_delta_mod mod_add_left_eq)
  also have "\<dots> = (- fst (code_delta s), - snd (code_delta s))"
    using code_delta_back [of "s mod 8"] by (simp add: code_delta_mod)
  finally show ?thesis by (simp add: mv_def)
qed

lemma lab_nonzero_bounds:
  "lab img (x, y) \<noteq> 0 \<Longrightarrow> 0 \<le> y \<and> y < int (length img) \<and> 0 \<le> x \<and> x < int (length (img ! nat y))"
  by (simp add: lab_def split: if_splits)

lemma lab_set_lab:
  assumes "lab img q \<noteq> 0"
  shows "lab (set_lab img q v) r = (if r = q then v else lab img r)"
proof -
  obtain x y where q: "q = (x, y)" by (cases q)
  obtain x' y' where r: "r = (x', y')" by (cases r)
  have b: "0 \<le> y \<and> y < int (length img) \<and> 0 \<le> x \<and> x < int (length (img ! nat y))"
    using assms q by (simp add: lab_nonzero_bounds)
  show ?thesis
  proof (cases "y' = y")
    case True
    with b show ?thesis
      by (auto simp: lab_def set_lab_def q r nth_list_update eq_nat_nat_iff)
  next
    case False
    have "0 \<le> y' \<Longrightarrow> nat y' \<noteq> nat y" using False b by auto
    with b show ?thesis
      by (auto simp: lab_def set_lab_def q r nth_list_update)
  qed
qed

lemma supp_set_lab:
  "q \<in> supp img \<Longrightarrow> v \<noteq> 0 \<Longrightarrow> supp (set_lab img q v) = supp img"
  by (auto simp: supp_def lab_set_lab)

lemma scan_dirs_upt:
  assumes "a < n"
  shows "a \<le> scan_dirs img p d [a..<n] \<and> scan_dirs img p d [a..<n] < n
    \<and> (\<forall>j. a \<le> j \<and> j < scan_dirs img p d [a..<n] \<longrightarrow> lab img (mv p j) = 0)
    \<and> (lab img (mv p (scan_dirs img p d [a..<n])) \<noteq> 0 \<or> scan_dirs img p d [a..<n] = n - 1)"
  using assms
proof (induction "n - a" arbitrary: a)
  case 0
  then show ?case by simp
next
  case (Suc k)
  have ss: "[a..<n] = a # [Suc a..<n]" using Suc.prems by (simp add: upt_conv_Cons)
  show ?case
  proof (cases "lab img (mv p a) \<noteq> 0 \<or> Suc a = n")
    case True
    then show ?thesis using Suc.prems by (auto simp: ss)
  next
    case False
    then have a: "Suc a < n" and z: "lab img (mv p a) = 0" using Suc.prems by auto
    have IH: "Suc a \<le> scan_dirs img p d [Suc a..<n] \<and> scan_dirs img p d [Suc a..<n] < n
      \<and> (\<forall>j. Suc a \<le> j \<and> j < scan_dirs img p d [Suc a..<n] \<longrightarrow> lab img (mv p j) = 0)
      \<and> (lab img (mv p (scan_dirs img p d [Suc a..<n])) \<noteq> 0 \<or> scan_dirs img p d [Suc a..<n] = n - 1)"
      using Suc.hyps(1) [of "Suc a"] Suc.hyps(2) a by simp
    have r: "scan_dirs img p d [a..<n] = scan_dirs img p d [Suc a..<n]"
      using a z by (simp add: ss)
    show ?thesis unfolding r using IH z
      by (metis Suc_leD le_antisym not_less_eq_eq)
  qed
qed

lemma scan_ccw:
  assumes "b < 8" "mv p b \<in> supp img"
  shows "b < ccw_search img p b \<and> ccw_search img p b \<le> b + 8
    \<and> mv p (ccw_search img p b) \<in> supp img
    \<and> (\<forall>j. b < j \<and> j < ccw_search img p b \<longrightarrow> mv p j \<notin> supp img)"
proof -
  define r where "r = ccw_search img p b"
  have m: "min b 15 = b" using assms(1) by simp
  have "Suc b \<le> r \<and> r < 16 \<and> (\<forall>j. Suc b \<le> j \<and> j < r \<longrightarrow> lab img (mv p j) = 0)
     \<and> (lab img (mv p r) \<noteq> 0 \<or> r = 16 - 1)"
    unfolding r_def ccw_search_def m by (rule scan_dirs_upt) (use assms(1) in simp)
  then have u1: "b < r" and u2: "r < 16"
    and u3: "\<And>j. b < j \<Longrightarrow> j < r \<Longrightarrow> lab img (mv p j) = 0"
    and u4: "lab img (mv p r) = 0 \<Longrightarrow> r = 15"
    by (auto simp: Suc_le_eq)
  have b8: "lab img (mv p (b + 8)) \<noteq> 0" using assms(2) by (simp add: supp_def)
  have le: "r \<le> b + 8"
  proof (rule ccontr)
    assume "\<not> r \<le> b + 8"
    then have "lab img (mv p (b + 8)) = 0" by (intro u3) simp_all
    with b8 show False by blast
  qed
  have nz: "lab img (mv p r) \<noteq> 0"
  proof
    assume z: "lab img (mv p r) = 0"
    then have "r = b + 8" using u4 le assms(1) by simp
    with z b8 show False by blast
  qed
  have "\<forall>j. b < j \<and> j < r \<longrightarrow> mv p j \<notin> supp img"
    using u3 by (simp add: supp_def)
  then show ?thesis using u1 le nz unfolding r_def [symmetric] by (simp add: supp_def)
qed

lemma gstep_eq:
  "gstep img (p, b) = (mv p (ccw_search img p b), (ccw_search img p b mod 8 + 4) mod 8)"
  by (simp add: gstep_def Let_def)

lemma mv_back_mod [simp]: "mv (mv p r) (r mod 8 + 4) = p"
  by (metis mod_add_left_eq mv_back mv_mod)

lemma gstep_tstates: "st \<in> tstates img \<Longrightarrow> gstep img st \<in> tstates img"
proof -
  assume st: "st \<in> tstates img"
  obtain p b where [simp]: "st = (p, b)" by (cases st)
  from st have "b < 8" "mv p b \<in> supp img" "p \<in> supp img" by (auto simp: tstates_def)
  with scan_ccw [OF this(1,2)] show ?thesis
    by (simp add: tstates_def gstep_eq)
qed

subsection \<open>The step is a permutation of the tracer states\<close>

lemma finite_supp: "finite (supp img)"
proof -
  let ?L = "int (sum_list (map length img))"
  have "supp img \<subseteq> {0..?L} \<times> {0..int (length img)}"
  proof
    fix q assume "q \<in> supp img"
    then obtain x y where q: "q = (x, y)" and b:
      "0 \<le> y \<and> y < int (length img) \<and> 0 \<le> x \<and> x < int (length (img ! nat y))"
      using lab_nonzero_bounds by (cases q) (auto simp: supp_def)
    have "nat y < length img" using b by linarith
    then have "length (img ! nat y) \<le> sum_list (map length img)"
      using elem_le_sum_list [of "nat y" "map length img"] by simp
    with b show "q \<in> {0..?L} \<times> {0..int (length img)}" by (simp add: q)
  qed
  then show ?thesis by (rule finite_subset) simp
qed

lemma finite_tstates: "finite (tstates img)"
proof -
  have "tstates img \<subseteq> supp img \<times> {0..<8}" by (auto simp: tstates_def)
  then show ?thesis by (rule finite_subset) (simp add: finite_supp)
qed

lemma plus4_lt8_inj: "(x::nat) < 8 \<Longrightarrow> y < 8 \<Longrightarrow> (x + 4) mod 8 = (y + 4) mod 8 \<Longrightarrow> x = y"
  by (auto dest!: lt8_cases)

lemma plus4_mod8_inj: "((a::nat) mod 8 + 4) mod 8 = (c mod 8 + 4) mod 8 \<longleftrightarrow> a mod 8 = c mod 8"
  using plus4_lt8_inj [of "a mod 8" "c mod 8"] by auto

text \<open>Two searches that end in the same direction started from the same neighbour.\<close>

lemma search_order:
  assumes "b < b'" "b' < 8" "b < r" "\<forall>j. b < j \<and> j < r \<longrightarrow> mv p j \<notin> supp img"
    "b' < r'" "r' \<le> b' + 8" "\<forall>j. b' < j \<and> j < r' \<longrightarrow> mv p j \<notin> supp img"
    "r mod 8 = r' mod 8" "mv p b \<in> supp img" "mv p b' \<in> supp img"
  shows False
proof -
  have "r \<le> b'"
  proof (rule ccontr)
    assume "\<not> r \<le> b'"
    with assms(1,4) have "mv p b' \<notin> supp img" by simp
    with assms(10) show False by blast
  qed
  then have "r mod 8 = r" using assms(2) by simp
  with assms(8) have "r' mod 8 = r" by simp
  moreover have "r' div 8 = 1"
  proof -
    have "r' div 8 \<noteq> 0"
    proof
      assume "r' div 8 = 0"
      then have "r' < 8" by simp
      then show False using \<open>r' mod 8 = r\<close> \<open>r \<le> b'\<close> assms(5) by simp
    qed
    moreover have "r' < 16" using assms(2,6) by simp
    ultimately show ?thesis by linarith
  qed
  ultimately have "r' = r + 8" using div_mult_mod_eq [of r' 8] by simp
  then have "b' < b + 8" "b + 8 < r'" using assms(2,3) by simp_all
  with assms(7) have "mv p (b + 8) \<notin> supp img" by blast
  with assms(9) show False by simp
qed

lemma gstep_inj: "inj_on (gstep img) (tstates img)"
proof (rule inj_onI)
  fix st st' assume st: "st \<in> tstates img" and st': "st' \<in> tstates img"
    and eq: "gstep img st = gstep img st'"
  obtain p b where [simp]: "st = (p, b)" by (cases st)
  obtain p' b' where [simp]: "st' = (p', b')" by (cases st')
  define r where "r = ccw_search img p b"
  define r' where "r' = ccw_search img p' b'"
  have b: "b < 8" "mv p b \<in> supp img" and b': "b' < 8" "mv p' b' \<in> supp img"
    using st st' by (auto simp: tstates_def)
  have R: "b < r \<and> r \<le> b + 8 \<and> mv p r \<in> supp img \<and> (\<forall>j. b < j \<and> j < r \<longrightarrow> mv p j \<notin> supp img)"
    unfolding r_def by (rule scan_ccw [OF b])
  have R': "b' < r' \<and> r' \<le> b' + 8 \<and> mv p' r' \<in> supp img \<and> (\<forall>j. b' < j \<and> j < r' \<longrightarrow> mv p' j \<notin> supp img)"
    unfolding r'_def by (rule scan_ccw [OF b'])
  have g: "gstep img (p, b) = (mv p r, (r mod 8 + 4) mod 8)"
    "gstep img (p', b') = (mv p' r', (r' mod 8 + 4) mod 8)"
    unfolding r_def r'_def by (rule gstep_eq)+
  have e1: "mv p r = mv p' r'" and e2: "(r mod 8 + 4) mod 8 = (r' mod 8 + 4) mod 8"
    using eq by (simp_all add: g)
  have rr: "r mod 8 = r' mod 8" using e2 by (simp add: plus4_mod8_inj)
  have pp: "p = p'"
    using mv_back_mod [of p r] mv_back_mod [of p' r'] by (simp add: e1 rr)
  have "b = b'"
  proof (rule linorder_cases [of b b'])
    assume "b < b'"
    from search_order [OF this b'(1) conjunct1 [OF R] conjunct2 [OF conjunct2 [OF conjunct2 [OF R]]]
        conjunct1 [OF R'] conjunct1 [OF conjunct2 [OF R']]]
    show ?thesis using conjunct2 [OF conjunct2 [OF conjunct2 [OF R']]] rr b(2) b'(2)
      unfolding pp by simp
  next
    assume "b' < b"
    from search_order [OF this b(1) conjunct1 [OF R'] conjunct2 [OF conjunct2 [OF conjunct2 [OF R']]]
        conjunct1 [OF R] conjunct1 [OF conjunct2 [OF R]]]
    show ?thesis using conjunct2 [OF conjunct2 [OF conjunct2 [OF R]]] rr b(2) b'(2)
      unfolding pp by simp
  qed simp
  with pp show "st = st'" by simp
qed

subsection \<open>Border following returns\<close>

lemma supp_eqD: "supp img' = supp img \<Longrightarrow> (lab img' q = 0) = (lab img q = 0)"
  by (metis (mono_tags, lifting) mem_Collect_eq supp_def)

lemma scan_dirs_supp:
  assumes "supp img' = supp img"
  shows "scan_dirs img' p d ss = scan_dirs img p d ss"
proof (induction ss)
  case (Cons a ss)
  have "(lab img' (mv p a) = 0) = (lab img (mv p a) = 0)" by (rule supp_eqD [OF assms])
  with Cons.IH show ?case by simp
qed simp

lemma gstep_supp:
  assumes "supp img' = supp img"
  shows "gstep img' = gstep img"
proof
  fix st
  show "gstep img' st = gstep img st"
    by (cases st) (simp only: gstep_eq ccw_search_def scan_dirs_supp [OF assms])
qed

lemma tstates_supp: "supp img' = supp img \<Longrightarrow> tstates img' = tstates img"
  by (simp add: tstates_def)

lemma marks_nonzero: "word_of_int (nbd OR -128) \<noteq> (0 :: pixel)" "word_of_int nbd \<noteq> (0 :: pixel)"
  by (simp_all add: nbd_def)

lemma turn_back_lt8: "(x::nat) < 8 \<Longrightarrow> ((x + 4) mod 8 + 4) mod 8 = x"
  by (auto dest!: lt8_cases)

lemma mv_turn_back [simp]: "mv p ((r mod 8 + 4) mod 8 + 4) = mv p r"
proof -
  have "((r mod 8 + 4) mod 8 + 4) mod 8 = r mod 8" by (rule turn_back_lt8) simp
  then show ?thesis by (metis mv_mod)
qed

lemma mv_shift: "mv (fst p - 1, snd p - 1) r = (fst (mv p r) - 1, snd (mv p r) - 1)"
  by (simp add: mv_def)

lemma follow_border_step:
  assumes "(i3, s) \<in> tstates img"
  obtains img1 prev1 pts1 where "supp img1 = supp img" "set pts1 \<subseteq> insert pt (set pts)"
    "follow_border i0 i1 img i3 s prev_s pt pts =
       (if stops i0 i1 img (i3, s) then Some (img1, pts1)
        else follow_border i0 i1 img1 (fst (gstep img (i3, s))) (snd (gstep img (i3, s))) prev1
               (mv pt (snd (gstep img (i3, s)) + 4)) pts1)"
proof -
  define r where "r = ccw_search img i3 s"
  have rr: "scan_dirs img i3 (min s 15) [Suc (min s 15)..<16] = r" by (simp only: r_def ccw_search_def)
  define img1 where "img1 =
    (if r mod 8 \<noteq> 0 \<and> r mod 8 - 1 < s then set_lab img i3 (word_of_int (nbd OR -128))
     else if sint (lab img i3) = 1 then set_lab img i3 (word_of_int nbd) else img)"
  define pp where "pp = (if int (r mod 8) \<noteq> prev_s then (pts @ [pt], int (r mod 8)) else (pts, prev_s))"
  have i3: "i3 \<in> supp img" using assms by (simp add: tstates_def)
  have g: "gstep img (i3, s) = (mv i3 r, (r mod 8 + 4) mod 8)"
    unfolding r_def by (rule gstep_eq)
  have f: "follow_border i0 i1 img i3 s prev_s pt pts =
     (if mv i3 r = i0 \<and> i3 = i1 then Some (img1, fst pp)
      else follow_border i0 i1 img1 (mv i3 r) ((r mod 8 + 4) mod 8) (snd pp) (mv pt (r mod 8)) (fst pp))"
    by (subst follow_border.simps)
      (simp only: Let_def rr img1_def [symmetric] pp_def [symmetric] case_prod_unfold)
  show ?thesis
  proof (rule that)
    show "supp img1 = supp img" using supp_set_lab [OF i3] marks_nonzero by (simp add: img1_def)
    show "set (fst pp) \<subseteq> insert pt (set pts)" by (auto simp: pp_def)
    show "follow_border i0 i1 img i3 s prev_s pt pts =
       (if stops i0 i1 img (i3, s) then Some (img1, fst pp)
        else follow_border i0 i1 img1 (fst (gstep img (i3, s))) (snd (gstep img (i3, s))) (snd pp)
               (mv pt (snd (gstep img (i3, s)) + 4)) (fst pp))"
      unfolding f g stops_def by (simp only: fst_conv snd_conv mv_turn_back mv_mod conj_commute)
  qed
qed

lemma follow_border_stop:
  assumes "stops i0 i1 img (i3, s)" "(i3, s) \<in> tstates img"
    "pt = (fst i3 - 1, snd i3 - 1)" "\<forall>q\<in>set pts. (fst q + 1, snd q + 1) \<in> supp img"
  shows "\<exists>img' pts'. follow_border i0 i1 img i3 s prev_s pt pts = Some (img', pts') \<and>
     supp img' = supp img \<and> (\<forall>q\<in>set pts'. (fst q + 1, snd q + 1) \<in> supp img)"
proof -
  obtain img1 prev1 pts1 where s1: "supp img1 = supp img" "set pts1 \<subseteq> insert pt (set pts)"
    and eq: "follow_border i0 i1 img i3 s prev_s pt pts =
       (if stops i0 i1 img (i3, s) then Some (img1, pts1)
        else follow_border i0 i1 img1 (fst (gstep img (i3, s))) (snd (gstep img (i3, s))) prev1
               (mv pt (snd (gstep img (i3, s)) + 4)) pts1)"
    using assms(2) by (rule follow_border_step)
  have "(fst pt + 1, snd pt + 1) \<in> supp img" using assms(2,3) by (simp add: tstates_def)
  with s1 assms(1,4) eq show ?thesis by auto
qed

lemma follow_border_Some:
  assumes "stops i0 i1 img ((gstep img ^^ k) (i3, s))" "(i3, s) \<in> tstates img"
    "pt = (fst i3 - 1, snd i3 - 1)" "\<forall>q\<in>set pts. (fst q + 1, snd q + 1) \<in> supp img"
  shows "\<exists>img' pts'. follow_border i0 i1 img i3 s prev_s pt pts = Some (img', pts') \<and>
     supp img' = supp img \<and> (\<forall>q\<in>set pts'. (fst q + 1, snd q + 1) \<in> supp img)"
  using assms
proof (induction k arbitrary: img i3 s prev_s pt pts)
  case 0
  then have "stops i0 i1 img (i3, s)" by simp
  then show ?case using follow_border_stop "0.prems"(2-4) by blast
next
  case (Suc k)
  show ?case
  proof (cases "stops i0 i1 img (i3, s)")
    case True
    from follow_border_stop [OF True Suc.prems(2-4)] show ?thesis .
  next
    case False
    obtain img1 prev1 pts1 where s1: "supp img1 = supp img" "set pts1 \<subseteq> insert pt (set pts)"
      and eq: "follow_border i0 i1 img i3 s prev_s pt pts =
         (if stops i0 i1 img (i3, s) then Some (img1, pts1)
          else follow_border i0 i1 img1 (fst (gstep img (i3, s))) (snd (gstep img (i3, s))) prev1
                 (mv pt (snd (gstep img (i3, s)) + 4)) pts1)"
      using Suc.prems(2) by (rule follow_border_step)
    obtain i4 s4 where g: "gstep img (i3, s) = (i4, s4)" by (cases "gstep img (i3, s)")
    have g1: "gstep img1 = gstep img" and t1: "tstates img1 = tstates img"
      by (rule gstep_supp [OF s1(1)], rule tstates_supp [OF s1(1)])
    have "stops i0 i1 img1 ((gstep img1 ^^ k) (i4, s4))"
      using Suc.prems(1) g by (simp add: g1 stops_def funpow_Suc_right del: funpow.simps)
    moreover have "(i4, s4) \<in> tstates img1"
      using gstep_tstates [OF Suc.prems(2)] g t1 by simp
    moreover have "mv pt (s4 + 4) = (fst i4 - 1, snd i4 - 1)"
      using g Suc.prems(3) by (auto simp: gstep_eq mv_shift)
    moreover have "\<forall>q\<in>set pts1. (fst q + 1, snd q + 1) \<in> supp img1"
    proof
      fix q assume "q \<in> set pts1"
      then have "q = pt \<or> q \<in> set pts" using s1(2) by blast
      then show "(fst q + 1, snd q + 1) \<in> supp img1"
        using s1(1) Suc.prems(2-4) by (auto simp: tstates_def)
    qed
    ultimately obtain img' pts' where
      r: "follow_border i0 i1 img1 i4 s4 prev1 (mv pt (s4 + 4)) pts1 = Some (img', pts')"
      "supp img' = supp img1" "\<forall>q\<in>set pts'. (fst q + 1, snd q + 1) \<in> supp img1"
      using Suc.IH [of img1 i4 s4 "mv pt (s4 + 4)" pts1 prev1] by blast
    have "follow_border i0 i1 img i3 s prev_s pt pts = Some (img', pts')"
      using eq False r(1) by (simp add: g)
    with r(2,3) s1(1) show ?thesis by auto
  qed
qed

lemma stops_exists:
  assumes "(i0, d) \<in> tstates img"
  shows "\<exists>k. stops i0 (mv i0 d) img ((gstep img ^^ k) (i0, d))"
proof -
  obtain n where n: "n > 0" "(gstep img ^^ n) (i0, d) = (i0, d)"
    using inj_on_cycle [OF gstep_inj finite_tstates _ assms] gstep_tstates by blast
  obtain p b where pb: "(gstep img ^^ (n - 1)) (i0, d) = (p, b)"
    by (cases "(gstep img ^^ (n - 1)) (i0, d)")
  have "gstep img (p, b) = (i0, d)"
    using n pb by (metis Suc_diff_1 funpow.simps(2) o_apply)
  then have "mv p (ccw_search img p b) = i0"
    and d: "d = (ccw_search img p b mod 8 + 4) mod 8"
    by (simp_all add: gstep_eq)
  then have "p = mv i0 d" by (metis mv_back_mod mv_mod)
  then have "stops i0 (mv i0 d) img ((gstep img ^^ (n - 1)) (i0, d))"
    using pb \<open>gstep img (p, b) = (i0, d)\<close> by (simp add: stops_def)
  then show ?thesis by blast
qed

lemma scan_dirs_mem:
  "ss \<noteq> [] \<Longrightarrow> scan_dirs img p d ss \<in> set ss \<and>
     (lab img (mv p (scan_dirs img p d ss)) \<noteq> 0 \<or> scan_dirs img p d ss = last ss)"
  by (induction ss) auto

lemma fetch_contour_Some:
  assumes "i0 \<in> supp img" "pt = (fst i0 - 1, snd i0 - 1)"
  shows "\<exists>img' c. fetch_contour img i0 pt = Some (img', c) \<and> supp img' = supp img \<and>
     (\<forall>q\<in>set c. (fst q + 1, snd q + 1) \<in> supp img)"
proof -
  define s where "s = scan_dirs img i0 4 [3, 2, 1, 0, 7, 6, 5, 4]"
  have f: "fetch_contour img i0 pt =
     (if s = 4 then Some (set_lab img i0 (word_of_int (nbd OR -128)), [pt])
      else follow_border i0 (mv i0 s) img i0 s (int (s XOR 4)) pt [])"
    by (simp only: fetch_contour_def Let_def s_def)
  show ?thesis
  proof (cases "s = 4")
    case True
    then show ?thesis using f assms supp_set_lab [OF assms(1)] marks_nonzero by simp
  next
    case False
    have "s \<in> set [3, 2, 1, 0, 7, 6, 5, 4] \<and> (lab img (mv i0 s) \<noteq> 0 \<or> s = last [3, 2, 1, 0, 7, 6, 5, 4])"
      unfolding s_def by (rule scan_dirs_mem) simp
    then have "s < 8" "mv i0 s \<in> supp img" using False by (auto simp: supp_def)
    then have ts: "(i0, s) \<in> tstates img" using assms(1) by (simp add: tstates_def)
    then obtain k where "stops i0 (mv i0 s) img ((gstep img ^^ k) (i0, s))"
      using stops_exists by blast
    from follow_border_Some [OF this ts assms(2), of "[]" "int (s XOR 4)"] show ?thesis
      using f False by simp
  qed
qed

subsection \<open>The raster scan\<close>

lemma scan_contours_done: "H \<le> y \<Longrightarrow> scan_contours W H img x y prev lnbd cs = Some cs"
  by (subst scan_contours.simps) simp

lemma scan_contours_row_end:
  "\<not> H \<le> y \<Longrightarrow> W \<le> x \<Longrightarrow>
   scan_contours W H img x y prev lnbd cs = scan_contours W H img 1 (y + 1) 0 (0, y + 1) cs"
  by (subst scan_contours.simps) simp

lemma scan_contours_pixel:
  assumes "\<not> H \<le> y" "\<not> W \<le> x" "p = sint (lab img (x, y))"
  shows "scan_contours W H img x y prev lnbd cs =
    (if p = prev then scan_contours W H img (x + 1) y prev lnbd cs
     else if \<not> (prev = 0 \<and> p = 1) then
       (if p \<noteq> 0 \<or> prev < 1
        then scan_contours W H img (x + 1) y p (if p AND -2 \<noteq> 0 then (x, snd lnbd) else lnbd) cs
        else scan_contours W H img (x + 1) y p
               (if p AND -2 \<noteq> 0 then (x, snd (if prev AND -2 \<noteq> 0 then (x - 1, snd lnbd) else lnbd))
                else (if prev AND -2 \<noteq> 0 then (x - 1, snd lnbd) else lnbd)) cs)
     else if 0 < sint (lab img lnbd)
     then scan_contours W H img (x + 1) y p (if p AND -2 \<noteq> 0 then (x, snd lnbd) else lnbd) cs
     else (case fetch_contour img (x, y) (x - 1, y - 1) of
             None \<Rightarrow> None
           | Some (img', c) \<Rightarrow>
               scan_contours W H img' (x + 1) y (sint (lab img' (x, y))) lnbd (cs @ [c])))"
  by (subst scan_contours.simps) (simp only: assms if_False Let_def)

lemma scan_contours_Some:
  "supp img = supp img0 \<Longrightarrow> \<forall>c\<in>set cs. \<forall>q\<in>set c. (fst q + 1, snd q + 1) \<in> supp img0 \<Longrightarrow>
   \<exists>cs'. scan_contours W H img x y prev lnbd cs = Some cs' \<and> (\<exists>ds. cs' = cs @ ds) \<and>
     (\<forall>c\<in>set cs'. \<forall>q\<in>set c. (fst q + 1, snd q + 1) \<in> supp img0)"
proof (induction W H img x y prev lnbd cs rule: scan_contours.induct)
  case (1 W H img x y prev lnbd cs)
  show ?case
  proof (cases "H \<le> y")
    case True
    then show ?thesis using "1.prems"(2) by (simp add: scan_contours_done)
  next
    case ny: False
    show ?thesis
    proof (cases "W \<le> x")
      case True
      then show ?thesis using "1.IH"(1) [OF ny True "1.prems"] by (simp add: scan_contours_row_end ny)
    next
      case nx: False
      define p where "p = sint (lab img (x, y))"
      note unf = scan_contours_pixel [OF ny nx p_def, of prev lnbd cs]
      have R: "\<exists>cs'. scan_contours W H img (x + 1) y p (if p AND -2 \<noteq> 0 then (x, snd l) else l) cs = Some cs' \<and>
         (\<exists>ds. cs' = cs @ ds) \<and> (\<forall>c\<in>set cs'. \<forall>q\<in>set c. (fst q + 1, snd q + 1) \<in> supp img0)" for l
        using "1.IH"(2) [OF ny nx p_def "1.prems"] by blast
      show ?thesis
      proof (cases "p = prev")
        case True
        then show ?thesis using unf "1.IH"(3) [OF ny nx p_def refl True "1.prems"] by simp
      next
        case np: False
        show ?thesis
        proof (cases "\<not> (prev = 0 \<and> p = 1) \<or> 0 < sint (lab img lnbd)")
          case True
          then show ?thesis
            using unf np R [of lnbd] R [of "if prev AND -2 \<noteq> 0 then (x - 1, snd lnbd) else lnbd"]
            by auto
        next
          case False
          then have st: "prev = 0" "p = 1" "\<not> 0 < sint (lab img lnbd)" by simp_all
          then have "(x, y) \<in> supp img" by (auto simp: supp_def p_def)
          then obtain img' c where f: "fetch_contour img (x, y) (x - 1, y - 1) = Some (img', c)"
            and f1: "supp img' = supp img" and f2: "\<forall>q\<in>set c. (fst q + 1, snd q + 1) \<in> supp img"
            using fetch_contour_Some [of "(x, y)" img "(x - 1, y - 1)"] by auto
          have "\<exists>cs'. scan_contours W H img' (x + 1) y (sint (lab img' (x, y))) lnbd (cs @ [c]) = Some cs' \<and>
             (\<exists>ds. cs' = (cs @ [c]) @ ds) \<and> (\<forall>c\<in>set cs'. \<forall>q\<in>set c. (fst q + 1, snd q + 1) \<in> supp img0)"
            using "1.IH"(4) [OF ny nx p_def refl, of "(img', c)" img' c] np st f f1 f2 "1.prems" by auto
          then show ?thesis using unf np st f by auto
        qed
      qed
    qed
  qed
qed

subsection \<open>The padded working image\<close>

lemma thresh01_eq0 [simp]: "thresh_px 0 1 v = 0 \<longleftrightarrow> v = 0"
  by (simp add: thresh_px_def unat_gt_0)

lemma pad_row:
  "j < Suc (Suc (length r)) \<Longrightarrow>
   (0 # r @ [0]) ! j = (if j = 0 \<or> j = Suc (length r) then 0 else r ! (j - 1))"
  by (cases j) (auto simp: nth_append)

lemma pad_rows:
  "i < Suc (Suc (length src)) \<Longrightarrow>
   (z # map (\<lambda>r. 0 # r @ [0]) src @ [z]) ! i =
     (if i = 0 \<or> i = Suc (length src) then z else 0 # src ! (i - 1) @ [0])"
  by (cases i) (auto simp: nth_append)

lemma lab_row_zero: "(\<forall>v\<in>set (img ! nat y). v = 0) \<Longrightarrow> lab img (x, y) = 0"
  by (auto simp: lab_def)

lemma lab_pad_nat:
  "lab (threshold_binary 0 1 (copyMakeBorder src)) (int j, int i) \<noteq> 0 \<longleftrightarrow>
   (0 < i \<and> 0 < j \<and> lab src (int j - 1, int i - 1) \<noteq> 0)"
proof -
  define z :: "pixel list" where "z = replicate (row_width src + 2) 0"
  have T: "threshold_binary 0 1 (copyMakeBorder src) =
      map (map (thresh_px 0 1)) (z # map (\<lambda>r. 0 # r @ [0]) src @ [z])"
    by (simp only: threshold_binary_def copyMakeBorder_def Let_def z_def)
  show ?thesis
  proof (cases "i < Suc (Suc (length src))")
    case False
    then show ?thesis by (simp add: T lab_def)
  next
    case True
    note r = pad_rows [OF True, of z]
    show ?thesis
    proof (cases "i = 0 \<or> i = Suc (length src)")
      case True
      have li: "i < length (z # map (\<lambda>r. 0 # r @ [0]) src @ [z])"
        using \<open>i < Suc (Suc (length src))\<close> by simp
      have "threshold_binary 0 1 (copyMakeBorder src) ! nat (int i) = map (thresh_px 0 1) z"
        unfolding T nat_int nth_map [OF li] r using True by (simp only: if_True)
      then have "lab (threshold_binary 0 1 (copyMakeBorder src)) (int j, int i) = 0"
        by (intro lab_row_zero) (simp add: z_def thresh_px_def)
      moreover have "lab src (int j - 1, int i - 1) = 0" if "0 < i"
        using True that by (auto simp: lab_def)
      ultimately show ?thesis by auto
    next
      case False
      then obtain k where k: "i = Suc k" "k < length src"
        using \<open>i < Suc (Suc (length src))\<close> by (cases i) auto
      have li: "i < length (z # map (\<lambda>r. 0 # r @ [0]) src @ [z])"
        using k by simp
      have Trow: "threshold_binary 0 1 (copyMakeBorder src) ! i = map (thresh_px 0 1) (0 # src ! k @ [0])"
        unfolding T nth_map [OF li] r using False k by simp
      have lT: "length (threshold_binary 0 1 (copyMakeBorder src)) = Suc (Suc (length src))"
        by (simp add: T)
      have ik: "nat (int i - 1) = k" "0 < i" "int i - 1 < int (length src)" using k by simp_all
      show ?thesis
      proof (cases "j < Suc (Suc (length (src ! k)))")
        case False
        then show ?thesis using k(2) ik by (simp add: lab_def Trow lT)
      next
        case True
        show ?thesis using k(2) ik pad_row [OF True]
          by (auto simp: lab_def Trow lT nat_diff_distrib nth_append)
      qed
    qed
  qed
qed

subsection \<open>findContours\<close>

lemma lab_pad:
  "lab (threshold_binary 0 1 (copyMakeBorder src)) (x + 1, y + 1) \<noteq> 0 \<longleftrightarrow> lab src (x, y) \<noteq> 0"
proof (cases "x + 1 < 0 \<or> y + 1 < 0")
  case True
  then show ?thesis by (auto simp: lab_def)
next
  case False
  then obtain i j where ij: "x + 1 = int j" "y + 1 = int i"
    by (metis nonneg_int_cases not_less)
  then have e: "(x + 1, y + 1) = (int j, int i)" "(x, y) = (int j - 1, int i - 1)" by simp_all
  have "lab src (int j - 1, int i - 1) \<noteq> 0 \<Longrightarrow> 0 < i \<and> 0 < j"
    by (simp add: lab_def split: if_splits)
  then show ?thesis unfolding e using lab_pad_nat [of src j i] by blast
qed

lemma supp_pad: "(fst q + 1, snd q + 1) \<in> supp (threshold_binary 0 1 (copyMakeBorder src)) \<longleftrightarrow> lab src q \<noteq> 0"
  by (cases q) (simp add: supp_def lab_pad)

lemma findContours_Some:
  "\<exists>cs. findContours src = Some cs \<and> (\<forall>c\<in>set cs. \<forall>q\<in>set c. lab src q \<noteq> 0)"
proof -
  let ?img = "threshold_binary 0 1 (copyMakeBorder src)"
  obtain cs where "scan_contours (int (row_width ?img) - 1) (int (length ?img) - 1) ?img 1 1 0 (0, 1) [] = Some cs"
    "\<forall>c\<in>set cs. \<forall>q\<in>set c. (fst q + 1, snd q + 1) \<in> supp ?img"
    using scan_contours_Some [of ?img ?img "[]" "int (row_width ?img) - 1" "int (length ?img) - 1"
        1 1 0 "(0, 1)"] by auto
  then show ?thesis by (auto simp: findContours_def supp_pad)
qed

lemma scan_contours_blank:
  "\<forall>q. lab img q = 0 \<Longrightarrow> prev = 0 \<Longrightarrow> scan_contours W H img x y prev lnbd cs = Some cs"
proof (induction W H img x y prev lnbd cs rule: scan_contours.induct)
  case (1 W H img x y prev lnbd cs)
  show ?case
  proof (cases "H \<le> y")
    case True
    then show ?thesis by (simp add: scan_contours_done)
  next
    case ny: False
    show ?thesis
    proof (cases "W \<le> x")
      case True
      then show ?thesis using "1.IH"(1) [OF ny True] "1.prems"(1) by (simp add: scan_contours_row_end ny)
    next
      case nx: False
      have p: "prev = sint (lab img (x, y))" using "1.prems" by simp
      then show ?thesis using scan_contours_pixel [OF ny nx p] "1.IH"(3) [OF ny nx p refl refl] "1.prems"
        by simp
    qed
  qed
qed

lemma findContours_no_foreground: "\<forall>q. lab src q = 0 \<Longrightarrow> findContours src = Some []"
proof -
  assume z: "\<forall>q. lab src q = 0"
  let ?img = "threshold_binary 0 1 (copyMakeBorder src)"
  have "\<forall>q. lab ?img q = 0"
  proof
    fix q :: point
    show "lab ?img q = 0" using lab_pad [of src "fst q - 1" "snd q - 1"] z by simp
  qed
  then show ?thesis by (simp add: findContours_def scan_contours_blank)
qed

lemma scan_contours_finds:
  "(\<forall>q. lab img q = 0 \<or> lab img q = 1) \<Longrightarrow> (\<forall>q\<in>supp img. 0 < fst q) \<Longrightarrow>
   (\<forall>q\<in>supp img. fst q < W \<longrightarrow> y < snd q \<or> (snd q = y \<and> x \<le> fst q)) \<Longrightarrow>
   q0 \<in> supp img \<Longrightarrow> fst q0 < W \<Longrightarrow> snd q0 < H \<Longrightarrow> prev = 0 \<Longrightarrow> lnbd = (0, y) \<Longrightarrow>
   \<forall>c\<in>set cs. \<forall>q\<in>set c. (fst q + 1, snd q + 1) \<in> supp img \<Longrightarrow>
   \<exists>cs'. scan_contours W H img x y prev lnbd cs = Some cs' \<and> cs' \<noteq> []"
proof (induction W H img x y prev lnbd cs rule: scan_contours.induct)
  case (1 W H img x y prev lnbd cs)
  have ny: "\<not> H \<le> y" using "1.prems"(3-6) by force
  show ?case
  proof (cases "W \<le> x")
    case True
    have "\<forall>q\<in>supp img. fst q < W \<longrightarrow> y + 1 < snd q \<or> (snd q = y + 1 \<and> 1 \<le> fst q)"
      using "1.prems"(2,3) True by fastforce
    then show ?thesis
      using "1.IH"(1) [OF ny True "1.prems"(1,2) _ "1.prems"(4-6)] "1.prems"(9)
      by (simp add: scan_contours_row_end [OF ny True])
  next
    case nx: False
    define p where "p = sint (lab img (x, y))"
    note unf = scan_contours_pixel [OF ny nx p_def, of prev lnbd cs]
    show ?thesis
    proof (cases "(x, y) \<in> supp img")
      case False
      then have p0: "p = prev" using "1.prems"(7) by (simp add: p_def supp_def)
      have "\<forall>q\<in>supp img. fst q < W \<longrightarrow> y < snd q \<or> (snd q = y \<and> x + 1 \<le> fst q)"
      proof (intro ballI impI)
        fix q assume q: "q \<in> supp img" "fst q < W"
        then have "y < snd q \<or> snd q = y \<and> x \<le> fst q" using "1.prems"(3) by blast
        moreover have "q \<noteq> (x, y)" using q False by auto
        ultimately show "y < snd q \<or> (snd q = y \<and> x + 1 \<le> fst q)" by (cases q) auto
      qed
      then show ?thesis
        using unf p0 "1.IH"(3) [OF ny nx p_def refl p0 "1.prems"(1,2) _ "1.prems"(4-9)] by simp
    next
      case True
      then have p1: "p = 1" using "1.prems"(1) [rule_format, of "(x, y)"] by (auto simp: p_def supp_def)
      have "(0, y) \<notin> supp img" using "1.prems"(2) by fastforce
      then have l0: "\<not> 0 < sint (lab img lnbd)" using "1.prems"(8) by (simp add: supp_def)
      obtain img' c where f: "fetch_contour img (x, y) (x - 1, y - 1) = Some (img', c)"
        and f1: "supp img' = supp img" and f2: "\<forall>q\<in>set c. (fst q + 1, snd q + 1) \<in> supp img"
        using fetch_contour_Some [OF True, of "(x - 1, y - 1)"] by auto
      obtain cs' where "scan_contours W H img' (x + 1) y (sint (lab img' (x, y))) lnbd (cs @ [c]) = Some cs'"
        "\<exists>ds. cs' = (cs @ [c]) @ ds"
        using scan_contours_Some [OF f1, of "cs @ [c]" W H "x + 1" y "sint (lab img' (x, y))" lnbd]
          f2 "1.prems"(9) by auto
      then show ?thesis using unf p1 "1.prems"(7) l0 f by auto
    qed
  qed
qed

lemma lab_threshold01: "lab (threshold_binary 0 1 img) q = 0 \<or> lab (threshold_binary 0 1 img) q = 1"
proof (cases q)
  case (Pair a b)
  show ?thesis
  proof (cases "0 \<le> b \<and> b < int (length img)")
    case True
    then have "nat b < length img" by (simp add: nat_less_iff)
    then show ?thesis by (auto simp: Pair lab_def threshold_binary_def thresh_px_def split: if_splits)
  next
    case False
    then show ?thesis by (auto simp: Pair lab_def threshold_binary_def)
  qed
qed

lemma pad_dims:
  "length (threshold_binary 0 1 (copyMakeBorder src)) = length src + 2"
  "row_width (threshold_binary 0 1 (copyMakeBorder src)) = row_width src + 2"
  by (simp_all add: threshold_binary_def copyMakeBorder_def Let_def row_width_def)

lemma supp_pad_pos:
  "q \<in> supp (threshold_binary 0 1 (copyMakeBorder src)) \<Longrightarrow> 0 < fst q \<and> 0 < snd q"
proof -
  assume "q \<in> supp (threshold_binary 0 1 (copyMakeBorder src))"
  then have "lab src (fst q - 1, snd q - 1) \<noteq> 0" using supp_pad [of "(fst q - 1, snd q - 1)" src] by simp
  then show ?thesis by (simp add: lab_def split: if_splits)
qed

lemma findContours_nonempty:
  assumes "wf_image h w src" "lab src q \<noteq> 0"
  shows "\<exists>cs. findContours src = Some cs \<and> cs \<noteq> []"
proof -
  let ?T = "threshold_binary 0 1 (copyMakeBorder src)"
  obtain x y where q: "q = (x, y)" by (cases q)
  have b: "0 \<le> y \<and> y < int (length src) \<and> 0 \<le> x \<and> x < int (length (src ! nat y))"
    using assms(2) q lab_nonzero_bounds by simp
  then have h: "0 < h" "length src = h" "row_width src = w" "length (src ! nat y) = w"
    using assms(1) by (auto simp: wf_image_def intro!: wf_image_row_width [OF assms(1)])
  have "(x + 1, y + 1) \<in> supp ?T" using supp_pad [of q src] assms(2) q by simp
  moreover have "\<forall>q\<in>supp ?T. 0 < fst q" using supp_pad_pos by blast
  moreover have "\<forall>q\<in>supp ?T. fst q < int (row_width ?T) - 1 \<longrightarrow> 1 < snd q \<or> (snd q = 1 \<and> 1 \<le> fst q)"
    using supp_pad_pos by fastforce
  ultimately obtain cs where "scan_contours (int (row_width ?T) - 1) (int (length ?T) - 1) ?T 1 1 0 (0, 1) [] = Some cs"
    "cs \<noteq> []"
    using scan_contours_finds [of ?T "int (row_width ?T) - 1" 1 1 "(x + 1, y + 1)" "int (length ?T) - 1" 0 "(0, 1)" "[]"]
      lab_threshold01 b h by (auto simp: pad_dims)
  then show ?thesis by (simp add: findContours_def)
qed

subsection \<open>Properties of \<open>cv2.findContours\<close>\<close>

lemma cv_findContours_Some:
  "findContours src = Some (cv_findContours src) \<and> (\<forall>c\<in>set (cv_findContours src). \<forall>q\<in>set c. lab src q \<noteq> 0)"
  using findContours_Some [of src] by (auto simp: cv_findContours_def)

lemma cv_findContours_in_frame:
  assumes "wf_image h w src" "c \<in> set (cv_findContours src)" "q \<in> set c"
  shows "0 \<le> fst q \<and> fst q < int w \<and> 0 \<le> snd q \<and> snd q < int h"
proof -
  have "lab src q \<noteq> 0" using cv_findContours_Some [of src] assms(2,3) by auto
  then have b: "0 \<le> snd q \<and> snd q < int (length src) \<and> 0 \<le> fst q \<and> fst q < int (length (src ! nat (snd q)))"
    using lab_nonzero_bounds [of src "fst q" "snd q"] by simp
  have h: "length src = h" using assms(1) by (simp add: wf_image_def)
  have "nat (snd q) < h" using b h by linarith
  then have "length (src ! nat (snd q)) = w" using wf_image_nth [OF assms(1)] by simp
  with b h show ?thesis by simp
qed

text \<open>
  C25: \<open>cv2.findContours\<close> returns on every mask: the raster scan ends and every border it
  starts to follow closes, so the contour list line 74 unpacks is OpenCV's result.
\<close>

theorem findContours_total: "findContours FrameThresh = Some (cv_findContours FrameThresh)"
  using cv_findContours_Some by blast

text \<open>
  C26: every point of every contour that line 74 receives from \<open>cv2.findContours\<close> is a
  foreground pixel of the mask: it lies inside the frame and the mask is non-zero there.
\<close>

theorem findContours_on_mask:
  assumes "c \<in> set (cv_findContours src)" "q \<in> set c"
  shows "lab src q \<noteq> 0"
  using cv_findContours_Some [of src] assms by auto

theorem findContours_on_mask_witness:
  "[(1, 0)] \<in> set (cv_findContours [[0, 255]]) \<and> (1, 0) \<in> set [(1::int, 0::int)] \<and>
   lab [[0, 255]] (1, 0) \<noteq> 0"
proof -
  have e: "cv_findContours [[0, 255]] = [[(1, 0)]]"
    by (simp add: cv_findContours_def findContours_example)
  show ?thesis using findContours_on_mask [of "[(1, 0)]" "[[0, 255]]" "(1, 0)"] by (simp add: e)
qed

text \<open>
  C27: a mask with a foreground pixel yields at least one contour: the scan reaches the
  first foreground pixel in raster order with \<open>prev = 0\<close> and \<open>lnbd\<close> at the row's
  zero border, so it follows that border.
\<close>

theorem findContours_finds:
  assumes "wf_image h w src" "lab src q \<noteq> 0"
  shows "cv_findContours src \<noteq> []"
  using findContours_nonempty [OF assms] by (auto simp: cv_findContours_def)

theorem findContours_finds_witness:
  "wf_image 1 2 [[0, 255]] \<and> lab [[0, 255]] (1, 0) \<noteq> 0 \<and> cv_findContours [[0, 255]] \<noteq> []"
  using findContours_finds [of 1 2 "[[0, 255]]" "(1, 0)"] by (simp add: wf_image_def lab_def)

text \<open>
  C28: a blank mask has no contour: \<open>cv2.findContours\<close> on an all-zero frame of any
  size returns the empty list.
\<close>

theorem findContours_blank: "cv_findContours (replicate h (replicate w 0)) = []"
proof -
  have "\<forall>q. lab (replicate h (replicate w (0::pixel))) q = 0" by (auto simp: lab_def)
  then show ?thesis by (simp add: cv_findContours_def findContours_no_foreground)
qed

text \<open>
  C29: the bounding rectangle (\<open>cv2.boundingRect\<close>, line 95) of every contour that
  \<open>cv2.findContours\<close> returns on an \<open>h \<times> w\<close> frame lies inside the frame.
\<close>

theorem findContours_bbox_in_frame:
  assumes "wf_image h w src" "c \<in> set (cv_findContours src)" "c \<noteq> []"
    "boundingRect c = (x, y, bw, bh)"
  shows "0 \<le> x \<and> x + bw \<le> int w \<and> 0 \<le> y \<and> y + bh \<le> int h"
proof -
  have pts: "0 \<le> fst q \<and> fst q < int w \<and> 0 \<le> snd q \<and> snd q < int h" if "q \<in> set c" for q
    using cv_findContours_in_frame [OF assms(1,2) that] .
  obtain p ps where c: "c = p # ps" using assms(3) by (cases c) auto
  have x: "x = Min (fst ` set c)" "bw = Max (fst ` set c) - Min (fst ` set c) + 1"
    and y: "y = Min (snd ` set c)" "bh = Max (snd ` set c) - Min (snd ` set c) + 1"
    using assms(4) by (simp_all add: c boundingRect_Cons Let_def)
  have "0 \<le> Min (fst ` set c)" "Max (fst ` set c) < int w"
    "0 \<le> Min (snd ` set c)" "Max (snd ` set c) < int h"
    using pts by (simp_all add: c)
  then show ?thesis using x y by simp
qed

theorem findContours_bbox_in_frame_witness:
  "wf_image 2 2 [[255, 255], [255, 255]] \<and>
   [(0, 0), (0, 1), (1, 1), (1, 0)] \<in> set (cv_findContours [[255, 255], [255, 255]]) \<and>
   boundingRect [(0, 0), (0, 1), (1, 1), (1, 0)] = (0, 0, 2, 2) \<and>
   0 \<le> (0::int) \<and> 0 + 2 \<le> int 2 \<and> 0 \<le> (0::int) \<and> 0 + 2 \<le> int 2"
proof -
  have e: "cv_findContours [[255, 255], [255, 255]] = [[(0, 0), (0, 1), (1, 1), (1, 0)]]"
    by (simp add: cv_findContours_def findContours_square)
  show ?thesis
    using findContours_bbox_in_frame [of 2 2 "[[255, 255], [255, 255]]" "[(0, 0), (0, 1), (1, 1), (1, 0)]" 0 0 2 2]
    by (simp add: e wf_image_def boundingRect_def)
qed

end
