(* ===== verification/RectangleContour.thy ===== *)
theory RectangleContour
  imports ContourTracing Counting
begin

text \<open>
  What \<open>cv2.findContours\<close> (theory \<open>FindContours\<close>) returns for a mask whose foreground
  is one filled axis-parallel rectangle, and what the area guard of line 87 makes of it.
  The tracer is followed pixel by pixel in the padded image: the start at the top-left
  pixel (\<open>fetch_contour\<close>), the left column down, the bottom row right, the right column
  up, the top row left to the second pixel, where \<open>follow_border\<close> stops; the raster
  scan (\<open>scan_contours\<close>) finds no further start. The contour is the four corners, and
  \<open>cv2.contourArea\<close> of it is the area of the polygon through the centres of the
  border pixels: a block of \<open>a \<times> b\<close> pixels has area \<open>(a - 1) * (b - 1)\<close>.

  \<open>inR\<close>, \<open>traced\<close> and \<open>pos\<close> are proof devices, not code: the rectangle in padded
  coordinates, the working image during the trace (the pixels of \<open>U\<close> carry one of the
  tracer's marks \<open>nbd\<close> or \<open>nbd | -128\<close>, the rest of the rectangle is 1, the outside 0),
  and the \<open>k\<close>-th pixel of a straight run.
\<close>

definition inR :: "int \<Rightarrow> int \<Rightarrow> int \<Rightarrow> int \<Rightarrow> point \<Rightarrow> bool" where
  "inR X0 Y0 X1 Y1 q \<longleftrightarrow> X0 \<le> fst q \<and> fst q \<le> X1 \<and> Y0 \<le> snd q \<and> snd q \<le> Y1"

definition traced :: "int \<Rightarrow> int \<Rightarrow> int \<Rightarrow> int \<Rightarrow> pixel image \<Rightarrow> point set \<Rightarrow> bool" where
  "traced X0 Y0 X1 Y1 img U \<longleftrightarrow> U \<subseteq> Collect (inR X0 Y0 X1 Y1) \<and>
     (\<forall>q. if q \<in> U then lab img q = word_of_int (nbd OR -128) \<or> lab img q = word_of_int nbd
          else lab img q = (if inR X0 Y0 X1 Y1 q then 1 else 0))"

text \<open>The \<open>k\<close>-th pixel from \<open>p\<close> in direction \<open>r\<close>.\<close>

definition pos :: "point \<Rightarrow> nat \<Rightarrow> nat \<Rightarrow> point" where
  "pos p r k = (fst p + int k * fst (code_delta r), snd p + int k * snd (code_delta r))"

subsection \<open>The working image during the trace\<close>


lemma traced_nonzero: "traced X0 Y0 X1 Y1 img U \<Longrightarrow> lab img q \<noteq> 0 \<longleftrightarrow> inR X0 Y0 X1 Y1 q"
  using marks_nonzero unfolding traced_def by (metis (full_types) mem_Collect_eq subsetD zero_neq_one)

lemma traced_fresh: "traced X0 Y0 X1 Y1 img U \<Longrightarrow> inR X0 Y0 X1 Y1 q \<Longrightarrow> q \<notin> U \<Longrightarrow> lab img q = 1"
  unfolding traced_def by metis

lemma traced_set:
  assumes "traced X0 Y0 X1 Y1 img U" "inR X0 Y0 X1 Y1 i" "lab img i \<noteq> 0"
    "v = word_of_int (nbd OR -128) \<or> v = word_of_int nbd"
  shows "traced X0 Y0 X1 Y1 (set_lab img i v) (insert i U)"
  using assms(1,2,4) unfolding traced_def lab_set_lab [OF assms(3)] by auto

lemma sint_marks: "sint (word_of_int (nbd OR -128) :: pixel) = -126" "sint (word_of_int nbd :: pixel) = 2"
  by (simp_all add: nbd_def)

lemma scan_dirs_first:
  assumes "a \<le> k" "k < n" "\<forall>j. a \<le> j \<and> j < k \<longrightarrow> lab img (mv p j) = 0" "lab img (mv p k) \<noteq> 0"
  shows "scan_dirs img p d [a..<n] = k"
proof -
  have an: "a < n" using assms(1,2) by simp
  note u = scan_dirs_upt [OF an, of img p d]
  define r where "r = scan_dirs img p d [a..<n]"
  have r1: "a \<le> r" "r < n" "\<forall>j. a \<le> j \<and> j < r \<longrightarrow> lab img (mv p j) = 0"
    "lab img (mv p r) \<noteq> 0 \<or> r = n - 1"
    using u by (simp_all add: r_def)
  have "\<not> k < r" using r1(3) assms(1,4) by auto
  moreover have "\<not> r < k"
  proof
    assume "r < k"
    then have "lab img (mv p r) = 0" using assms(3) r1(1) by simp
    with r1(4) have "r = n - 1" by simp
    with \<open>r < k\<close> assms(2) show False by simp
  qed
  ultimately show ?thesis by (simp add: r_def)
qed

subsection \<open>The counter-clockwise search on the rectangle\<close>

lemma search_rect:
  assumes "traced X0 Y0 X1 Y1 img U"
    "Suc s \<le> k" "k < 16" "\<forall>j\<in>set [Suc s..<k]. \<not> inR X0 Y0 X1 Y1 (mv p j)" "inR X0 Y0 X1 Y1 (mv p k)"
  shows "scan_dirs img p s [Suc s..<16] = k"
proof -
  have nz: "lab img q \<noteq> 0 \<longleftrightarrow> inR X0 Y0 X1 Y1 q" for q
    using traced_nonzero [OF assms(1)] .
  show ?thesis
  proof (rule scan_dirs_first)
    show "\<forall>j. Suc s \<le> j \<and> j < k \<longrightarrow> lab img (mv p j) = 0"
    proof (intro allI impI)
      fix j assume "Suc s \<le> j \<and> j < k"
      then have "\<not> inR X0 Y0 X1 Y1 (mv p j)" using assms(4) by simp
      then show "lab img (mv p j) = 0" using nz [of "mv p j"] by simp
    qed
    show "lab img (mv p k) \<noteq> 0" using nz [of "mv p k"] assms(5) by simp
  qed (use assms(2,3) in simp_all)
qed

lemma search_left:
  assumes "traced X0 Y0 X1 Y1 img U"
    "X0 < X1" "Y0 \<le> y" "y < Y1" "s = 0 \<and> y = Y0 \<or> s = 2"
  shows "scan_dirs img (X0, y) s [Suc s..<16] = 6"
  using assms(5)
proof
  assume "s = 0 \<and> y = Y0"
  then show ?thesis using assms(2-4)
    by (intro search_rect [OF assms(1)]) (auto simp: inR_def mv_def code_delta_def upt_rec)
next
  assume "s = 2"
  then show ?thesis using assms(2-4)
    by (intro search_rect [OF assms(1)]) (auto simp: inR_def mv_def code_delta_def upt_rec)
qed

lemma search_bottom_left:
  assumes "traced X0 Y0 X1 Y1 img U"
    "X0 < X1" "Y0 < Y1"
  shows "scan_dirs img (X0, Y1) 2 [Suc 2..<16] = 8"
  using assms(2-) by (intro search_rect [OF assms(1)]) (auto simp: inR_def mv_def code_delta_def upt_rec)

lemma search_bottom:
  assumes "traced X0 Y0 X1 Y1 img U"
    "X0 < x" "x < X1" "Y0 < Y1"
  shows "scan_dirs img (x, Y1) 4 [Suc 4..<16] = 8"
  using assms(2-) by (intro search_rect [OF assms(1)]) (auto simp: inR_def mv_def code_delta_def upt_rec)

lemma search_bottom_right:
  assumes "traced X0 Y0 X1 Y1 img U"
    "X0 < X1" "Y0 < Y1"
  shows "scan_dirs img (X1, Y1) 4 [Suc 4..<16] = 10"
  using assms(2-) by (intro search_rect [OF assms(1)]) (auto simp: inR_def mv_def code_delta_def upt_rec)

lemma search_right:
  assumes "traced X0 Y0 X1 Y1 img U"
    "X0 < X1" "Y0 < y" "y < Y1"
  shows "scan_dirs img (X1, y) 6 [Suc 6..<16] = 10"
  using assms(2-) by (intro search_rect [OF assms(1)]) (auto simp: inR_def mv_def code_delta_def upt_rec)

lemma search_top_right:
  assumes "traced X0 Y0 X1 Y1 img U"
    "X0 < X1" "Y0 < Y1"
  shows "scan_dirs img (X1, Y0) 6 [Suc 6..<16] = 12"
  using assms(2-) by (intro search_rect [OF assms(1)]) (auto simp: inR_def mv_def code_delta_def upt_rec)

lemma search_top:
  assumes "traced X0 Y0 X1 Y1 img U"
    "X0 < x" "x < X1" "Y0 < Y1"
  shows "scan_dirs img (x, Y0) 0 [Suc 0..<16] = 4"
  using assms(2-) by (intro search_rect [OF assms(1)]) (auto simp: inR_def mv_def code_delta_def upt_rec)

subsection \<open>One turn and a straight run\<close>

lemma rect_step:
  assumes T: "traced X0 Y0 X1 Y1 img U"
    and i3: "inR X0 Y0 X1 Y1 i3" "i3 \<notin> U" and s: "s < 15"
    and r: "scan_dirs img i3 s [Suc s..<16] = r"
  shows "\<exists>img'. traced X0 Y0 X1 Y1 img' (insert i3 U) \<and>
     follow_border i0 i1 img i3 s prev pt pts =
       (if mv i3 r = i0 \<and> i3 = i1
        then Some (img', fst (if int (r mod 8) \<noteq> prev then (pts @ [pt], int (r mod 8)) else (pts, prev)))
        else follow_border i0 i1 img' (mv i3 r) ((r mod 8 + 4) mod 8)
               (snd (if int (r mod 8) \<noteq> prev then (pts @ [pt], int (r mod 8)) else (pts, prev)))
               (mv pt (r mod 8))
               (fst (if int (r mod 8) \<noteq> prev then (pts @ [pt], int (r mod 8)) else (pts, prev))))"
proof -
  have l1: "lab img i3 = 1" using traced_fresh [OF T i3] .
  have nz: "lab img i3 \<noteq> 0" using l1 by simp
  define img' where "img' =
    (if r mod 8 \<noteq> 0 \<and> r mod 8 - 1 < s then set_lab img i3 (word_of_int (nbd OR -128))
     else if sint (lab img i3) = 1 then set_lab img i3 (word_of_int nbd) else img)"
  define pp where "pp = (if int (r mod 8) \<noteq> prev then (pts @ [pt], int (r mod 8)) else (pts, prev))"
  have T': "traced X0 Y0 X1 Y1 img' (insert i3 U)"
    unfolding img'_def using traced_set [OF T i3(1) nz] by (simp add: l1)
  have rr: "scan_dirs img i3 (min s 15) [Suc (min s 15)..<16] = r" using s r by simp
  have f: "follow_border i0 i1 img i3 s prev pt pts =
     (if mv i3 r = i0 \<and> i3 = i1 then Some (img', fst pp)
      else follow_border i0 i1 img' (mv i3 r) ((r mod 8 + 4) mod 8) (snd pp) (mv pt (r mod 8)) (fst pp))"
    by (subst follow_border.simps)
      (simp only: Let_def rr img'_def [symmetric] pp_def [symmetric] case_prod_unfold)
  show ?thesis using T' f unfolding pp_def by blast
qed

lemma pos_0 [simp]: "pos p r 0 = p"
  by (simp add: pos_def)

lemma mv_pos: "mv (pos p r k) r = pos p r (Suc k)"
  by (simp add: pos_def mv_def algebra_simps)

lemma code_delta_nonzero: "code_delta r \<noteq> (0, 0)"
proof -
  have "r mod 8 < 8" by simp
  then have "r mod 8 \<in> {0, 1, 2, 3, 4, 5, 6, 7}" by auto
  then show ?thesis by (auto simp: code_delta_def)
qed

lemma pos_inj: "pos p r j = pos p r k \<Longrightarrow> j = k"
  using code_delta_nonzero [of r] by (cases "code_delta r") (auto simp: pos_def)

text \<open>A straight run: \<open>n\<close> fresh pixels in direction \<open>r\<close>, no corner, so no point written.\<close>

lemma rect_run:
  assumes T: "traced X0 Y0 X1 Y1 img U"
    and scan: "\<And>k img U'. k < n \<Longrightarrow> traced X0 Y0 X1 Y1 img U' \<Longrightarrow> scan_dirs img (pos p r k) s [Suc s..<16] = r"
    and inside: "\<forall>k<n. inR X0 Y0 X1 Y1 (pos p r k) \<and> pos p r k \<notin> U"
    and turn: "s < 8" "(r mod 8 + 4) mod 8 = s" "prev = int (r mod 8)"
    and go: "\<forall>k<n. \<not> (pos p r (Suc k) = i0 \<and> pos p r k = i1)"
  shows "\<exists>img'. traced X0 Y0 X1 Y1 img' (U \<union> pos p r ` {..<n}) \<and>
     follow_border i0 i1 img p s prev pt pts = follow_border i0 i1 img' (pos p r n) s prev (pos pt r n) pts"
  using scan inside go
proof (induction n)
  case 0
  show ?case using T by auto
next
  case (Suc n)
  obtain img1 where T1: "traced X0 Y0 X1 Y1 img1 (U \<union> pos p r ` {..<n})"
      and f1: "follow_border i0 i1 img p s prev pt pts = follow_border i0 i1 img1 (pos p r n) s prev (pos pt r n) pts"
  proof -
    have "\<exists>img1. traced X0 Y0 X1 Y1 img1 (U \<union> pos p r ` {..<n}) \<and>
      follow_border i0 i1 img p s prev pt pts = follow_border i0 i1 img1 (pos p r n) s prev (pos pt r n) pts"
    proof (rule Suc.IH)
      show "scan_dirs img' (pos p r k) s [Suc s..<16] = r"
        if "k < n" "traced X0 Y0 X1 Y1 img' U'" for k img' U' using Suc.prems(1) that by simp
      show "\<forall>k<n. inR X0 Y0 X1 Y1 (pos p r k) \<and> pos p r k \<notin> U" using Suc.prems(2) by simp
      show "\<forall>k<n. \<not> (pos p r (Suc k) = i0 \<and> pos p r k = i1)" using Suc.prems(3) by simp
    qed
    then show ?thesis using that by blast
  qed
  have fresh: "inR X0 Y0 X1 Y1 (pos p r n)" "pos p r n \<notin> U \<union> pos p r ` {..<n}"
    using Suc.prems(2) pos_inj [of p r n] by auto
  have sc: "scan_dirs img1 (pos p r n) s [Suc s..<16] = r" using Suc.prems(1) [OF _ T1] by simp
  obtain img2 where T2: "traced X0 Y0 X1 Y1 img2 (insert (pos p r n) (U \<union> pos p r ` {..<n}))"
      and f2: "follow_border i0 i1 img1 (pos p r n) s prev (pos pt r n) pts =
                 (if mv (pos p r n) r = i0 \<and> pos p r n = i1 then Some (img2, pts)
                  else follow_border i0 i1 img2 (mv (pos p r n) r) s prev (mv (pos pt r n) r) pts)"
  proof -
    have "\<exists>img2. traced X0 Y0 X1 Y1 img2 (insert (pos p r n) (U \<union> pos p r ` {..<n})) \<and>
      follow_border i0 i1 img1 (pos p r n) s prev (pos pt r n) pts =
                 (if mv (pos p r n) r = i0 \<and> pos p r n = i1 then Some (img2, pts)
                  else follow_border i0 i1 img2 (mv (pos p r n) r) s prev (mv (pos pt r n) r) pts)"
      using rect_step [OF T1 fresh _ sc, of i0 i1 prev "pos pt r n" pts] turn(1) unfolding turn(3)
      by (simp only: turn(2) simp_thms if_False fst_conv snd_conv mv_mod)
    then show ?thesis using that by blast
  qed
  have "insert (pos p r n) (U \<union> pos p r ` {..<n}) = U \<union> pos p r ` {..<Suc n}"
    by (auto simp: lessThan_Suc)
  moreover have "follow_border i0 i1 img p s prev pt pts =
                   follow_border i0 i1 img2 (pos p r (Suc n)) s prev (pos pt r (Suc n)) pts"
    using f1 f2 Suc.prems(3) by (simp add: mv_pos)
  ultimately show ?case using T2 by metis
qed

lemma pos_memI:
  "0 \<le> k \<Longrightarrow> k < int n \<Longrightarrow> q = (fst p + k * fst (code_delta r), snd p + k * snd (code_delta r)) \<Longrightarrow>
   q \<in> pos p r ` {..<n}"
  by (rule image_eqI [where x = "nat k"]) (simp_all add: pos_def)

lemma code_delta_sides:
  "code_delta 0 = (1, 0)" "code_delta 4 = (-1, 0)" "code_delta 6 = (0, 1)" "code_delta 2 = (0, -1)"
  "code_delta 8 = (1, 0)" "code_delta 12 = (-1, 0)" "code_delta 10 = (0, -1)"
  by (simp_all add: code_delta_def)

lemma pos_down: "pos (x, y) 6 ` {..<n} = {q. fst q = x \<and> y \<le> snd q \<and> snd q < y + int n}"
proof (rule set_eqI)
  fix q show "q \<in> pos (x, y) 6 ` {..<n} \<longleftrightarrow> q \<in> {q. fst q = x \<and> y \<le> snd q \<and> snd q < y + int n}"
    using pos_memI [of "snd q - y" n q "(x, y)" 6] by (auto simp: pos_def code_delta_sides prod_eq_iff)
qed

lemma pos_right: "pos (x, y) 8 ` {..<n} = {q. snd q = y \<and> x \<le> fst q \<and> fst q < x + int n}"
proof (rule set_eqI)
  fix q show "q \<in> pos (x, y) 8 ` {..<n} \<longleftrightarrow> q \<in> {q. snd q = y \<and> x \<le> fst q \<and> fst q < x + int n}"
    using pos_memI [of "fst q - x" n q "(x, y)" 8] by (auto simp: pos_def code_delta_sides prod_eq_iff)
qed

lemma pos_up: "pos (x, y) 10 ` {..<n} = {q. fst q = x \<and> y - int n < snd q \<and> snd q \<le> y}"
proof (rule set_eqI)
  fix q show "q \<in> pos (x, y) 10 ` {..<n} \<longleftrightarrow> q \<in> {q. fst q = x \<and> y - int n < snd q \<and> snd q \<le> y}"
    using pos_memI [of "y - snd q" n q "(x, y)" 10] by (auto simp: pos_def code_delta_sides prod_eq_iff)
qed

subsection \<open>The four sides\<close>

lemma trace_left:
  assumes T: "traced X0 Y0 X1 Y1 img {}" and d: "X0 < X1" "Y0 < Y1"
  shows "\<exists>img'. traced X0 Y0 X1 Y1 img' {q. fst q = X0 \<and> Y0 \<le> snd q \<and> snd q < Y1} \<and>
    fetch_contour img (X0, Y0) (X0 - 1, Y0 - 1) =
      follow_border (X0, Y0) (X0 + 1, Y0) img' (X0, Y1) 2 6 (X0 - 1, Y1 - 1) [(X0 - 1, Y0 - 1)]"
proof -
  have f0: "fetch_contour img (X0, Y0) (X0 - 1, Y0 - 1) =
            follow_border (X0, Y0) (X0 + 1, Y0) img (X0, Y0) 0 4 (X0 - 1, Y0 - 1) []"
    using d by (simp add: fetch_contour_def traced_nonzero [OF T] inR_def mv_def code_delta_def)
  have in0: "inR X0 Y0 X1 Y1 (X0, Y0)" using d by (simp add: inR_def)
  obtain img1 where T1: "traced X0 Y0 X1 Y1 img1 {(X0, Y0)}"
    and f1: "follow_border (X0, Y0) (X0 + 1, Y0) img (X0, Y0) 0 4 (X0 - 1, Y0 - 1) [] =
             follow_border (X0, Y0) (X0 + 1, Y0) img1 (X0, Y0 + 1) 2 6 (X0 - 1, Y0) [(X0 - 1, Y0 - 1)]"
  proof -
    have "scan_dirs img (X0, Y0) 0 [Suc 0..<16] = 6" using search_left [OF T d(1) order_refl d(2)] by simp
    from rect_step [OF T in0 _ _ this, of "(X0, Y0)" "(X0 + 1, Y0)" 4 "(X0 - 1, Y0 - 1)" "[]"]
    have "\<exists>img1. traced X0 Y0 X1 Y1 img1 {(X0, Y0)} \<and>
      follow_border (X0, Y0) (X0 + 1, Y0) img (X0, Y0) 0 4 (X0 - 1, Y0 - 1) [] =
      follow_border (X0, Y0) (X0 + 1, Y0) img1 (X0, Y0 + 1) 2 6 (X0 - 1, Y0) [(X0 - 1, Y0 - 1)]"
      by (simp add: mv_def code_delta_def)
    then show ?thesis using that by blast
  qed
  define n where "n = nat (Y1 - Y0 - 1)"
  have "\<exists>img2. traced X0 Y0 X1 Y1 img2 ({(X0, Y0)} \<union> pos (X0, Y0 + 1) 6 ` {..<n}) \<and>
     follow_border (X0, Y0) (X0 + 1, Y0) img1 (X0, Y0 + 1) 2 6 (X0 - 1, Y0) [(X0 - 1, Y0 - 1)] =
     follow_border (X0, Y0) (X0 + 1, Y0) img2 (pos (X0, Y0 + 1) 6 n) 2 6 (pos (X0 - 1, Y0) 6 n)
       [(X0 - 1, Y0 - 1)]"
  proof (rule rect_run [OF T1])
    show "scan_dirs img' (pos (X0, Y0 + 1) 6 k) 2 [Suc 2..<16] = 6"
      if "k < n" "traced X0 Y0 X1 Y1 img' U'" for k img' U'
      using search_left [OF that(2) d(1), of "Y0 + 1 + int k"] that(1) by (simp add: pos_def code_delta_sides n_def)
    show "\<forall>k<n. inR X0 Y0 X1 Y1 (pos (X0, Y0 + 1) 6 k) \<and> pos (X0, Y0 + 1) 6 k \<notin> {(X0, Y0)}"
      using d by (auto simp: pos_def code_delta_sides inR_def n_def)
    show "\<forall>k<n. \<not> (pos (X0, Y0 + 1) 6 (Suc k) = (X0, Y0) \<and> pos (X0, Y0 + 1) 6 k = (X0 + 1, Y0))"
      by (simp add: pos_def code_delta_sides)
  qed simp_all
  moreover have "{(X0, Y0)} \<union> pos (X0, Y0 + 1) 6 ` {..<n} = {q. fst q = X0 \<and> Y0 \<le> snd q \<and> snd q < Y1}"
    using d by (auto simp: pos_down n_def)
  moreover have "pos (X0, Y0 + 1) 6 n = (X0, Y1)" "pos (X0 - 1, Y0) 6 n = (X0 - 1, Y1 - 1)"
    using d by (simp_all add: pos_def code_delta_sides n_def)
  ultimately show ?thesis using f0 f1 by auto
qed

lemma trace_bottom:
  assumes T: "traced X0 Y0 X1 Y1 img {q. fst q = X0 \<and> Y0 \<le> snd q \<and> snd q < Y1}" and d: "X0 < X1" "Y0 < Y1"
  shows "\<exists>img'. traced X0 Y0 X1 Y1 img'
      ({q. fst q = X0 \<and> Y0 \<le> snd q \<and> snd q \<le> Y1} \<union> {q. snd q = Y1 \<and> X0 < fst q \<and> fst q < X1}) \<and>
    follow_border (X0, Y0) (X0 + 1, Y0) img (X0, Y1) 2 6 (X0 - 1, Y1 - 1) pts =
      follow_border (X0, Y0) (X0 + 1, Y0) img' (X1, Y1) 4 0 (X1 - 1, Y1 - 1) (pts @ [(X0 - 1, Y1 - 1)])"
proof -
  let ?U = "{q. fst q = X0 \<and> Y0 \<le> snd q \<and> snd q < Y1}"
  have c: "inR X0 Y0 X1 Y1 (X0, Y1)" "(X0, Y1) \<notin> ?U" using d by (simp_all add: inR_def)
  obtain img1 where T1: "traced X0 Y0 X1 Y1 img1 (insert (X0, Y1) ?U)"
    and f1: "follow_border (X0, Y0) (X0 + 1, Y0) img (X0, Y1) 2 6 (X0 - 1, Y1 - 1) pts =
             follow_border (X0, Y0) (X0 + 1, Y0) img1 (X0 + 1, Y1) 4 0 (X0, Y1 - 1) (pts @ [(X0 - 1, Y1 - 1)])"
  proof -
    from rect_step [OF T c _ search_bottom_left [OF T d], of "(X0, Y0)" "(X0 + 1, Y0)" 6 "(X0 - 1, Y1 - 1)" pts]
    have "\<exists>img1. traced X0 Y0 X1 Y1 img1 (insert (X0, Y1) ?U) \<and>
      follow_border (X0, Y0) (X0 + 1, Y0) img (X0, Y1) 2 6 (X0 - 1, Y1 - 1) pts =
      follow_border (X0, Y0) (X0 + 1, Y0) img1 (X0 + 1, Y1) 4 0 (X0, Y1 - 1) (pts @ [(X0 - 1, Y1 - 1)])"
      using d by (simp add: mv_def code_delta_def)
    then show ?thesis using that by blast
  qed
  define n where "n = nat (X1 - X0 - 1)"
  have "\<exists>img2. traced X0 Y0 X1 Y1 img2 (insert (X0, Y1) ?U \<union> pos (X0 + 1, Y1) 8 ` {..<n}) \<and>
     follow_border (X0, Y0) (X0 + 1, Y0) img1 (X0 + 1, Y1) 4 0 (X0, Y1 - 1) (pts @ [(X0 - 1, Y1 - 1)]) =
     follow_border (X0, Y0) (X0 + 1, Y0) img2 (pos (X0 + 1, Y1) 8 n) 4 0 (pos (X0, Y1 - 1) 8 n)
       (pts @ [(X0 - 1, Y1 - 1)])"
  proof (rule rect_run [OF T1])
    show "scan_dirs img' (pos (X0 + 1, Y1) 8 k) 4 [Suc 4..<16] = 8"
      if "k < n" "traced X0 Y0 X1 Y1 img' U'" for k img' U'
      using search_bottom [OF that(2), of "X0 + 1 + int k"] that(1) d by (simp add: pos_def code_delta_sides n_def)
    show "\<forall>k<n. inR X0 Y0 X1 Y1 (pos (X0 + 1, Y1) 8 k) \<and> pos (X0 + 1, Y1) 8 k \<notin> insert (X0, Y1) ?U"
      using d by (auto simp: pos_def code_delta_sides inR_def n_def)
    show "\<forall>k<n. \<not> (pos (X0 + 1, Y1) 8 (Suc k) = (X0, Y0) \<and> pos (X0 + 1, Y1) 8 k = (X0 + 1, Y0))"
      using d by (simp add: pos_def code_delta_sides)
  qed simp_all
  moreover have "insert (X0, Y1) ?U \<union> pos (X0 + 1, Y1) 8 ` {..<n} =
      {q. fst q = X0 \<and> Y0 \<le> snd q \<and> snd q \<le> Y1} \<union> {q. snd q = Y1 \<and> X0 < fst q \<and> fst q < X1}"
    using d by (auto simp: pos_right n_def)
  moreover have "pos (X0 + 1, Y1) 8 n = (X1, Y1)" "pos (X0, Y1 - 1) 8 n = (X1 - 1, Y1 - 1)"
    using d by (simp_all add: pos_def code_delta_sides n_def)
  ultimately show ?thesis using f1 by auto
qed

lemma trace_right:
  assumes T: "traced X0 Y0 X1 Y1 img U" and d: "X0 < X1" "Y0 < Y1"
    and U: "U \<subseteq> {q. fst q = X0} \<union> {q. snd q = Y1 \<and> fst q < X1}"
  shows "\<exists>img'. traced X0 Y0 X1 Y1 img' (U \<union> {q. fst q = X1 \<and> Y0 < snd q \<and> snd q \<le> Y1}) \<and>
    follow_border (X0, Y0) (X0 + 1, Y0) img (X1, Y1) 4 0 (X1 - 1, Y1 - 1) pts =
      follow_border (X0, Y0) (X0 + 1, Y0) img' (X1, Y0) 6 2 (X1 - 1, Y0 - 1) (pts @ [(X1 - 1, Y1 - 1)])"
proof -
  have c: "inR X0 Y0 X1 Y1 (X1, Y1)" "(X1, Y1) \<notin> U" using d U by (auto simp: inR_def)
  obtain img1 where T1: "traced X0 Y0 X1 Y1 img1 (insert (X1, Y1) U)"
    and f1: "follow_border (X0, Y0) (X0 + 1, Y0) img (X1, Y1) 4 0 (X1 - 1, Y1 - 1) pts =
             follow_border (X0, Y0) (X0 + 1, Y0) img1 (X1, Y1 - 1) 6 2 (X1 - 1, Y1 - 2) (pts @ [(X1 - 1, Y1 - 1)])"
  proof -
    from rect_step [OF T c _ search_bottom_right [OF T d], of "(X0, Y0)" "(X0 + 1, Y0)" 0 "(X1 - 1, Y1 - 1)" pts]
    have "\<exists>img1. traced X0 Y0 X1 Y1 img1 (insert (X1, Y1) U) \<and>
      follow_border (X0, Y0) (X0 + 1, Y0) img (X1, Y1) 4 0 (X1 - 1, Y1 - 1) pts =
      follow_border (X0, Y0) (X0 + 1, Y0) img1 (X1, Y1 - 1) 6 2 (X1 - 1, Y1 - 2) (pts @ [(X1 - 1, Y1 - 1)])"
      using d by (simp add: mv_def code_delta_def)
    then show ?thesis using that by blast
  qed
  define n where "n = nat (Y1 - Y0 - 1)"
  have "\<exists>img2. traced X0 Y0 X1 Y1 img2 (insert (X1, Y1) U \<union> pos (X1, Y1 - 1) 10 ` {..<n}) \<and>
     follow_border (X0, Y0) (X0 + 1, Y0) img1 (X1, Y1 - 1) 6 2 (X1 - 1, Y1 - 2) (pts @ [(X1 - 1, Y1 - 1)]) =
     follow_border (X0, Y0) (X0 + 1, Y0) img2 (pos (X1, Y1 - 1) 10 n) 6 2 (pos (X1 - 1, Y1 - 2) 10 n)
       (pts @ [(X1 - 1, Y1 - 1)])"
  proof (rule rect_run [OF T1])
    show "scan_dirs img' (pos (X1, Y1 - 1) 10 k) 6 [Suc 6..<16] = 10"
      if "k < n" "traced X0 Y0 X1 Y1 img' U'" for k img' U'
      using search_right [OF that(2) d(1), of "Y1 - 1 - int k"] that(1) by (simp add: pos_def code_delta_sides n_def)
    show "\<forall>k<n. inR X0 Y0 X1 Y1 (pos (X1, Y1 - 1) 10 k) \<and> pos (X1, Y1 - 1) 10 k \<notin> insert (X1, Y1) U"
      using d U by (auto simp: pos_def code_delta_sides inR_def n_def)
    show "\<forall>k<n. \<not> (pos (X1, Y1 - 1) 10 (Suc k) = (X0, Y0) \<and> pos (X1, Y1 - 1) 10 k = (X0 + 1, Y0))"
      by (auto simp: pos_def code_delta_sides n_def)
  qed simp_all
  moreover have "insert (X1, Y1) U \<union> pos (X1, Y1 - 1) 10 ` {..<n} =
      U \<union> {q. fst q = X1 \<and> Y0 < snd q \<and> snd q \<le> Y1}"
    using d by (auto simp: pos_up n_def)
  moreover have "pos (X1, Y1 - 1) 10 n = (X1, Y0)" "pos (X1 - 1, Y1 - 2) 10 n = (X1 - 1, Y0 - 1)"
    using d by (simp_all add: pos_def code_delta_sides n_def)
  ultimately show ?thesis using f1 by auto
qed

lemma trace_top:
  assumes T: "traced X0 Y0 X1 Y1 img U" and d: "X0 < X1" "Y0 < Y1"
    and U: "\<forall>q\<in>U. snd q = Y0 \<longrightarrow> fst q = X0"
  shows "\<exists>img' U'. traced X0 Y0 X1 Y1 img' U' \<and> U \<subseteq> U' \<and>
    follow_border (X0, Y0) (X0 + 1, Y0) img (X1, Y0) 6 2 (X1 - 1, Y0 - 1) pts =
      Some (img', pts @ [(X1 - 1, Y0 - 1)])"
proof -
  have c: "inR X0 Y0 X1 Y1 (X1, Y0)" "(X1, Y0) \<notin> U" using d U by (auto simp: inR_def)
  obtain img1 where T1: "traced X0 Y0 X1 Y1 img1 (insert (X1, Y0) U)"
    and f1: "follow_border (X0, Y0) (X0 + 1, Y0) img (X1, Y0) 6 2 (X1 - 1, Y0 - 1) pts =
             (if X1 = X0 + 1 then Some (img1, pts @ [(X1 - 1, Y0 - 1)])
              else follow_border (X0, Y0) (X0 + 1, Y0) img1 (X1 - 1, Y0) 0 4 (X1 - 2, Y0 - 1)
                     (pts @ [(X1 - 1, Y0 - 1)]))"
  proof -
    have "\<exists>img1. traced X0 Y0 X1 Y1 img1 (insert (X1, Y0) U) \<and>
      follow_border (X0, Y0) (X0 + 1, Y0) img (X1, Y0) 6 2 (X1 - 1, Y0 - 1) pts =
             (if X1 = X0 + 1 then Some (img1, pts @ [(X1 - 1, Y0 - 1)])
              else follow_border (X0, Y0) (X0 + 1, Y0) img1 (X1 - 1, Y0) 0 4 (X1 - 2, Y0 - 1)
                     (pts @ [(X1 - 1, Y0 - 1)]))"
      using rect_step [OF T c _ search_top_right [OF T d], of "(X0, Y0)" "(X0 + 1, Y0)" 2 "(X1 - 1, Y0 - 1)" pts]
      by (cases "X1 = X0 + 1") (simp_all add: mv_def code_delta_def)
    then show ?thesis using that by blast
  qed
  show ?thesis
  proof (cases "X1 = X0 + 1")
    case True
    then show ?thesis using T1 f1 by auto
  next
    case False
    define n where "n = nat (X1 - X0 - 2)"
    let ?U2 = "insert (X1, Y0) U \<union> pos (X1 - 1, Y0) 4 ` {..<n}"
    have "\<exists>img2. traced X0 Y0 X1 Y1 img2 ?U2 \<and>
       follow_border (X0, Y0) (X0 + 1, Y0) img1 (X1 - 1, Y0) 0 4 (X1 - 2, Y0 - 1) (pts @ [(X1 - 1, Y0 - 1)]) =
       follow_border (X0, Y0) (X0 + 1, Y0) img2 (pos (X1 - 1, Y0) 4 n) 0 4 (pos (X1 - 2, Y0 - 1) 4 n)
         (pts @ [(X1 - 1, Y0 - 1)])"
    proof (rule rect_run [OF T1])
      show "scan_dirs img' (pos (X1 - 1, Y0) 4 k) 0 [Suc 0..<16] = 4"
        if "k < n" "traced X0 Y0 X1 Y1 img' U'" for k img' U'
        using search_top [OF that(2), of "X1 - 1 - int k"] that(1) d by (simp add: pos_def code_delta_sides n_def)
      show "\<forall>k<n. inR X0 Y0 X1 Y1 (pos (X1 - 1, Y0) 4 k) \<and> pos (X1 - 1, Y0) 4 k \<notin> insert (X1, Y0) U"
        using d U by (auto simp: pos_def code_delta_sides inR_def n_def)
      show "\<forall>k<n. \<not> (pos (X1 - 1, Y0) 4 (Suc k) = (X0, Y0) \<and> pos (X1 - 1, Y0) 4 k = (X0 + 1, Y0))"
        by (auto simp: pos_def code_delta_sides n_def)
    qed simp_all
    moreover have "pos (X1 - 1, Y0) 4 n = (X0 + 1, Y0)" "pos (X1 - 2, Y0 - 1) 4 n = (X0, Y0 - 1)"
      using d False by (simp_all add: pos_def code_delta_sides n_def)
    ultimately obtain img2 where T2: "traced X0 Y0 X1 Y1 img2 ?U2"
      and f2: "follow_border (X0, Y0) (X0 + 1, Y0) img1 (X1 - 1, Y0) 0 4 (X1 - 2, Y0 - 1) (pts @ [(X1 - 1, Y0 - 1)]) =
       follow_border (X0, Y0) (X0 + 1, Y0) img2 (X0 + 1, Y0) 0 4 (X0, Y0 - 1) (pts @ [(X1 - 1, Y0 - 1)])"
      by metis
    have c2: "inR X0 Y0 X1 Y1 (X0 + 1, Y0)" "(X0 + 1, Y0) \<notin> ?U2"
      using d False U by (auto simp: inR_def pos_def code_delta_sides n_def)
    have "X0 < X0 + 1" "X0 + 1 < X1" using d False by simp_all
    from rect_step [OF T2 c2 _ search_top [OF T2 this d(2)], of "(X0, Y0)" "(X0 + 1, Y0)" 4 "(X0, Y0 - 1)"
        "pts @ [(X1 - 1, Y0 - 1)]"]
    obtain img3 where "traced X0 Y0 X1 Y1 img3 (insert (X0 + 1, Y0) ?U2)"
      "follow_border (X0, Y0) (X0 + 1, Y0) img2 (X0 + 1, Y0) 0 4 (X0, Y0 - 1) (pts @ [(X1 - 1, Y0 - 1)]) =
       Some (img3, pts @ [(X1 - 1, Y0 - 1)])"
      by (auto simp: mv_def code_delta_def)
    then show ?thesis using f1 f2 False by (intro exI [of _ img3] exI [of _ "insert (X0 + 1, Y0) ?U2"]) auto
  qed
qed

lemma fetch_rect:
  assumes T: "traced X0 Y0 X1 Y1 img {}" and d: "X0 < X1" "Y0 < Y1"
  shows "\<exists>img' U. traced X0 Y0 X1 Y1 img' U \<and> {q. fst q = X0 \<and> Y0 \<le> snd q \<and> snd q \<le> Y1} \<subseteq> U \<and>
    fetch_contour img (X0, Y0) (X0 - 1, Y0 - 1) =
      Some (img', [(X0 - 1, Y0 - 1), (X0 - 1, Y1 - 1), (X1 - 1, Y1 - 1), (X1 - 1, Y0 - 1)])"
proof -
  obtain img1 where T1: "traced X0 Y0 X1 Y1 img1 {q. fst q = X0 \<and> Y0 \<le> snd q \<and> snd q < Y1}"
    and f1: "fetch_contour img (X0, Y0) (X0 - 1, Y0 - 1) =
      follow_border (X0, Y0) (X0 + 1, Y0) img1 (X0, Y1) 2 6 (X0 - 1, Y1 - 1) [(X0 - 1, Y0 - 1)]"
    using trace_left [OF T d] by blast
  let ?U2 = "{q. fst q = X0 \<and> Y0 \<le> snd q \<and> snd q \<le> Y1} \<union> {q. snd q = Y1 \<and> X0 < fst q \<and> fst q < X1}"
  obtain img2 where T2: "traced X0 Y0 X1 Y1 img2 ?U2"
    and f2: "follow_border (X0, Y0) (X0 + 1, Y0) img1 (X0, Y1) 2 6 (X0 - 1, Y1 - 1) [(X0 - 1, Y0 - 1)] =
      follow_border (X0, Y0) (X0 + 1, Y0) img2 (X1, Y1) 4 0 (X1 - 1, Y1 - 1) [(X0 - 1, Y0 - 1), (X0 - 1, Y1 - 1)]"
    using trace_bottom [OF T1 d, of "[(X0 - 1, Y0 - 1)]"] by auto
  let ?U3 = "?U2 \<union> {q. fst q = X1 \<and> Y0 < snd q \<and> snd q \<le> Y1}"
  have U2: "?U2 \<subseteq> {q. fst q = X0} \<union> {q. snd q = Y1 \<and> fst q < X1}" by auto
  obtain img3 where T3: "traced X0 Y0 X1 Y1 img3 ?U3"
    and f3: "follow_border (X0, Y0) (X0 + 1, Y0) img2 (X1, Y1) 4 0 (X1 - 1, Y1 - 1) [(X0 - 1, Y0 - 1), (X0 - 1, Y1 - 1)] =
      follow_border (X0, Y0) (X0 + 1, Y0) img3 (X1, Y0) 6 2 (X1 - 1, Y0 - 1)
        [(X0 - 1, Y0 - 1), (X0 - 1, Y1 - 1), (X1 - 1, Y1 - 1)]"
    using trace_right [OF T2 d U2, of "[(X0 - 1, Y0 - 1), (X0 - 1, Y1 - 1)]"] by auto
  have U3: "\<forall>q\<in>?U3. snd q = Y0 \<longrightarrow> fst q = X0" using d by auto
  obtain img4 U4 where T4: "traced X0 Y0 X1 Y1 img4 U4" and U4: "?U3 \<subseteq> U4"
    and f4: "follow_border (X0, Y0) (X0 + 1, Y0) img3 (X1, Y0) 6 2 (X1 - 1, Y0 - 1)
        [(X0 - 1, Y0 - 1), (X0 - 1, Y1 - 1), (X1 - 1, Y1 - 1)] =
      Some (img4, [(X0 - 1, Y0 - 1), (X0 - 1, Y1 - 1), (X1 - 1, Y1 - 1), (X1 - 1, Y0 - 1)])"
    using trace_top [OF T3 d U3, of "[(X0 - 1, Y0 - 1), (X0 - 1, Y1 - 1), (X1 - 1, Y1 - 1)]"] by auto
  have "{q. fst q = X0 \<and> Y0 \<le> snd q \<and> snd q \<le> Y1} \<subseteq> U4" using U4 by blast
  with T4 show ?thesis using f1 f2 f3 f4 by (intro exI [of _ img4] exI [of _ U4]) simp
qed

subsection \<open>The raster scan\<close>

lemma sint_eq_0: "sint (w :: 'a::len word) = 0 \<Longrightarrow> w = 0"
  by (metis sint_0 signed_word_eqI)

text \<open>The raster scan reaches the first foreground pixel without tracing anything.\<close>

lemma scan_to_start:
  "\<forall>q. lab img q \<noteq> 0 \<longrightarrow> Y0 < snd q \<or> (snd q = Y0 \<and> X0 \<le> fst q) \<Longrightarrow> 0 < X0 \<Longrightarrow> X0 < W \<Longrightarrow> Y0 < H \<Longrightarrow>
   0 < x \<Longrightarrow> y < Y0 \<or> (y = Y0 \<and> x \<le> X0) \<Longrightarrow> prev = 0 \<Longrightarrow> lnbd = (0, y) \<Longrightarrow>
   scan_contours W H img x y prev lnbd cs = scan_contours W H img X0 Y0 0 (0, Y0) cs"
proof (induction W H img x y prev lnbd cs rule: scan_contours.induct)
  case (1 W H img x y prev lnbd cs)
  have ny: "\<not> H \<le> y" using "1.prems" by auto
  show ?case
  proof (cases "W \<le> x")
    case True
    then have "y < Y0" using "1.prems" by auto
    then have "y + 1 < Y0 \<or> (y + 1 = Y0 \<and> 1 \<le> X0)" using "1.prems"(2) by auto
    then show ?thesis using "1.IH"(1) [OF ny True] "1.prems"(1-4) True
      by (simp add: scan_contours_row_end ny)
  next
    case nx: False
    show ?thesis
    proof (cases "(x, y) = (X0, Y0)")
      case True
      then show ?thesis using "1.prems" by simp
    next
      case False
      have z: "lab img (x, y) = 0"
      proof (rule ccontr)
        assume "lab img (x, y) \<noteq> 0"
        then have "Y0 < y \<or> (y = Y0 \<and> X0 \<le> x)" using "1.prems"(1) by simp
        then show False using "1.prems"(6) False by auto
      qed
      have p: "prev = sint (lab img (x, y))" using z "1.prems"(7) by simp
      have "y < Y0 \<or> (y = Y0 \<and> x + 1 \<le> X0)" using "1.prems"(6) False by auto
      then show ?thesis using scan_contours_pixel [OF ny nx p] "1.IH"(3) [OF ny nx p refl refl] "1.prems"
        by simp
    qed
  qed
qed

text \<open>After the trace no pixel starts an outer border: every pixel of value 1 has a marked or 1 left neighbour.\<close>

lemma scan_no_start:
  "\<forall>q. sint (lab img q) = 1 \<longrightarrow> lab img (fst q - 1, snd q) \<noteq> 0 \<Longrightarrow> \<forall>y. lab img (0, y) = 0 \<Longrightarrow>
   prev = sint (lab img (x - 1, y)) \<Longrightarrow> scan_contours W H img x y prev lnbd cs = Some cs"
proof (induction W H img x y prev lnbd cs rule: scan_contours.induct)
  case (1 W H img x y prev lnbd cs)
  show ?case
  proof (cases "H \<le> y")
    case True
    then show ?thesis by (simp add: scan_contours_done)
  next
    case ny: False
    show ?thesis
    proof (cases "W \<le> x")
      case True
      then show ?thesis using "1.IH"(1) [OF ny True] "1.prems"(1,2) by (simp add: scan_contours_row_end ny)
    next
      case nx: False
      define p where "p = sint (lab img (x, y))"
      note unf = scan_contours_pixel [OF ny nx p_def, of prev lnbd cs]
      have R: "scan_contours W H img (x + 1) y p (if p AND -2 \<noteq> 0 then (x, snd l) else l) cs = Some cs" for l
        using "1.IH"(2) [OF ny nx p_def, of l] "1.prems"(1,2) by (simp add: p_def)
      show ?thesis
      proof (cases "p = prev")
        case True
        then show ?thesis using unf "1.IH"(3) [OF ny nx p_def refl True] "1.prems" by (simp add: p_def)
      next
        case np: False
        have "\<not> (prev = 0 \<and> p = 1)"
        proof
          assume "prev = 0 \<and> p = 1"
          then have "lab img (x - 1, y) = 0" "lab img (x - 1, y) \<noteq> 0"
            using "1.prems"(1) [rule_format, of "(x, y)"] "1.prems"(3) by (auto simp: p_def dest: sint_eq_0)
          then show False by simp
        qed
        then show ?thesis
          using unf np R [of lnbd] R [of "if prev AND -2 \<noteq> 0 then (x - 1, snd lnbd) else lnbd"] by auto
      qed
    qed
  qed
qed

lemma traced_one:
  assumes "traced X0 Y0 X1 Y1 img U" "sint (lab img q) = 1"
  shows "inR X0 Y0 X1 Y1 q \<and> q \<notin> U"
proof -
  have l: "if q \<in> U then lab img q = word_of_int (nbd OR -128) \<or> lab img q = word_of_int nbd
           else lab img q = (if inR X0 Y0 X1 Y1 q then 1 else 0)"
    using assms(1) unfolding traced_def by blast
  show ?thesis
  proof (cases "q \<in> U")
    case True
    then show ?thesis using l assms(2) sint_marks by auto
  next
    case False
    then show ?thesis using l assms(2) by (auto split: if_splits)
  qed
qed

lemma scan_rect:
  assumes T: "traced X0 Y0 X1 Y1 img {}" and d: "0 < X0" "0 < Y0" "X0 < X1" "Y0 < Y1" "X1 < W" "Y1 < H"
  shows "scan_contours W H img 1 1 0 (0, 1) [] =
           Some [[(X0 - 1, Y0 - 1), (X0 - 1, Y1 - 1), (X1 - 1, Y1 - 1), (X1 - 1, Y0 - 1)]]"
proof -
  let ?c = "[(X0 - 1, Y0 - 1), (X0 - 1, Y1 - 1), (X1 - 1, Y1 - 1), (X1 - 1, Y0 - 1)]"
  have nz: "lab img q \<noteq> 0 \<longleftrightarrow> inR X0 Y0 X1 Y1 q" for q using traced_nonzero [OF T] .
  have s1: "scan_contours W H img 1 1 0 (0, 1) [] = scan_contours W H img X0 Y0 0 (0, Y0) []"
    by (rule scan_to_start) (use d in \<open>auto simp: nz inR_def\<close>)
  obtain img' U where T': "traced X0 Y0 X1 Y1 img' U"
    and LC: "{q. fst q = X0 \<and> Y0 \<le> snd q \<and> snd q \<le> Y1} \<subseteq> U"
    and f: "fetch_contour img (X0, Y0) (X0 - 1, Y0 - 1) = Some (img', ?c)"
    using fetch_rect [OF T d(3,4)] by blast
  have one: "lab img (X0, Y0) = 1" using traced_fresh [OF T] d by (simp add: inR_def)
  have p: "1 = sint (lab img (X0, Y0))" by (simp add: one)
  have z: "lab img (0, Y0) = 0" using nz [of "(0, Y0)"] d by (simp add: inR_def)
  have s2: "scan_contours W H img X0 Y0 0 (0, Y0) [] =
      scan_contours W H img' (X0 + 1) Y0 (sint (lab img' (X0, Y0))) (0, Y0) [?c]"
    using scan_contours_pixel [OF _ _ p, of H W 0 "(0, Y0)" "[]"] d f z by simp
  have s3: "scan_contours W H img' (X0 + 1) Y0 (sint (lab img' (X0, Y0))) (0, Y0) [?c] = Some [?c]"
  proof (rule scan_no_start)
    show "\<forall>q. sint (lab img' q) = 1 \<longrightarrow> lab img' (fst q - 1, snd q) \<noteq> 0"
    proof (intro allI impI)
      fix q assume "sint (lab img' q) = 1"
      then have "inR X0 Y0 X1 Y1 q" "q \<notin> U" using traced_one [OF T'] by blast+
      then have "inR X0 Y0 X1 Y1 (fst q - 1, snd q)" using LC by (auto simp: inR_def)
      then show "lab img' (fst q - 1, snd q) \<noteq> 0" using traced_nonzero [OF T'] by blast
    qed
    show "\<forall>y. lab img' (0, y) = 0"
    proof
      fix y show "lab img' (0, y) = 0" using traced_nonzero [OF T', of "(0, y)"] d by (simp add: inR_def)
    qed
  qed simp
  show ?thesis using s1 s2 s3 by simp
qed

subsection \<open>On the source frame\<close>

lemma traced_pad:
  assumes "\<forall>q. lab src q \<noteq> 0 \<longleftrightarrow> x0 \<le> fst q \<and> fst q \<le> x1 \<and> y0 \<le> snd q \<and> snd q \<le> y1"
  shows "traced (x0 + 1) (y0 + 1) (x1 + 1) (y1 + 1) (threshold_binary 0 1 (copyMakeBorder src)) {}"
  unfolding traced_def
proof (intro conjI allI)
  fix q :: point
  let ?T = "threshold_binary 0 1 (copyMakeBorder src)"
  have "lab ?T q \<noteq> 0 \<longleftrightarrow> lab src (fst q - 1, snd q - 1) \<noteq> 0"
    using lab_pad [of src "fst q - 1" "snd q - 1"] by simp
  then have "lab ?T q \<noteq> 0 \<longleftrightarrow> inR (x0 + 1) (y0 + 1) (x1 + 1) (y1 + 1) q"
    using assms by (auto simp: inR_def)
  then show "if q \<in> {} then lab ?T q = word_of_int (nbd OR -128) \<or> lab ?T q = word_of_int nbd
             else lab ?T q = (if inR (x0 + 1) (y0 + 1) (x1 + 1) (y1 + 1) q then 1 else 0)"
    using lab_threshold01 [of "copyMakeBorder src" q] by auto
qed simp

lemma findContours_rect_mask:
  assumes wf: "wf_image h w src"
    and R: "\<forall>q. lab src q \<noteq> 0 \<longleftrightarrow> x0 \<le> fst q \<and> fst q \<le> x1 \<and> y0 \<le> snd q \<and> snd q \<le> y1"
    and d: "x0 < x1" "y0 < y1"
  shows "cv_findContours src = [[(x0, y0), (x0, y1), (x1, y1), (x1, y0)]]"
proof -
  let ?T = "threshold_binary 0 1 (copyMakeBorder src)"
  have l0: "lab src (x0, y0) \<noteq> 0" and l1: "lab src (x1, y1) \<noteq> 0" using R d by auto
  have b: "0 \<le> x0" "0 \<le> y0" "y1 < int (length src)" "x1 < int (length (src ! nat y1))"
    using lab_nonzero_bounds [OF l0] lab_nonzero_bounds [OF l1] by simp_all
  have h: "length src = h" "0 < h" using wf b d by (auto simp: wf_image_def)
  have w: "row_width src = w" "length (src ! nat y1) = w"
    using wf_image_row_width [OF wf h(2)] wf b h by auto
  have dims: "int (row_width ?T) - 1 = int w + 1" "int (length ?T) - 1 = int h + 1"
    using h w by (simp_all add: pad_dims)
  have "scan_contours (int (row_width ?T) - 1) (int (length ?T) - 1) ?T 1 1 0 (0, 1) [] =
      Some [[(x0 + 1 - 1, y0 + 1 - 1), (x0 + 1 - 1, y1 + 1 - 1), (x1 + 1 - 1, y1 + 1 - 1), (x1 + 1 - 1, y0 + 1 - 1)]]"
    unfolding dims using b d h w by (intro scan_rect [OF traced_pad [OF R]]) simp_all
  then show ?thesis by (simp add: cv_findContours_def findContours_def)
qed

lemma contourArea_rect:
  assumes "x0 < x1" "y0 < y1"
  shows "contourArea [(x0, y0), (x0, y1), (x1, y1), (x1, y0)] = of_int ((x1 - x0) * (y1 - y0))"
proof -
  have "shoelace (x1, y0) [(x0, y0), (x0, y1), (x1, y1), (x1, y0)] = - (2 * ((x1 - x0) * (y1 - y0)))"
    by (simp add: shoelace.simps algebra_simps)
  moreover have "0 < (x1 - x0) * (y1 - y0)" using assms by simp
  ultimately have "\<bar>shoelace (x1, y0) [(x0, y0), (x0, y1), (x1, y1), (x1, y0)]\<bar> = 2 * ((x1 - x0) * (y1 - y0))"
    by simp
  then show ?thesis by (simp add: contourArea_def of_int_abs [symmetric])
qed

lemma lab_replicate:
  "lab (replicate h (replicate w c)) q =
     (if 0 \<le> snd q \<and> snd q < int h \<and> 0 \<le> fst q \<and> fst q < int w then c else 0)"
  by (cases q) (auto simp: lab_def)

subsection \<open>A filled rectangle\<close>

text \<open>
  C31: on a mask whose foreground is exactly the pixels \<open>(x, y)\<close> with
  \<open>x0 \<le> x \<le> x1\<close> and \<open>y0 \<le> y \<le> y1\<close> (\<open>x0 < x1\<close>, \<open>y0 < y1\<close>), \<open>cv2.findContours\<close>
  returns one contour, the four corners from the top-left one down the left side, and
  line 87 keeps it exactly when \<open>(x1 - x0) * (y1 - y0)\<close> reaches \<open>MinimumContourArea\<close>:
  the area of the polygon through the border pixels' centres, not the
  \<open>(x1 - x0 + 1) * (y1 - y0 + 1)\<close> pixels of the blob nor its bounding-box area.
\<close>

theorem findContours_rectangle:
  assumes "wf_image h w src"
    and "\<forall>q. lab src q \<noteq> 0 \<longleftrightarrow> x0 \<le> fst q \<and> fst q \<le> x1 \<and> y0 \<le> snd q \<and> snd q \<le> y1"
    and "x0 < x1" "y0 < y1"
  shows "cv_findContours src = [[(x0, y0), (x0, y1), (x1, y1), (x1, y0)]] \<and>
         (retained [(x0, y0), (x0, y1), (x1, y1), (x1, y0)] \<longleftrightarrow> MinimumContourArea \<le> (x1 - x0) * (y1 - y0))"
  using findContours_rect_mask [OF assms] unfolding retained_def contourArea_rect [OF assms(3,4)]
  by (simp only: not_less of_int_le_iff simp_thms)

text \<open>
  A white frame of 60 by 50 pixels, 3000 pixels and a bounding box of area 3000: its
  contour has area 59 * 49 = 2891, and line 87 drops it.
\<close>

theorem findContours_rectangle_witness:
  "cv_findContours (replicate 50 (replicate 60 255)) = [[(0, 0), (0, 49), (59, 49), (59, 0)]] \<and>
   \<not> retained [(0, 0), (0, 49), (59, 49), (59, 0)]"
proof -
  have wf: "wf_image 50 60 (replicate 50 (replicate 60 (255 :: 8 word)))" by (simp add: wf_image_def list_all_iff)
  have R: "\<forall>q. lab (replicate 50 (replicate 60 (255 :: 8 word))) q \<noteq> 0 \<longleftrightarrow>
             0 \<le> fst q \<and> fst q \<le> 59 \<and> 0 \<le> snd q \<and> snd q \<le> 49"
    by (auto simp: lab_replicate)
  show ?thesis using findContours_rectangle [OF wf R] by (simp add: MinimumContourArea_def)
qed

end
