(* ===== verification/Blur.thy ===== *)
theory Blur
  imports Preprocess
begin

text \<open>
  \<open>cv2.GaussianBlur(FrameGray, (21, 21), 0)\<close> (line 58) on an 8-bit grey frame, as
  OpenCV 3.2--3.3 computes it without IPP (\<^verbatim>\<open>modules/imgproc/src/smooth.cpp\<close> and
  \<^verbatim>\<open>filter.cpp\<close>):
  \<^item> \<open>getGaussianKernel(21, 0)\<close> takes \<open>sigma = 0.3 * ((21 - 1) * 0.5 - 1) + 0.8 = 3.5\<close>
    and the normalised weights \<open>exp(-(i - 10)\<^sup>2 / (2 * 3.5\<^sup>2))\<close> as \<open>float\<close>s; the
    kernel is symmetric and sums to 1, so \<open>createSeparableLinearFilter\<close> takes its
    8-bit integer path and scales it by \<open>2\<^sup>8\<close> with rounding (\<open>convertTo(CV_32S, 1 << 8)\<close>),
    which gives the integer kernel of \<open>GaussianBlur_21\<close>; its weights sum to 255;
  \<^item> the row filter sums kernel times pixel along each row into an \<open>int\<close>, the
    column filter sums kernel times row result down each column and casts with
    \<open>FixedPtCastEx\<close>: add \<open>2\<^sup>1\<^sup>5\<close>, shift right by 16, saturate to \<open>uchar\<close>;
  \<^item> pixels outside the frame are read through \<open>borderInterpolate\<close> with
    \<open>BORDER_REFLECT_101\<close> (\<open>reflect101\<close>), on both axes.
  The SSE2 column filter computes the same sum exactly in \<open>float\<close> and rounds a tie
  to even where the scalar code rounds it up, and IPP builds use IPP's own filter; the
  values here are the scalar path's. That the blur keeps the frame's shape, the
  property the driver needs (\<open>blur_keeps_shape\<close>), holds for every path.
\<close>

text \<open>
  \<open>borderInterpolate(p, len, BORDER_REFLECT_101)\<close>:
  \<^verbatim>\<open>if (len == 1) return 0; do { if (p < 0) p = -p - 1 + 1; else p = len - 1 - (p - len) - 1; }
  while ((unsigned)p >= (unsigned)len);\<close>. The filters call it only with \<open>len \<ge> 1\<close>; the
  loop would not end for \<open>len = 0\<close>, which returns 0 here.
\<close>

function reflect101 :: "nat \<Rightarrow> int \<Rightarrow> nat" where
  "reflect101 len p =
     (if 0 \<le> p \<and> p < int len then nat p
      else if len \<le> 1 then 0
      else if p < 0 then reflect101 len (- p)
      else reflect101 len (2 * int len - 2 - p))"
  by auto
termination
  by (relation "measure (\<lambda>(len, p). nat (if p < 0 then 1 - 2 * p else 2 * p))") auto

declare reflect101.simps [simp del]

text \<open>
  \<open>sepFilter2D\<close> on the integer path with the same kernel \<open>k\<close> on both axes and its
  anchor at the centre: the row pass, then the column pass with the cast.
\<close>

definition sep_filter :: "int list \<Rightarrow> gray_image \<Rightarrow> gray_image" where
  "sep_filter k src =
     (let h = length src; w = row_width src; anchor = int (length k div 2);
          row_pass = map (\<lambda>row. map (\<lambda>x.
                       sum_list (map (\<lambda>j. k ! j * uint (row ! reflect101 w (int x + int j - anchor)))
                                     [0..<length k])) [0..<w]) src
      in map (\<lambda>y. map (\<lambda>x. word_of_int (max 0 (min 255
             ((sum_list (map (\<lambda>i. k ! i * row_pass ! reflect101 h (int y + int i - anchor) ! x)
                              [0..<length k]) + 2 ^ 15) div 2 ^ 16))))
             [0..<w]) [0..<h])"

text \<open>Line 58: the 21-tap kernel of \<open>sigma = 3.5\<close> in 8-bit fixed point.\<close>

definition GaussianBlur_21 :: "gray_image \<Rightarrow> gray_image" where
  "GaussianBlur_21 FrameGray =
     sep_filter [0, 1, 2, 4, 7, 11, 15, 20, 25, 28, 29, 28, 25, 20, 15, 11, 7, 4, 2, 1, 0] FrameGray"

subsection \<open>The border index\<close>

lemma reflect101_lt: "0 < len \<Longrightarrow> reflect101 len p < len"
proof (induction len p rule: reflect101.induct)
  case (1 len p)
  then show ?case by (subst reflect101.simps) auto
qed

lemma reflect101_inside: "0 \<le> p \<Longrightarrow> p < int len \<Longrightarrow> reflect101 len p = nat p"
  by (simp add: reflect101.simps)

subsection \<open>The filter keeps the frame's shape\<close>

lemma sep_filter_shape:
  assumes "wf_image h w src"
  shows "wf_image h w (sep_filter k src)"
proof (cases "h = 0")
  case True
  then have "src = []" using assms by (simp add: wf_image_def)
  with True show ?thesis by (simp add: sep_filter_def wf_image_def)
next
  case False
  then have "length src = h" "row_width src = w"
    using assms wf_image_row_width [OF assms] by (simp_all add: wf_image_def)
  then show ?thesis by (simp add: sep_filter_def Let_def wf_image_tabulate)
qed

subsection \<open>A uniform frame\<close>

lemma sum_list_kernel: "sum_list (map (\<lambda>j. k ! j * a) [0..<length k]) = sum_list k * (a :: int)"
proof -
  have "sum_list (map (\<lambda>j. k ! j * a) [0..<length k]) = sum_list (map (\<lambda>j. k ! j) [0..<length k]) * a"
    by (simp add: sum_list_mult_const)
  also have "map (\<lambda>j. k ! j) [0..<length k] = k" by (rule map_nth)
  finally show ?thesis .
qed

text \<open>
  On a frame of one grey level \<open>c\<close> every output pixel is \<open>(S\<^sup>2 c + 2\<^sup>1\<^sup>5) div 2\<^sup>1\<^sup>6\<close>,
  saturated, where \<open>S\<close> is the sum of the kernel's weights.
\<close>

lemma sep_filter_uniform:
  assumes "0 < h" "0 < w"
  shows "sep_filter k (replicate h (replicate w c)) =
           replicate h (replicate w (word_of_int (max 0 (min 255
             ((sum_list k * (sum_list k * uint c) + 2 ^ 15) div 2 ^ 16)))))"
proof -
  let ?src = "replicate h (replicate w c)"
  have rw: "row_width ?src = w" using assms by (cases h) (simp_all add: row_width_def)
  have rows: "map (\<lambda>row. map (\<lambda>x. sum_list (map (\<lambda>j. k ! j * uint (row ! reflect101 w (int x + int j - a)))
                 [0..<length k])) [0..<w]) ?src = replicate h (replicate w (sum_list k * uint c))" for a
    using reflect101_lt [OF assms(2)] by (simp add: sum_list_kernel map_replicate_const)
  show ?thesis
    unfolding sep_filter_def Let_def rw length_replicate rows
    using reflect101_lt [OF assms(1)]
    by (simp add: sum_list_kernel map_replicate_const) (intro impI nth_equalityI; simp)
qed

text \<open>
  The 21-tap kernel sums to 255, not 256: a white frame comes out of the blur at
  level 253.
\<close>

lemma GaussianBlur_21_white:
  "0 < h \<Longrightarrow> 0 < w \<Longrightarrow> GaussianBlur_21 (replicate h (replicate w 255)) = replicate h (replicate w 253)"
  by (simp add: GaussianBlur_21_def sep_filter_uniform)

text \<open>
  A uniform change of 71 grey levels, one more than \<open>BinarizationThreshold\<close>, comes out
  of the blur as 70 levels: the difference of line 67 is then 70, which line 68 does not
  mark.
\<close>

lemma GaussianBlur_21_uniform_71:
  "0 < h \<Longrightarrow> 0 < w \<Longrightarrow>
   GaussianBlur_21 (replicate h (replicate w 0)) = replicate h (replicate w 0) \<and>
   GaussianBlur_21 (replicate h (replicate w 71)) = replicate h (replicate w 70)"
  by (simp add: GaussianBlur_21_def sep_filter_uniform)

end
