(* ===== verification/Spec2Isabelle.thy ===== *)
theory Spec2Isabelle
  imports Rendering RectangleContour Blur
begin

text \<open>
  \<^bold>\<open>A verified model of the object counter of \<^verbatim>\<open>src/converted.py\<close>.\<close>

  \<^medskip>
  \<^bold>\<open>The program.\<close> One Python script reads frames from a camera, takes the first
  frame after 20 warm-up reads as a fixed background, and for every later frame:
  converts it to grayscale and blurs it (lines 57--58); differences it against the
  background, binarises the difference at \<open>BinarizationThreshold\<close> and dilates the mask
  twice (lines 67--73); finds the outer contours of the mask (line 74); draws the two
  reference lines (lines 79--82); and, for every contour whose area reaches
  \<open>MinimumContourArea\<close>, draws its bounding rectangle and centre and increments
  \<open>EntryCounter\<close> or \<open>ExitCounter\<close> when the centre lies within two pixels of the entry
  or exit line (lines 85--112, with the tests of lines 16--31); then it prints and shows
  the counts (lines 114--122).

  \<^medskip>
  \<^bold>\<open>What the program does under Python 3 and OpenCV 3.\<close> \<open>height / 2\<close> (lines
  79--80) and \<open>(y + y + h) / 2\<close> (lines 101--102) are floats, and OpenCV 3's Python
  bindings reject a float point coordinate with \<open>TypeError\<close>. So line 81 raises on the
  second frame read after the warm-up, and line 104 on the first contour that passes the
  area filter: the program never increments a counter, never prints and never shows a
  frame (C1--C7). The development therefore has two readings of the loop body:
  \<^item> the loop body as run, \<open>loop_body\<close> (theory \<open>Rendering\<close>), lines 46--122 with every
    call, which is the program;
  \<^item> the drawing-free pipeline, \<open>frame_step\<close> and \<open>count_contours\<close> (theories
    \<open>Driver\<close> and \<open>Counting\<close>): the same lines without the calls that draw, which is
    the pipeline the spec describes and the code means to run.
  \<open>loop_body\<close> refines \<open>frame_step\<close> (C1): it raises what \<open>frame_step\<close> raises, agrees
  with it on the frame that becomes the background, and raises \<open>TypeError\<close> where
  \<open>frame_step\<close> would count; the contour loop as run raises where \<open>count_contours\<close>
  counts and equals it otherwise (C6). The properties stated of the drawing-free pipeline
  are the ones that carry over to the program through these two refinements: errors, the
  background lifecycle, statements about every successful pass, and which contours are
  retained and where their centres lie.

  \<^medskip>
  \<^bold>\<open>The theories, in import order.\<close>
  \<^item> \<open>Prelude\<close>: frames as lists of rows of \<open>8 word\<close> pixels (\<open>uint8\<close>), Python's true
    division as \<open>rat\<close>, the exceptions \<open>py_error\<close>, the maximum of a pixel list, and
    rectangular images (\<open>wf_image\<close>), with the list and word lemmas the rest uses.
  \<^item> \<open>Globals\<close>: the configuration (lines 11--13) and the counters record (lines 9--10).
  \<^item> \<open>LineCrossing\<close>: \<open>TestEntryIntersection\<close>, \<open>TestExitIntersection\<close> and the
    reference lines (lines 79--80) as rationals; the tests on the lines (C17, C18), the
    tolerance (C19), the lines inside the frame (C20), and no centre passing both
    tests (C21).
  \<^item> \<open>Contours\<close>: \<open>cv2.contourArea\<close> and \<open>cv2.boundingRect\<close>, modelled from OpenCV's
    algorithm (library code, not under \<^verbatim>\<open>src/\<close>), and the centre of lines 101--102.
  \<^item> \<open>Counting\<close>: the state updates of the contour loop, \<open>contour_step\<close> and
    \<open>count_contours\<close>, over any state that extends \<open>loop_vars\<close>, with the spec's
    \<open>Evaluate\<close> contract \<open>frame_effect\<close> as their closed form; order independence
    (C22), the area filter (C23) and the centre (C24).
  \<^item> \<open>ChangeDetect\<close>: \<open>cv2.absdiff\<close>, \<open>cv2.threshold\<close> and \<open>cv2.dilate\<close> on \<open>uint8\<close> frames
    and the detector \<open>detect\<close> of lines 67--73: the mask rule (C13), OpenCV's one-pass
    dilation against the documented iteration (C14) and the absence of wrap-around (C15).
  \<^item> \<open>Preprocess\<close>: OpenCV's fixed-point BGR-to-gray conversion and \<open>preprocess\<close>
    (lines 57--58).
  \<^item> \<open>Blur\<close>: \<open>cv2.GaussianBlur(FrameGray, (21, 21), 0)\<close> of line 58 as OpenCV
    3.2--3.3's scalar 8-bit separable filter: the kernel \<open>getGaussianKernel(21, 3.5)\<close>
    rounded to 8 fractional bits (\<open>GaussianBlur_21\<close>), \<open>BORDER_REFLECT_101\<close>
    (\<open>reflect101\<close>, a terminating \<open>function\<close>), the row and column passes and the
    fixed-point cast (\<open>sep_filter\<close>). It keeps the frame's shape; its rounded kernel,
    whose weights sum to 255, lowers uniform regions.
  \<^item> \<open>Driver\<close>: the program state \<open>driver_state\<close> (counters, \<open>ContourCount\<close>,
    \<open>FirstFrame\<close>, \<open>width\<close>, \<open>height\<close>), the drawing-free pass \<open>frame_step\<close> with its
    errors as \<open>Inl\<close>, the loop \<open>run_loop\<close> over a list of camera reads, the warm-up
    (\<open>program\<close>), and the spec's two-phase lifecycle of the background: the failed grab
    (C8), the lifecycle refinement (C9), the background kept (C10), the first frame
    (C11) and the counters' monotonicity (C12).
  \<^item> \<open>Rendering\<close>: the loop body as run (lines 46--122): Python 3 numbers as \<open>pyval\<close>
    (\<open>int\<close> or \<open>float\<close>), \<open>str\<close> of an \<open>int\<close>, OpenCV 3's conversion of a point
    argument (\<open>cv_point\<close>: \<open>TypeError\<close> on a float, \<open>OverflowError\<close> outside the C
    \<open>int\<close> range), the drawing calls as commands on the frame, the output \<open>screen\<close>
    (printed lines, shown frames), \<open>loop_body\<close>, \<open>main_loop\<close> and \<open>main\<close>: the
    refinement of \<open>frame_step\<close> (C1), no run counting anything (C2), the stop at the
    second frame (C3), line 81 raising for every frame size (C5), the contour loop as run
    (C6), and the overlay's texts (C30).
  \<^item> \<open>FindContours\<close>: \<open>cv2.findContours(..., RETR_EXTERNAL, CHAIN_APPROX_SIMPLE)\<close>
    of line 74 as OpenCV 3 implements it (\<open>contours.cpp\<close>): the zero padding, the
    binarised signed-char working image, the raster scan \<open>scan_contours\<close>
    (\<open>icvFindNextContour\<close>), the border follower \<open>fetch_contour\<close>/\<open>follow_border\<close>
    (\<open>icvFetchContour\<close>) with its marks and direction-change points, and
    \<open>cv_findContours\<close>, the list line 74 unpacks. Library code, modelled from
    OpenCV's source.
  \<^item> \<open>ContourTracing\<close>: the proofs about it. The follower's next state (pixel, entry
    direction) depends only on the foreground, which the marks never change; the step
    is injective on the finite set of border states, so the start state lies on a cycle
    and the follower meets its stop condition. Hence \<open>findContours\<close> returns on every
    mask (C25), every contour point is foreground (C26), a mask with a foreground pixel
    has a contour (C27), a blank mask has none (C28), and every bounding rectangle lies
    inside the frame (C29).
  \<^item> \<open>RectangleContour\<close>: the follower traced pixel by pixel around a filled
    rectangle (the left column down, the bottom row, the right column up, the top row
    back to the second pixel) and the raster scan around it: the contour is the four
    corners, and \<open>cv2.contourArea\<close> of it, which line 87 compares with
    \<open>MinimumContourArea\<close>, is \<open>(a - 1) * (b - 1)\<close> for a block of \<open>a \<times> b\<close> pixels (C31).
  \<^item> This theory: \<open>opencv\<close>, the library the program calls, with the models of
    \<open>Blur\<close> and \<open>FindContours\<close>; the error the second frame raises, fixed by the
    order of lines 67 and 81 (C4); the contour loop as run on OpenCV's contours (C7);
    and the blur moving the threshold of line 68 (C16).

  \<^medskip>
  \<^bold>\<open>Choices.\<close> Pixel coordinates and line positions are \<open>rat\<close>: Python 3's floats are
  exact at frame sizes, where every such value is a half-integer. Counters are \<open>int\<close>,
  as Python's unbounded integers. The camera is the list of results of
  \<open>camera.read()\<close>, \<open>None\<close> for a failed grab; a finite list is a prefix of the endless
  loop, and \<open>Continue\<close> at its end means the program is still running. The program's
  own loops are structural recursion over lists. The one loop that could run for ever,
  OpenCV's border following, is a \<open>partial_function\<close> in the option monad, so not
  returning would be \<open>None\<close>, and C25 proves it always returns \<open>Some\<close>; the raster
  scan is a \<open>function\<close> whose termination is the lexicographic measure (rows left,
  columns left), and \<open>reflect101\<close> and \<open>py_str\<close> are \<open>function\<close>s with a measure. No
  fuel is used. \<open>cv2.GaussianBlur\<close> and \<open>cv2.findContours\<close> are the fields of
  \<open>cv_lib\<close>: the driver and loop-body theorems hold for any implementation,
  \<open>opencv\<close> fills both with the models, and \<open>null_lib\<close> is a stand-in some witnesses
  use.

  \<^medskip>
  \<^bold>\<open>Not modelled.\<close> Camera set-up and teardown (lines 33--37, 125--126) are device
  I/O. The drawing calls are modelled by their argument conversion and recorded as
  commands; how OpenCV rasterises lines, circles and text into the frame is not
  modelled, as nothing the program reads depends on it. OpenCV's hole tracing and
  hierarchy, which \<open>RETR_EXTERNAL\<close> never returns, are left out of \<open>FindContours\<close>.
  \<open>cv2.GaussianBlur\<close>'s SSE2 column pass, which rounds ties to even, and IPP builds,
  which use IPP's own filter, can differ from \<open>Blur\<close> in the last grey level; every
  theorem about the blur but C16 and the uniform-level lemmas holds for them too.

  \<^medskip>
  \<^bold>\<open>Findings.\<close> Under Python 3 the reference lines and the centres are floats, and
  OpenCV 3's \<open>cv2.line\<close> and \<open>cv2.circle\<close> reject a float coordinate with
  \<open>TypeError\<close>: the program stops at the second frame after the warm-up and never
  counts (C1--C7). A failed grab raises \<open>IndexError\<close> at line 49 before the \<open>break\<close>
  of line 54 can run (C8). A change of frame size raises \<open>cv2.error\<close> at line 67 (C4).
  The 8-bit blur kernel sums to 255/256, which lowers a uniform change of 71 levels to
  70, below what line 68 marks (C16). The spec gives \<open>MinimumContourArea\<close> in pixel-area
  units and filters on the bounding-box area; line 87 compares it with the area of the
  polygon through the border pixels' centres, so a filled 60 by 50 block, 3000 pixels
  with a bounding box of area 3000, is dropped (C31).
\<close>

text \<open>
  The library the program calls: \<open>cv2.GaussianBlur(FrameGray, (21, 21), 0)\<close> at line 58
  (theory \<open>Blur\<close>) and \<open>cv2.findContours\<close> at line 74 (theory \<open>FindContours\<close>).
\<close>

definition opencv :: cv_lib where
  "opencv = \<lparr>blur = GaussianBlur_21, find_contours = cv_findContours\<rparr>"

subsection \<open>The blur against the threshold\<close>

lemma detect_uniform:
  assumes "0 < h" "0 < w"
  shows "detect (replicate h (replicate w a)) (replicate h (replicate w b)) =
           Inr (replicate h (replicate w (if BinarizationThreshold < unat (absdiff_px a b) then 255 else 0)))"
proof -
  have wf: "wf_image h w (replicate h (replicate w c))" for c :: pixel by (simp add: wf_image_def list_all_iff)
  have ex: "(\<exists>x\<in>set (nbr 2 h i). \<exists>y\<in>set (nbr 2 w j).
              changed (replicate h (replicate w a)) (replicate h (replicate w b)) x y) \<longleftrightarrow>
            BinarizationThreshold < unat (absdiff_px a b)" if "i < h" "j < w" for i j
    using that by (auto simp: changed_def)
  let ?v = "if BinarizationThreshold < unat (absdiff_px a b) then 255 else (0 :: pixel)"
  have "detect (replicate h (replicate w a)) (replicate h (replicate w b)) =
          Inr (map (\<lambda>i. map (\<lambda>j. if \<exists>x\<in>set (nbr 2 h i). \<exists>y\<in>set (nbr 2 w j).
                 changed (replicate h (replicate w a)) (replicate h (replicate w b)) x y then 255 else 0)
               [0..<w]) [0..<h])"
    by (rule detect_eq [OF wf wf])
  also have "\<dots> = Inr (map (\<lambda>i. map (\<lambda>j. ?v) [0..<w]) [0..<h])"
    by (intro arg_cong [where f = Inr] map_cong refl) (simp add: ex)
  also have "\<dots> = Inr (replicate h (replicate w ?v))" by (simp add: map_replicate_const)
  finally show ?thesis .
qed

lemma preprocess_grey:
  "preprocess f (replicate h (replicate w (c, c, c))) = f (replicate h (replicate w c))"
  by (simp add: preprocess_def cvtColor_BGR2GRAY_def map_replicate_const)

text \<open>
  C16: the blur of line 58 moves the threshold of line 68. Over a black background, a
  uniform change to grey level 71, one more than \<open>BinarizationThreshold\<close>, marks every
  pixel of the mask when the frames are compared unblurred, but none after
  \<open>cv2.GaussianBlur\<close>: OpenCV's 8-bit kernel sums to 255/256 and lowers the level to 70.
\<close>

theorem blurred_change_missed:
  assumes "0 < h" "0 < w"
  shows "detect (preprocess id (replicate h (replicate w (0, 0, 0))))
                (preprocess id (replicate h (replicate w (71, 71, 71)))) =
           Inr (replicate h (replicate w 255)) \<and>
         detect (preprocess GaussianBlur_21 (replicate h (replicate w (0, 0, 0))))
                (preprocess GaussianBlur_21 (replicate h (replicate w (71, 71, 71)))) =
           Inr (replicate h (replicate w 0))"
  using assms GaussianBlur_21_uniform_71 [OF assms]
  by (simp add: preprocess_grey detect_uniform absdiff_px_def BinarizationThreshold_def)

theorem blurred_change_missed_witness:
  "detect (preprocess id (replicate 1 (replicate 2 (0, 0, 0))))
          (preprocess id (replicate 1 (replicate 2 (71, 71, 71)))) = Inr (replicate 1 (replicate 2 255)) \<and>
   detect (preprocess GaussianBlur_21 (replicate 1 (replicate 2 (0, 0, 0))))
          (preprocess GaussianBlur_21 (replicate 1 (replicate 2 (71, 71, 71)))) = Inr (replicate 1 (replicate 2 0))"
  using blurred_change_missed [of 1 2] by simp


subsection \<open>The loop body as run, with OpenCV's blur and contours\<close>

lemma same_shape_wf:
  assumes "wf_image h w A" "wf_image h' w' B"
  shows "same_shape A B \<longleftrightarrow> h = h' \<and> (h = 0 \<or> w = w')"
proof -
  have l: "length A = h" "length B = h'" using assms by (simp_all add: wf_image_def)
  have "same_shape A B \<longleftrightarrow> h = h' \<and> (\<forall>i<h. length (A ! i) = length (B ! i))"
    using l by (auto simp: same_shape_def list_all2_conv_all_nth)
  also have "\<dots> \<longleftrightarrow> h = h' \<and> (h = 0 \<or> w = w')"
  proof (cases "h = 0")
    case False
    then have "0 < h" by simp
    then show ?thesis using assms by (auto simp: wf_image_nth)
  qed simp
  finally show ?thesis .
qed

lemma opencv_keeps_shape: "blur_keeps_shape opencv"
  by (simp add: blur_keeps_shape_def opencv_def GaussianBlur_21_def sep_filter_shape)

text \<open>
  C4: with OpenCV's blur and contour finder, the second frame read after the warm-up
  ends the program, and which error it raises is fixed by the order of lines 67 and 81:
  \<open>cv2.error\<close> from \<open>cv2.absdiff\<close> when the two frames differ in size, and
  \<open>TypeError\<close> from \<open>cv2.line\<close> when they have the same size.
\<close>

theorem opencv_second_frame:
  assumes "wf_image h w F1" "wf_image h' w' F2" "length pre = warmup_reads"
  shows "main opencv (pre @ Some F1 # Some F2 # rest) =
           Inl (if length F1 = length F2 \<and> row_width F1 = row_width F2 then TypeError else CvError)"
proof -
  have "wf_image h w (preprocess (blur opencv) F1)" "wf_image h' w' (preprocess (blur opencv) F2)"
    using wf_preprocess [OF opencv_keeps_shape] assms(1,2) by simp_all
  then have "same_shape (preprocess (blur opencv) F1) (preprocess (blur opencv) F2) \<longleftrightarrow>
               h = h' \<and> (h = 0 \<or> w = w')"
    by (rule same_shape_wf)
  moreover have "length F1 = length F2 \<and> row_width F1 = row_width F2 \<longleftrightarrow> h = h' \<and> (h = 0 \<or> w = w')"
    using assms(1,2) wf_image_row_width [OF assms(1)] wf_image_row_width [OF assms(2)]
    by (cases "h = 0"; cases "h' = 0") (auto simp: wf_image_def row_width_def)
  ultimately show ?thesis by (simp add: main_second_frame_errors [OF assms(3)])
qed

theorem opencv_second_frame_witness:
  "main opencv (replicate 20 None @ [Some [[(0, 0, 0)]], Some [[(0, 0, 0), (0, 0, 0)]]]) = Inl CvError \<and>
   main opencv (replicate 20 None @ [Some [[(0, 0, 0)]], Some [[(9, 9, 9)]]]) = Inl TypeError"
  using opencv_second_frame [of 1 1 "[[(0, 0, 0)]]" 1 2 "[[(0, 0, 0), (0, 0, 0)]]" "replicate 20 None" "[]"]
    opencv_second_frame [of 1 1 "[[(0, 0, 0)]]" 1 1 "[[(9, 9, 9)]]" "replicate 20 None" "[]"]
  by (simp_all add: wf_image_def warmup_reads_def row_width_def)




end
